theory Spec2Isabelle
  imports Main "HOL-Library.AList"
begin

section \<open>The PRSMTECH theme compiler (themes/prsmtech/build.js) and the read path of the core module\<close>

subsection \<open>Values\<close>

text \<open>
  The token document is what \<^verbatim>\<open>JSON.parse\<close> returns. An object is the list of its own
  properties in the order \<^verbatim>\<open>Object.keys\<close> enumerates them. A number is represented by
  its decimal rendering (what \<^verbatim>\<open>String(n)\<close> returns): the compiler only ever prints a
  number, asks for its \<^verbatim>\<open>typeof\<close>, or tests its truthiness, and a number is falsy
  exactly when it prints as \<^verbatim>\<open>0\<close>.
\<close>

datatype json =
    JNull
  | JBool bool
  | JNumber string
  | JString string
  | JArray "json list"
  | JObject "(string \<times> json) list"

type_synonym obj = "(string \<times> json) list"

text \<open>
  The exceptions: the compiler's own code can raise a \<^verbatim>\<open>TypeError\<close>, \<^verbatim>\<open>JSON.parse\<close> a
  \<^verbatim>\<open>SyntaxError\<close>, and the file system functions raise a system error.
\<close>

datatype error = TypeError | SyntaxError | SystemError

definition startsWith :: "string \<Rightarrow> string \<Rightarrow> bool" where
  "startsWith s p = (take (length p) s = p)"

definition has_key :: "string \<Rightarrow> (string \<times> 'a) list \<Rightarrow> bool" where
  "has_key k fs = (map_of fs k \<noteq> None)"

fun join :: "string \<Rightarrow> string list \<Rightarrow> string" where
  "join sep [] = []"
| "join sep [x] = x"
| "join sep (x # y # ys) = x @ sep @ join sep (y # ys)"

text \<open>
  \<^verbatim>\<open>String(v)\<close>, which is also what a template literal applies to an interpolated value. An
  object is converted through its \<^verbatim>\<open>toString\<close> property: a plain object inherits the method
  of \<^verbatim>\<open>Object.prototype\<close> and prints as \<^verbatim>\<open>[object Object]\<close>, but an object of the token
  document with an own \<^verbatim>\<open>toString\<close> key hides the method behind a value that is not
  callable, and the conversion raises a \<^verbatim>\<open>TypeError\<close>. An array prints as its elements
  joined by a comma (\<^verbatim>\<open>Array.prototype.join\<close>), where \<^verbatim>\<open>null\<close> elements print as the empty
  string and every other element is converted in turn.
\<close>

fun toString :: "json \<Rightarrow> error + string"
  and join_elements :: "json list \<Rightarrow> error + string list"
where
  "toString JNull = Inr ''null''"
| "toString (JBool b) = Inr (if b then ''true'' else ''false'')"
| "toString (JNumber n) = Inr n"
| "toString (JString s) = Inr s"
| "toString (JArray xs) =
     (case join_elements xs of Inl e \<Rightarrow> Inl e | Inr ss \<Rightarrow> Inr (join '','' ss))"
| "toString (JObject fs) =
     (if has_key ''toString'' fs then Inl TypeError else Inr ''[object Object]'')"
| "join_elements [] = Inr []"
| "join_elements (x # xs) =
     (case (if x = JNull then Inr [] else toString x) of
        Inl e \<Rightarrow> Inl e
      | Inr s \<Rightarrow> (case join_elements xs of Inl e \<Rightarrow> Inl e | Inr ss \<Rightarrow> Inr (s # ss)))"

subsection \<open>Property assignment on a plain object\<close>

text \<open>
  A key that is a canonical array index (a decimal integer below \<open>2^32 - 1\<close> without leading
  zeros) is enumerated before every other key, in ascending numeric order; the other keys are
  enumerated in the order of their creation.
\<close>

definition digit_val :: "char \<Rightarrow> nat" where
  "digit_val c = of_char c - 48"

definition is_digit :: "char \<Rightarrow> bool" where
  "is_digit c = (48 \<le> (of_char c :: nat) \<and> (of_char c :: nat) \<le> 57)"

definition index_val :: "string \<Rightarrow> nat" where
  "index_val k = foldl (\<lambda>n c. 10 * n + digit_val c) 0 k"

definition is_array_index :: "string \<Rightarrow> bool" where
  "is_array_index k =
     (k \<noteq> [] \<and> list_all is_digit k \<and> (k = ''0'' \<or> hd k \<noteq> CHR ''0'')
      \<and> length k \<le> 10 \<and> index_val k < 4294967295)"

fun insert_index :: "string \<Rightarrow> 'a \<Rightarrow> (string \<times> 'a) list \<Rightarrow> (string \<times> 'a) list" where
  "insert_index k v [] = [(k, v)]"
| "insert_index k v ((k', v') # rest) =
     (if is_array_index k' \<and> index_val k' < index_val k
      then (k', v') # insert_index k v rest
      else (k, v) # (k', v') # rest)"

text \<open>Defining the own property \<open>k\<close> of an object (object literal, spread, \<^verbatim>\<open>Object.fromEntries\<close>).\<close>

definition define_prop :: "string \<Rightarrow> 'a \<Rightarrow> (string \<times> 'a) list \<Rightarrow> (string \<times> 'a) list" where
  "define_prop k v ob =
     (if has_key k ob then AList.update k v ob
      else if is_array_index k then insert_index k v ob
      else ob @ [(k, v)])"

text \<open>
  The assignment \<^verbatim>\<open>acc[k] = v\<close> on an object created by \<^verbatim>\<open>{}\<close>. Assigning to
  \<^verbatim>\<open>__proto__\<close> goes to the setter inherited from \<^verbatim>\<open>Object.prototype\<close> and creates no
  own property.
\<close>

definition assign_prop :: "string \<Rightarrow> 'a \<Rightarrow> (string \<times> 'a) list \<Rightarrow> (string \<times> 'a) list" where
  "assign_prop k v ob = (if k = ''__proto__'' then ob else define_prop k v ob)"

text \<open>\<^verbatim>\<open>Object.assign(target, source)\<close>: every own property of the source is assigned in order.\<close>

definition object_assign :: "(string \<times> 'a) list \<Rightarrow> (string \<times> 'a) list \<Rightarrow> (string \<times> 'a) list" where
  "object_assign target source = foldl (\<lambda>t (k, v). assign_prop k v t) target source"

subsection \<open>The Flattener: \<^verbatim>\<open>flattenObject\<close> (build.js, lines 42 to 74)\<close>

text \<open>
  \<^verbatim>\<open>fonts.map(f => f.includes(' ') ? `"${f}"` : f).join(', ')\<close>. A string has
  \<^verbatim>\<open>includes\<close> (substring test) and so has an array (element test); on every other value
  the call raises a \<^verbatim>\<open>TypeError\<close>. The template literal and the final \<^verbatim>\<open>join\<close> convert
  an element that is an array to a string.
\<close>

fun quote_font :: "json \<Rightarrow> error + json" where
  "quote_font (JString s) =
     Inr (if CHR '' '' \<in> set s then JString (''\"'' @ s @ ''\"'') else JString s)"
| "quote_font (JArray xs) =
     (if JString '' '' \<in> set xs
      then (case toString (JArray xs) of
              Inl e \<Rightarrow> Inl e
            | Inr s \<Rightarrow> Inr (JString (''\"'' @ s @ ''\"'')))
      else Inr (JArray xs))"
| "quote_font _ = Inl TypeError"

fun map_fonts :: "json list \<Rightarrow> error + json list" where
  "map_fonts [] = Inr []"
| "map_fonts (f # fs) =
     (case quote_font f of
        Inl e \<Rightarrow> Inl e
      | Inr q \<Rightarrow> (case map_fonts fs of Inl e \<Rightarrow> Inl e | Inr qs \<Rightarrow> Inr (q # qs)))"

definition join_fonts :: "json list \<Rightarrow> error + json" where
  "join_fonts fonts =
     (case map_fonts fonts of
        Inl e \<Rightarrow> Inl e
      | Inr qs \<Rightarrow>
          (case join_elements qs of
             Inl e \<Rightarrow> Inl e
           | Inr ss \<Rightarrow> Inr (JString (join '', '' ss))))"

text \<open>The \<^verbatim>\<open>forEach\<close> over the entries of a \<^verbatim>\<open>fontFamily\<close> object; \<open>p\<close> is \<^verbatim>\<open>`${pre}${key}`\<close>.\<close>

fun font_entries :: "string \<Rightarrow> obj \<Rightarrow> obj \<Rightarrow> error + obj" where
  "font_entries p [] acc = Inr acc"
| "font_entries p ((fontKey, fonts) # rest) acc =
     (case fonts of
        JArray xs \<Rightarrow>
          (case join_fonts xs of
             Inl e \<Rightarrow> Inl e
           | Inr s \<Rightarrow> font_entries p rest (assign_prop (p @ ''-'' @ fontKey) s acc))
      | _ \<Rightarrow> font_entries p rest (assign_prop (p @ ''-'' @ fontKey) fonts acc))"

definition pre_of :: "string \<Rightarrow> string" where
  "pre_of prefix = (if length prefix \<noteq> 0 then prefix @ ''-'' else [])"

definition is_value_string :: "obj \<Rightarrow> bool" where
  "is_value_string fs = (case map_of fs ''value'' of Some (JString s) \<Rightarrow> True | _ \<Rightarrow> False)"

text \<open>
  \<open>flatten_key prefix key value acc\<close> is the callback of the \<^verbatim>\<open>reduce\<close> in
  \<^verbatim>\<open>flattenObject(obj, prefix)\<close>, applied to one key with \<^verbatim>\<open>value = obj[key]\<close>, and
  \<open>flatten_keys prefix ks acc\<close> is the \<^verbatim>\<open>reduce\<close> over the keys \<open>ks\<close> that are still to
  be visited. An exception leaves the whole call. \<open>value.value\<close> and \<open>value.DEFAULT\<close> are
  read only after the \<^verbatim>\<open>in\<close> test, so they are never \<^verbatim>\<open>undefined\<close>.
\<close>

fun flatten_keys :: "string \<Rightarrow> obj \<Rightarrow> obj \<Rightarrow> error + obj"
  and flatten_key :: "string \<Rightarrow> string \<Rightarrow> json \<Rightarrow> obj \<Rightarrow> error + obj"
where
  "flatten_keys prefix [] acc = Inr acc"
| "flatten_keys prefix ((key, value) # rest) acc =
     (case flatten_key prefix key value acc of
        Inl e \<Rightarrow> Inl e
      | Inr acc' \<Rightarrow> flatten_keys prefix rest acc')"
| "flatten_key prefix key value acc =
     (case value of
        JObject fs \<Rightarrow>
          if startsWith key ''$'' then Inr acc
          else if has_key ''value'' fs \<and> is_value_string fs then
            Inr (assign_prop (pre_of prefix @ key) (the (map_of fs ''value'')) acc)
          else if has_key ''DEFAULT'' fs then
            (case flatten_keys (pre_of prefix @ key) fs [] of
               Inl e \<Rightarrow> Inl e
             | Inr sub \<Rightarrow>
                 Inr (object_assign
                        (assign_prop (pre_of prefix @ key) (the (map_of fs ''DEFAULT'')) acc)
                        sub))
          else if key = ''fontFamily'' then font_entries (pre_of prefix @ key) fs acc
          else
            (case flatten_keys (pre_of prefix @ key) fs [] of
               Inl e \<Rightarrow> Inl e
             | Inr sub \<Rightarrow> Inr (object_assign acc sub))
      | JString s \<Rightarrow> Inr (assign_prop (pre_of prefix @ key) value acc)
      | JNumber n \<Rightarrow> Inr (assign_prop (pre_of prefix @ key) value acc)
      | _ \<Rightarrow> Inr acc)"

definition flattenObject :: "obj \<Rightarrow> string \<Rightarrow> error + obj" where
  "flattenObject ob prefix = flatten_keys prefix ob []"

subsection \<open>The read path: \<^verbatim>\<open>getCSSVariables\<close> of the core module (lines 280 to 308)\<close>

text \<open>The decimal rendering of an array index.\<close>

function nat_str :: "nat \<Rightarrow> string" where
  "nat_str n =
     (if n < 10 then [''0123456789'' ! n]
      else nat_str (n div 10) @ [''0123456789'' ! (n mod 10)])"
  by pat_completeness auto
termination
  by (relation "measure id") auto

text \<open>
  The inner \<^verbatim>\<open>flatten(obj, prefix)\<close> writes into the captured object \<^verbatim>\<open>variables\<close>, which
  is threaded through here. \<^verbatim>\<open>typeof value === 'object'\<close> holds for an array too, whose
  entries are its elements under the keys \<^verbatim>\<open>0\<close>, \<^verbatim>\<open>1\<close>, ...; an array has neither a
  \<^verbatim>\<open>DEFAULT\<close> nor a \<^verbatim>\<open>value\<close> property.
\<close>

fun flatten_rd :: "string \<Rightarrow> obj \<Rightarrow> obj \<Rightarrow> obj"
  and flatten_rd_arr :: "string \<Rightarrow> nat \<Rightarrow> json list \<Rightarrow> obj \<Rightarrow> obj"
  and flatten_rd_entry :: "string \<Rightarrow> string \<Rightarrow> json \<Rightarrow> obj \<Rightarrow> obj"
where
  "flatten_rd prefix [] vars = vars"
| "flatten_rd prefix ((key, value) # rest) vars =
     flatten_rd prefix rest (flatten_rd_entry prefix key value vars)"
| "flatten_rd_arr prefix i [] vars = vars"
| "flatten_rd_arr prefix i (value # rest) vars =
     flatten_rd_arr prefix (Suc i) rest (flatten_rd_entry prefix (nat_str i) value vars)"
| "flatten_rd_entry prefix key value vars =
     (if startsWith key ''$'' then vars
      else
        (case value of
           JObject fs \<Rightarrow>
             flatten_rd (prefix @ ''-'' @ key) fs
               (let vars1 = (if has_key ''DEFAULT'' fs
                             then assign_prop (''--'' @ prefix @ ''-'' @ key)
                                    (the (map_of fs ''DEFAULT'')) vars
                             else vars)
                in if has_key ''value'' fs
                   then assign_prop (''--'' @ prefix @ ''-'' @ key) (the (map_of fs ''value'')) vars1
                   else vars1)
         | JArray xs \<Rightarrow> flatten_rd_arr (prefix @ ''-'' @ key) 0 xs vars
         | JString s \<Rightarrow> assign_prop (''--'' @ prefix @ ''-'' @ key) value vars
         | JNumber n \<Rightarrow> assign_prop (''--'' @ prefix @ ''-'' @ key) value vars
         | _ \<Rightarrow> vars))"

text \<open>
  \<open>tokens\<close> is what \<^verbatim>\<open>getDesignTokens()\<close> returns: the cached document, or \<^verbatim>\<open>null\<close>
  (here \<open>None\<close>) when variables.json does not exist.
\<close>

definition getCSSVariables :: "obj option \<Rightarrow> obj" where
  "getCSSVariables tokens =
     (case tokens of None \<Rightarrow> [] | Some ob \<Rightarrow> flatten_rd ''prsm'' ob [])"

subsection \<open>The base stylesheet: \<^verbatim>\<open>generateBaseCSS\<close> (build.js, lines 79 to 152)\<close>

definition unlines :: "string list \<Rightarrow> string" where
  "unlines ls = concat (map (\<lambda>l. l @ ''\<newline>'') ls)"

record categories =
  colors :: "string list"
  typography :: "string list"
  spacing :: "string list"
  borders :: "string list"
  shadows :: "string list"
  transitions :: "string list"
  other :: "string list"

definition no_categories :: categories where
  "no_categories = \<lparr>colors = [], typography = [], spacing = [], borders = [], shadows = [],
                      transitions = [], other = []\<rparr>"

text \<open>
  The template literal \<^verbatim>\<open>`  --prsm-${key}: ${value};`\<close>; the value is converted to a
  string, which can raise.
\<close>

definition cssVar :: "string \<Rightarrow> json \<Rightarrow> error + string" where
  "cssVar key value =
     (case toString value of
        Inl e \<Rightarrow> Inl e
      | Inr s \<Rightarrow> Inr (''  --prsm-'' @ key @ '': '' @ s @ '';''))"

text \<open>
  The body of the \<^verbatim>\<open>forEach\<close> over \<^verbatim>\<open>Object.entries(flat)\<close>: the line is built first,
  then pushed to the list of the first matching prefix.
\<close>

definition push_category :: "categories \<Rightarrow> string \<times> json \<Rightarrow> error + categories" where
  "push_category c e =
     (case e of (key, value) \<Rightarrow>
        (case cssVar key value of
           Inl err \<Rightarrow> Inl err
         | Inr line \<Rightarrow>
             Inr (if startsWith key ''colors'' \<or> startsWith key ''slide'' \<or> startsWith key ''dark''
                  then c\<lparr>colors := colors c @ [line]\<rparr>
                  else if startsWith key ''typography'' \<or> startsWith key ''font''
                  then c\<lparr>typography := typography c @ [line]\<rparr>
                  else if startsWith key ''spacing''
                  then c\<lparr>spacing := spacing c @ [line]\<rparr>
                  else if startsWith key ''border'' \<or> startsWith key ''shadow''
                  then c\<lparr>borders := borders c @ [line]\<rparr>
                  else if startsWith key ''transition''
                  then c\<lparr>transitions := transitions c @ [line]\<rparr>
                  else c\<lparr>other := other c @ [line]\<rparr>)))"

text \<open>The \<^verbatim>\<open>forEach\<close> itself: an exception in the callback leaves the loop.\<close>

fun for_each_entry :: "obj \<Rightarrow> categories \<Rightarrow> error + categories" where
  "for_each_entry [] c = Inr c"
| "for_each_entry (e # es) c =
     (case push_category c e of Inl err \<Rightarrow> Inl err | Inr c' \<Rightarrow> for_each_entry es c')"

definition categorize :: "obj \<Rightarrow> error + categories" where
  "categorize flat = for_each_entry flat no_categories"

definition base_header :: "string \<Rightarrow> string" where
  "base_header now = unlines
     [''/**'',
      '' * PRSMTECH Design Tokens - Base CSS Variables'',
      '' * Generated from variables.json'',
      '' *'',
      '' * @generated '' @ now,
      '' */'',
      '''',
      '':root {'']"

definition base_sections :: "categories \<Rightarrow> string" where
  "base_sections c =
     ''  /* Colors */\<newline>'' @ join ''\<newline>'' (colors c) @ ''\<newline>\<newline>''
     @ ''  /* Typography */\<newline>'' @ join ''\<newline>'' (typography c) @ ''\<newline>\<newline>''
     @ ''  /* Spacing */\<newline>'' @ join ''\<newline>'' (spacing c) @ ''\<newline>\<newline>''
     @ ''  /* Borders & Shadows */\<newline>'' @ join ''\<newline>'' (borders c) @ ''\<newline>\<newline>''
     @ ''  /* Transitions */\<newline>'' @ join ''\<newline>'' (transitions c) @ ''\<newline>\<newline>''
     @ (if length (other c) > 0
        then ''  /* Other */\<newline>'' @ join ''\<newline>'' (other c) @ ''\<newline>\<newline>''
        else [])"

definition base_dark_mode :: string where
  "base_dark_mode = unlines
     [''}'',
      '''',
      ''/* Dark mode */'',
      ''[data-theme=\"dark\"],'',
      ''.dark,'',
      '':root.dark {'',
      ''  --prsm-slide-background: var(--prsm-dark-background);'',
      ''  --prsm-slide-backgroundAlt: var(--prsm-dark-backgroundAlt);'',
      ''  --prsm-slide-text: var(--prsm-dark-text);'',
      ''  --prsm-slide-textMuted: var(--prsm-dark-textMuted);'',
      ''  --prsm-slide-heading: var(--prsm-dark-heading);'',
      ''  --prsm-slide-link: var(--prsm-dark-link);'',
      ''  --prsm-slide-linkHover: var(--prsm-dark-linkHover);'',
      ''  --prsm-slide-border: var(--prsm-dark-border);'',
      ''  --prsm-slide-codeBg: var(--prsm-dark-codeBg);'',
      ''  --prsm-slide-codeText: var(--prsm-dark-codeText);'',
      ''}'']"

text \<open>
  \<open>now\<close> is what \<^verbatim>\<open>new Date().toISOString()\<close> returns when the generator runs: every
  generator reads the clock and prints it into the header of its output.
\<close>

definition generateBaseCSS :: "string \<Rightarrow> obj \<Rightarrow> error + string" where
  "generateBaseCSS now variables =
     (case flattenObject variables [] of
        Inl e \<Rightarrow> Inl e
      | Inr flat \<Rightarrow>
          (case categorize flat of
             Inl e \<Rightarrow> Inl e
           | Inr c \<Rightarrow> Inr (base_header now @ base_sections c @ base_dark_mode)))"

subsection \<open>Reading the token document in the framework generators\<close>

text \<open>
  \<open>opt_prop v k\<close> is \<^verbatim>\<open>v?.k\<close> for the property names that the generators read: only an
  object can have such a property, and \<^verbatim>\<open>undefined\<close> (here \<open>None\<close>) and \<^verbatim>\<open>null\<close> give
  \<^verbatim>\<open>undefined\<close>. \<open>or_else v d\<close> is \<^verbatim>\<open>v || d\<close>.
\<close>

definition opt_prop :: "json option \<Rightarrow> string \<Rightarrow> json option" where
  "opt_prop v k = (case v of Some (JObject fs) \<Rightarrow> map_of fs k | _ \<Rightarrow> None)"

fun truthy :: "json \<Rightarrow> bool" where
  "truthy JNull = False"
| "truthy (JBool b) = b"
| "truthy (JNumber n) = (n \<noteq> ''0'')"
| "truthy (JString s) = (s \<noteq> [])"
| "truthy (JArray xs) = True"
| "truthy (JObject fs) = True"

definition or_else :: "json option \<Rightarrow> json \<Rightarrow> json" where
  "or_else v d = (case v of None \<Rightarrow> d | Some x \<Rightarrow> if truthy x then x else d)"

text \<open>
  \<^verbatim>\<open>variables.slide?.dimensions?.slidev?.[k] || d\<close>,
  \<^verbatim>\<open>variables.slide?.padding?.[framework] || d\<close> and
  \<^verbatim>\<open>variables.components?.blockquote?.borderWidth || '4px'\<close>. The template literal of a
  generator converts each of these values to a string, in the order of the text, before the
  text is built; a conversion that raises makes the generator raise. The body of each
  stylesheet is given here as a function of the converted values.
\<close>

definition slidev_dimension :: "obj \<Rightarrow> string \<Rightarrow> json \<Rightarrow> json" where
  "slidev_dimension variables k d =
     or_else (opt_prop (opt_prop (opt_prop (map_of variables ''slide'') ''dimensions'') ''slidev'') k) d"

definition slide_padding :: "obj \<Rightarrow> string \<Rightarrow> json \<Rightarrow> json" where
  "slide_padding variables framework d =
     or_else (opt_prop (opt_prop (map_of variables ''slide'') ''padding'') framework) d"

definition blockquote_borderWidth :: "obj \<Rightarrow> json" where
  "blockquote_borderWidth variables =
     or_else (opt_prop (opt_prop (map_of variables ''components'') ''blockquote'') ''borderWidth'')
       (JString ''4px'')"

subsection \<open>\<^verbatim>\<open>generateSlidevCSS\<close> (build.js, lines 157 to 283)\<close>

definition slidev_header :: "string \<Rightarrow> string" where
  "slidev_header now = unlines
     [''/**'',
      '' * PRSMTECH Slidev Theme'',
      '' *'',
      '' * @generated '' @ now,
      '' */'']"

definition slidev_body :: "string \<Rightarrow> string \<Rightarrow> string \<Rightarrow> string \<Rightarrow> string" where
  "slidev_body width height padding borderWidth = unlines
     ['''',
      ''@import './base.css';'',
      '''',
      ''/* Slidev-specific overrides */'',
      ''.slidev-layout {'',
      ''  --slidev-theme-primary: var(--prsm-colors-primary-500);'',
      ''  --slidev-theme-secondary: var(--prsm-colors-secondary-500);'',
      ''  --slidev-theme-accent: var(--prsm-colors-primary-600);'',
      '''',
      ''  --slidev-slide-width: '' @ width @ ''px;'',
      ''  --slidev-slide-height: '' @ height @ ''px;'',
      '''',
      ''  font-family: var(--prsm-typography-fontFamily-sans);'',
      ''  background: var(--prsm-slide-background);'',
      ''  color: var(--prsm-slide-text);'',
      ''  padding: '' @ padding @ '';'',
      ''}'',
      '''',
      ''.slidev-layout h1,'',
      ''.slidev-layout h2,'',
      ''.slidev-layout h3 {'',
      ''  font-family: var(--prsm-typography-fontFamily-heading);'',
      ''  color: var(--prsm-slide-heading);'',
      ''  font-weight: var(--prsm-typography-fontWeight-bold);'',
      ''}'',
      '''',
      ''.slidev-layout h1 {'',
      ''  font-size: var(--prsm-typography-fontSize-5xl);'',
      ''  line-height: var(--prsm-typography-lineHeight-tight);'',
      ''  margin-bottom: var(--prsm-spacing-lg);'',
      ''}'',
      '''',
      ''.slidev-layout h2 {'',
      ''  font-size: var(--prsm-typography-fontSize-3xl);'',
      ''  margin-bottom: var(--prsm-spacing-md);'',
      ''}'',
      '''',
      ''.slidev-layout h3 {'',
      ''  font-size: var(--prsm-typography-fontSize-2xl);'',
      ''  margin-bottom: var(--prsm-spacing-sm);'',
      ''}'',
      '''',
      ''.slidev-layout p {'',
      ''  font-size: var(--prsm-typography-fontSize-lg);'',
      ''  line-height: var(--prsm-typography-lineHeight-relaxed);'',
      ''  color: var(--prsm-slide-text);'',
      ''}'',
      '''',
      ''.slidev-layout a {'',
      ''  color: var(--prsm-slide-link);'',
      ''  text-decoration: none;'',
      ''  transition: color var(--prsm-transitions-duration-fast);'',
      ''}'',
      '''',
      ''.slidev-layout a:hover {'',
      ''  color: var(--prsm-slide-linkHover);'',
      ''  text-decoration: underline;'',
      ''}'',
      '''',
      ''.slidev-layout code:not(.shiki) {'',
      ''  font-family: var(--prsm-typography-fontFamily-mono);'',
      ''  font-size: var(--prsm-components-code-fontSize);'',
      ''  background: var(--prsm-slide-codeBg);'',
      ''  color: var(--prsm-slide-codeText);'',
      ''  padding: var(--prsm-components-code-padding);'',
      ''  border-radius: var(--prsm-components-code-borderRadius);'',
      ''}'',
      '''',
      ''.slidev-layout blockquote {'',
      ''  border-left: '' @ borderWidth @ '' solid var(--prsm-components-blockquote-borderColor);'',
      ''  background: var(--prsm-colors-primary-50);'',
      ''  padding: var(--prsm-components-blockquote-padding);'',
      ''  margin: var(--prsm-spacing-md) 0;'',
      ''  font-style: italic;'',
      ''}'',
      '''',
      ''.slidev-layout ul,'',
      ''.slidev-layout ol {'',
      ''  padding-left: var(--prsm-components-list-indentation);'',
      ''  margin: var(--prsm-spacing-sm) 0;'',
      ''}'',
      '''',
      ''.slidev-layout li {'',
      ''  margin-bottom: var(--prsm-spacing-2);'',
      ''}'',
      '''',
      ''.slidev-layout li::marker {'',
      ''  color: var(--prsm-components-list-bulletColor);'',
      ''}'',
      '''',
      ''/* Cover slide */'',
      ''.slidev-layout.cover {'',
      ''  background: var(--prsm-gradients-primary);'',
      ''  color: var(--prsm-colors-neutral-50);'',
      ''}'',
      '''',
      ''.slidev-layout.cover h1 {'',
      ''  color: var(--prsm-colors-neutral-50);'',
      ''}'',
      '''',
      ''/* Two-column layout */'',
      ''.slidev-layout.two-column {'',
      ''  display: grid;'',
      ''  grid-template-columns: 1fr 1fr;'',
      ''  gap: var(--prsm-spacing-xl);'',
      ''}'',
      '''',
      ''/* PRSMTECH brand footer */'',
      ''.slidev-layout::after {'',
      ''  content: 'PRSMTECH';'',
      ''  position: fixed;'',
      ''  bottom: 20px;'',
      ''  right: 40px;'',
      ''  font-family: var(--prsm-typography-fontFamily-heading);'',
      ''  font-size: var(--prsm-typography-fontSize-sm);'',
      ''  font-weight: var(--prsm-typography-fontWeight-bold);'',
      ''  color: var(--prsm-colors-primary-500);'',
      ''  opacity: 0.6;'',
      ''}'']"

definition generateSlidevCSS :: "string \<Rightarrow> obj \<Rightarrow> error + string" where
  "generateSlidevCSS now variables =
     (case toString (slidev_dimension variables ''width'' (JNumber ''980'')) of
        Inl e \<Rightarrow> Inl e
      | Inr width \<Rightarrow>
     (case toString (slidev_dimension variables ''height'' (JNumber ''552'')) of
        Inl e \<Rightarrow> Inl e
      | Inr height \<Rightarrow>
     (case toString (slide_padding variables ''slidev'' (JString ''40px'')) of
        Inl e \<Rightarrow> Inl e
      | Inr padding \<Rightarrow>
     (case toString (blockquote_borderWidth variables) of
        Inl e \<Rightarrow> Inl e
      | Inr borderWidth \<Rightarrow>
          Inr (slidev_header now @ slidev_body width height padding borderWidth)))))"

subsection \<open>\<^verbatim>\<open>generateRevealCSS\<close> (build.js, lines 288 to 487)\<close>

definition reveal_header :: "string \<Rightarrow> string" where
  "reveal_header now = unlines
     [''/**'',
      '' * PRSMTECH Reveal.js Theme'',
      '' *'',
      '' * @generated '' @ now,
      '' */'']"

definition reveal_body :: "string \<Rightarrow> string \<Rightarrow> string" where
  "reveal_body padding borderWidth = unlines
     ['''',
      ''@import './base.css';'',
      '''',
      ''/* Reveal.js theme registration */'',
      ''section.has-light-background,'',
      ''section.has-light-background h1,'',
      ''section.has-light-background h2,'',
      ''section.has-light-background h3,'',
      ''section.has-light-background h4,'',
      ''section.has-light-background h5,'',
      ''section.has-light-background h6 {'',
      ''  color: var(--prsm-slide-text);'',
      ''}'',
      '''',
      ''.reveal {'',
      ''  font-family: var(--prsm-typography-fontFamily-sans);'',
      ''  font-size: var(--prsm-typography-fontSize-xl);'',
      ''  font-weight: var(--prsm-typography-fontWeight-normal);'',
      ''  color: var(--prsm-slide-text);'',
      ''}'',
      '''',
      ''.reveal .slides {'',
      ''  text-align: left;'',
      ''}'',
      '''',
      ''.reveal .slides section {'',
      ''  padding: '' @ padding @ '';'',
      ''}'',
      '''',
      ''.reveal h1,'',
      ''.reveal h2,'',
      ''.reveal h3,'',
      ''.reveal h4,'',
      ''.reveal h5,'',
      ''.reveal h6 {'',
      ''  margin: 0 0 var(--prsm-spacing-md) 0;'',
      ''  font-family: var(--prsm-typography-fontFamily-heading);'',
      ''  font-weight: var(--prsm-typography-fontWeight-bold);'',
      ''  line-height: var(--prsm-typography-lineHeight-tight);'',
      ''  color: var(--prsm-slide-heading);'',
      ''  text-transform: none;'',
      ''  word-wrap: break-word;'',
      ''}'',
      '''',
      ''.reveal h1 {'',
      ''  font-size: var(--prsm-typography-fontSize-5xl);'',
      ''  text-shadow: none;'',
      ''}'',
      '''',
      ''.reveal h2 {'',
      ''  font-size: var(--prsm-typography-fontSize-4xl);'',
      ''}'',
      '''',
      ''.reveal h3 {'',
      ''  font-size: var(--prsm-typography-fontSize-3xl);'',
      ''}'',
      '''',
      ''.reveal h4 {'',
      ''  font-size: var(--prsm-typography-fontSize-2xl);'',
      ''}'',
      '''',
      ''.reveal p {'',
      ''  margin: var(--prsm-spacing-md) 0;'',
      ''  line-height: var(--prsm-typography-lineHeight-relaxed);'',
      ''}'',
      '''',
      ''.reveal a {'',
      ''  color: var(--prsm-slide-link);'',
      ''  text-decoration: none;'',
      ''  transition: color var(--prsm-transitions-duration-fast) var(--prsm-transitions-timing-ease);'',
      ''}'',
      '''',
      ''.reveal a:hover {'',
      ''  color: var(--prsm-slide-linkHover);'',
      ''  text-shadow: none;'',
      ''  border: none;'',
      ''}'',
      '''',
      ''.reveal pre {'',
      ''  display: block;'',
      ''  position: relative;'',
      ''  width: 100%;'',
      ''  margin: var(--prsm-spacing-md) auto;'',
      ''  text-align: left;'',
      ''  font-size: var(--prsm-components-code-fontSize);'',
      ''  font-family: var(--prsm-typography-fontFamily-mono);'',
      ''  line-height: var(--prsm-components-code-lineHeight);'',
      ''  word-wrap: break-word;'',
      ''  box-shadow: var(--prsm-shadows-md);'',
      ''  background: var(--prsm-slide-codeBg);'',
      ''  border-radius: var(--prsm-borderRadius-md);'',
      ''}'',
      '''',
      ''.reveal code {'',
      ''  font-family: var(--prsm-typography-fontFamily-mono);'',
      ''  text-transform: none;'',
      ''  tab-size: 2;'',
      ''}'',
      '''',
      ''.reveal pre code {'',
      ''  display: block;'',
      ''  padding: var(--prsm-spacing-md);'',
      ''  overflow: auto;'',
      ''  max-height: 400px;'',
      ''  word-wrap: normal;'',
      ''}'',
      '''',
      ''.reveal blockquote {'',
      ''  display: block;'',
      ''  position: relative;'',
      ''  width: 95%;'',
      ''  margin: var(--prsm-spacing-md) auto;'',
      ''  padding: var(--prsm-components-blockquote-padding);'',
      ''  background: var(--prsm-colors-primary-50);'',
      ''  border-left: '' @ borderWidth @ '' solid var(--prsm-colors-primary-500);'',
      ''  font-style: italic;'',
      ''}'',
      '''',
      ''.reveal blockquote p:first-child,'',
      ''.reveal blockquote p:last-child {'',
      ''  display: inline-block;'',
      ''}'',
      '''',
      ''.reveal ul,'',
      ''.reveal ol {'',
      ''  display: inline-block;'',
      ''  text-align: left;'',
      ''  margin: 0 0 0 var(--prsm-components-list-indentation);'',
      ''}'',
      '''',
      ''.reveal ul li,'',
      ''.reveal ol li {'',
      ''  margin-bottom: var(--prsm-spacing-2);'',
      ''}'',
      '''',
      ''.reveal ul li::marker,'',
      ''.reveal ol li::marker {'',
      ''  color: var(--prsm-components-list-bulletColor);'',
      ''}'',
      '''',
      ''.reveal table {'',
      ''  margin: auto;'',
      ''  border-collapse: collapse;'',
      ''  border-spacing: 0;'',
      ''}'',
      '''',
      ''.reveal table th {'',
      ''  font-weight: var(--prsm-typography-fontWeight-bold);'',
      ''  background: var(--prsm-components-table-headerBackground);'',
      ''}'',
      '''',
      ''.reveal table th,'',
      ''.reveal table td {'',
      ''  text-align: left;'',
      ''  padding: var(--prsm-components-table-cellPadding);'',
      ''  border-bottom: 1px solid var(--prsm-components-table-borderColor);'',
      ''}'',
      '''',
      ''/* Title slide */'',
      ''.reveal .slides > section.title-slide {'',
      ''  background: var(--prsm-gradients-primary);'',
      ''  color: var(--prsm-colors-neutral-50);'',
      ''}'',
      '''',
      ''.reveal .slides > section.title-slide h1,'',
      ''.reveal .slides > section.title-slide h2 {'',
      ''  color: var(--prsm-colors-neutral-50);'',
      ''}'',
      '''',
      ''/* Progress bar */'',
      ''.reveal .progress {'',
      ''  background: rgba(0, 0, 0, 0.2);'',
      ''  color: var(--prsm-colors-primary-500);'',
      ''}'',
      '''',
      ''.reveal .progress span {'',
      ''  background: var(--prsm-colors-primary-500);'',
      ''  transition: width var(--prsm-transitions-duration-normal) var(--prsm-transitions-timing-ease);'',
      ''}'',
      '''',
      ''/* Controls */'',
      ''.reveal .controls {'',
      ''  color: var(--prsm-colors-primary-500);'',
      ''}'',
      '''',
      ''/* Slide number */'',
      ''.reveal .slide-number {'',
      ''  font-family: var(--prsm-typography-fontFamily-mono);'',
      ''  font-size: var(--prsm-typography-fontSize-sm);'',
      ''  color: var(--prsm-slide-textMuted);'',
      ''  background-color: transparent;'',
      ''}'']"

definition generateRevealCSS :: "string \<Rightarrow> obj \<Rightarrow> error + string" where
  "generateRevealCSS now variables =
     (case toString (slide_padding variables ''reveal'' (JString ''40px 80px'')) of
        Inl e \<Rightarrow> Inl e
      | Inr padding \<Rightarrow>
     (case toString (blockquote_borderWidth variables) of
        Inl e \<Rightarrow> Inl e
      | Inr borderWidth \<Rightarrow> Inr (reveal_header now @ reveal_body padding borderWidth)))"

subsection \<open>\<^verbatim>\<open>generateWebSlidesCSS\<close> (build.js, lines 492 to 677)\<close>

definition webslides_header :: "string \<Rightarrow> string" where
  "webslides_header now = unlines
     [''/**'',
      '' * PRSMTECH WebSlides Theme'',
      '' *'',
      '' * @generated '' @ now,
      '' */'']"

definition webslides_body :: "string \<Rightarrow> string \<Rightarrow> string" where
  "webslides_body padding borderWidth = unlines
     ['''',
      ''@import './base.css';'',
      '''',
      ''/* WebSlides base overrides */'',
      ''#webslides {'',
      ''  font-family: var(--prsm-typography-fontFamily-sans);'',
      ''  font-size: var(--prsm-typography-fontSize-lg);'',
      ''  color: var(--prsm-slide-text);'',
      ''}'',
      '''',
      ''#webslides section {'',
      ''  background: var(--prsm-slide-background);'',
      ''  padding: '' @ padding @ '';'',
      ''}'',
      '''',
      ''#webslides h1,'',
      ''#webslides h2,'',
      ''#webslides h3,'',
      ''#webslides h4 {'',
      ''  font-family: var(--prsm-typography-fontFamily-heading);'',
      ''  font-weight: var(--prsm-typography-fontWeight-bold);'',
      ''  color: var(--prsm-slide-heading);'',
      ''  margin-bottom: var(--prsm-spacing-md);'',
      ''}'',
      '''',
      ''#webslides h1 {'',
      ''  font-size: var(--prsm-typography-fontSize-6xl);'',
      ''  line-height: var(--prsm-typography-lineHeight-tight);'',
      ''}'',
      '''',
      ''#webslides h2 {'',
      ''  font-size: var(--prsm-typography-fontSize-4xl);'',
      ''}'',
      '''',
      ''#webslides h3 {'',
      ''  font-size: var(--prsm-typography-fontSize-3xl);'',
      ''}'',
      '''',
      ''#webslides p {'',
      ''  line-height: var(--prsm-typography-lineHeight-relaxed);'',
      ''  margin-bottom: var(--prsm-spacing-md);'',
      ''}'',
      '''',
      ''#webslides a {'',
      ''  color: var(--prsm-slide-link);'',
      ''  text-decoration: none;'',
      ''  border-bottom: 2px solid transparent;'',
      ''  transition: all var(--prsm-transitions-duration-fast);'',
      ''}'',
      '''',
      ''#webslides a:hover {'',
      ''  color: var(--prsm-slide-linkHover);'',
      ''  border-bottom-color: var(--prsm-slide-linkHover);'',
      ''}'',
      '''',
      ''#webslides code,'',
      ''#webslides pre {'',
      ''  font-family: var(--prsm-typography-fontFamily-mono);'',
      ''  font-size: var(--prsm-components-code-fontSize);'',
      ''}'',
      '''',
      ''#webslides code {'',
      ''  background: var(--prsm-slide-codeBg);'',
      ''  color: var(--prsm-slide-codeText);'',
      ''  padding: var(--prsm-components-code-padding);'',
      ''  border-radius: var(--prsm-components-code-borderRadius);'',
      ''}'',
      '''',
      ''#webslides pre {'',
      ''  background: var(--prsm-slide-codeBg);'',
      ''  padding: var(--prsm-spacing-md);'',
      ''  border-radius: var(--prsm-borderRadius-md);'',
      ''  overflow-x: auto;'',
      ''  margin: var(--prsm-spacing-md) 0;'',
      ''}'',
      '''',
      ''#webslides pre code {'',
      ''  background: transparent;'',
      ''  padding: 0;'',
      ''}'',
      '''',
      ''#webslides blockquote {'',
      ''  border-left: '' @ borderWidth @ '' solid var(--prsm-colors-primary-500);'',
      ''  background: var(--prsm-colors-primary-50);'',
      ''  padding: var(--prsm-components-blockquote-padding);'',
      ''  margin: var(--prsm-spacing-lg) 0;'',
      ''  font-style: italic;'',
      ''}'',
      '''',
      ''#webslides ul,'',
      ''#webslides ol {'',
      ''  padding-left: var(--prsm-components-list-indentation);'',
      ''  margin: var(--prsm-spacing-md) 0;'',
      ''}'',
      '''',
      ''#webslides li {'',
      ''  margin-bottom: var(--prsm-spacing-2);'',
      ''  line-height: var(--prsm-typography-lineHeight-relaxed);'',
      ''}'',
      '''',
      ''#webslides li::marker {'',
      ''  color: var(--prsm-components-list-bulletColor);'',
      ''}'',
      '''',
      ''/* WebSlides components */'',
      '''',
      ''/* Background variations */'',
      ''.bg-prsm-primary {'',
      ''  background-color: var(--prsm-colors-primary-500);'',
      ''  color: var(--prsm-colors-neutral-50);'',
      ''}'',
      '''',
      ''.bg-prsm-secondary {'',
      ''  background-color: var(--prsm-colors-secondary-500);'',
      ''  color: var(--prsm-colors-neutral-50);'',
      ''}'',
      '''',
      ''.bg-prsm-gradient {'',
      ''  background: var(--prsm-gradients-primary);'',
      ''  color: var(--prsm-colors-neutral-50);'',
      ''}'',
      '''',
      ''.bg-prsm-dark {'',
      ''  background: var(--prsm-dark-background);'',
      ''  color: var(--prsm-dark-text);'',
      ''}'',
      '''',
      ''/* Text colors */'',
      ''.text-prsm-primary {'',
      ''  color: var(--prsm-colors-primary-500);'',
      ''}'',
      '''',
      ''.text-prsm-secondary {'',
      ''  color: var(--prsm-colors-secondary-500);'',
      ''}'',
      '''',
      ''/* Card component */'',
      ''.prsm-card {'',
      ''  background: var(--prsm-slide-background);'',
      ''  border: 1px solid var(--prsm-slide-border);'',
      ''  border-radius: var(--prsm-borderRadius-lg);'',
      ''  padding: var(--prsm-spacing-lg);'',
      ''  box-shadow: var(--prsm-shadows-md);'',
      ''}'',
      '''',
      ''/* Grid layouts */'',
      ''.prsm-grid-2 {'',
      ''  display: grid;'',
      ''  grid-template-columns: repeat(2, 1fr);'',
      ''  gap: var(--prsm-spacing-xl);'',
      ''}'',
      '''',
      ''.prsm-grid-3 {'',
      ''  display: grid;'',
      ''  grid-template-columns: repeat(3, 1fr);'',
      ''  gap: var(--prsm-spacing-lg);'',
      ''}'',
      '''',
      ''/* Navigation */'',
      ''#navigation {'',
      ''  background: var(--prsm-slide-background);'',
      ''  border-top: 1px solid var(--prsm-slide-border);'',
      ''}'',
      '''',
      ''#navigation a {'',
      ''  color: var(--prsm-slide-text);'',
      ''}'',
      '''',
      ''#navigation a:hover {'',
      ''  color: var(--prsm-colors-primary-500);'',
      ''}'',
      '''',
      ''/* Counter */'',
      ''#counter {'',
      ''  font-family: var(--prsm-typography-fontFamily-mono);'',
      ''  font-size: var(--prsm-typography-fontSize-sm);'',
      ''  color: var(--prsm-slide-textMuted);'',
      ''}'']"

definition generateWebSlidesCSS :: "string \<Rightarrow> obj \<Rightarrow> error + string" where
  "generateWebSlidesCSS now variables =
     (case toString (slide_padding variables ''webslides'' (JString ''80px'')) of
        Inl e \<Rightarrow> Inl e
      | Inr padding \<Rightarrow>
     (case toString (blockquote_borderWidth variables) of
        Inl e \<Rightarrow> Inl e
      | Inr borderWidth \<Rightarrow> Inr (webslides_header now @ webslides_body padding borderWidth)))"

subsection \<open>\<^verbatim>\<open>generateTailwindConfig\<close> (build.js, lines 682 to 732)\<close>

text \<open>
  \<open>get_prop v k\<close> is the plain read \<^verbatim>\<open>v.k\<close> for the property names that this generator
  reads: it raises a \<^verbatim>\<open>TypeError\<close> when \<open>v\<close> is \<^verbatim>\<open>undefined\<close> or \<^verbatim>\<open>null\<close>, and gives
  \<^verbatim>\<open>undefined\<close> when \<open>v\<close> is no object or has no such property.
\<close>

definition get_prop :: "json option \<Rightarrow> string \<Rightarrow> error + json option" where
  "get_prop v k =
     (case v of
        None \<Rightarrow> Inl TypeError
      | Some JNull \<Rightarrow> Inl TypeError
      | Some (JObject fs) \<Rightarrow> Inr (map_of fs k)
      | Some _ \<Rightarrow> Inr None)"

text \<open>
  The own enumerable properties of a value, as the spread and \<^verbatim>\<open>Object.entries\<close>
  enumerate them: the elements of an array and the characters of a string under their
  indices, nothing for a number or a boolean.
\<close>

fun own_entries :: "json \<Rightarrow> obj" where
  "own_entries (JObject fs) = fs"
| "own_entries (JArray xs) = zip (map nat_str [0..<length xs]) xs"
| "own_entries (JString s) = zip (map nat_str [0..<length s]) (map (\<lambda>c. JString [c]) s)"
| "own_entries _ = []"

text \<open>\<^verbatim>\<open>...v\<close> in an object literal: nothing for \<^verbatim>\<open>undefined\<close> and \<^verbatim>\<open>null\<close>.\<close>

definition spread :: "json option \<Rightarrow> obj" where
  "spread v = (case v of None \<Rightarrow> [] | Some x \<Rightarrow> own_entries x)"

text \<open>
  \<^verbatim>\<open>Object.entries(v)\<close> raises a \<^verbatim>\<open>TypeError\<close> on \<^verbatim>\<open>undefined\<close> and \<^verbatim>\<open>null\<close>.
\<close>

definition object_entries :: "json option \<Rightarrow> error + obj" where
  "object_entries v =
     (case v of None \<Rightarrow> Inl TypeError | Some JNull \<Rightarrow> Inl TypeError | Some x \<Rightarrow> Inr (own_entries x))"

text \<open>
  The callback \<^verbatim>\<open>([key, val]) => [key, typeof val === 'object' ? val.value : val]\<close>:
  \<^verbatim>\<open>typeof null\<close> is \<^verbatim>\<open>'object'\<close>, so a \<^verbatim>\<open>null\<close> size raises a \<^verbatim>\<open>TypeError\<close>.
\<close>

fun font_size_entry :: "string \<times> json \<Rightarrow> error + string \<times> json option" where
  "font_size_entry (key, JNull) = Inl TypeError"
| "font_size_entry (key, JObject fs) = Inr (key, map_of fs ''value'')"
| "font_size_entry (key, JArray xs) = Inr (key, None)"
| "font_size_entry (key, val) = Inr (key, Some val)"

fun map_font_sizes :: "obj \<Rightarrow> error + (string \<times> json option) list" where
  "map_font_sizes [] = Inr []"
| "map_font_sizes (e # es) =
     (case font_size_entry e of
        Inl err \<Rightarrow> Inl err
      | Inr x \<Rightarrow> (case map_font_sizes es of Inl err \<Rightarrow> Inl err | Inr xs \<Rightarrow> Inr (x # xs)))"

text \<open>\<^verbatim>\<open>Object.fromEntries\<close> defines the properties in the order of the entries.\<close>

definition from_entries :: "(string \<times> 'a) list \<Rightarrow> (string \<times> 'a) list" where
  "from_entries es = foldl (\<lambda>ob (k, v). define_prop k v ob) [] es"

text \<open>
  A property whose value is \<^verbatim>\<open>undefined\<close> is left out by \<^verbatim>\<open>JSON.stringify\<close>; \<open>defined\<close>
  keeps the others.
\<close>

definition defined :: "(string \<times> json option) list \<Rightarrow> obj" where
  "defined ps = concat (map (\<lambda>(k, v). case v of None \<Rightarrow> [] | Some x \<Rightarrow> [(k, x)]) ps)"

text \<open>
  The object \<^verbatim>\<open>config\<close>, as \<^verbatim>\<open>JSON.stringify\<close> sees it, property by property in the
  order of the object literal: \<^verbatim>\<open>colors.prsm\<close>, \<^verbatim>\<open>fontFamily\<close>, \<^verbatim>\<open>fontSize\<close>.
\<close>

definition config_prsm :: "obj \<Rightarrow> error + obj" where
  "config_prsm variables =
     (case get_prop (map_of variables ''colors'') ''primary'' of
        Inl e \<Rightarrow> Inl e
      | Inr primary \<Rightarrow>
     (case get_prop (map_of variables ''colors'') ''secondary'' of
        Inl e \<Rightarrow> Inl e
      | Inr secondary \<Rightarrow>
     (case get_prop (map_of variables ''colors'') ''neutral'' of
        Inl e \<Rightarrow> Inl e
      | Inr neutral \<Rightarrow>
     (case get_prop (map_of variables ''colors'') ''semantic'' of
        Inl e \<Rightarrow> Inl e
      | Inr semantic \<Rightarrow>
          Inr (defined
                 (foldl (\<lambda>ob (k, v). define_prop k (Some v) ob)
                    [(''primary'', primary), (''secondary'', secondary), (''neutral'', neutral)]
                    (spread semantic)))))))"

definition config_fontFamily :: "obj \<Rightarrow> error + obj" where
  "config_fontFamily variables =
     (case get_prop (map_of variables ''typography'') ''fontFamily'' of
        Inl e \<Rightarrow> Inl e
      | Inr fontFamily \<Rightarrow>
     (case get_prop fontFamily ''sans'' of
        Inl e \<Rightarrow> Inl e
      | Inr sans' \<Rightarrow>
     (case get_prop fontFamily ''heading'' of
        Inl e \<Rightarrow> Inl e
      | Inr heading' \<Rightarrow>
     (case get_prop fontFamily ''mono'' of
        Inl e \<Rightarrow> Inl e
      | Inr mono' \<Rightarrow>
     (case get_prop fontFamily ''display'' of
        Inl e \<Rightarrow> Inl e
      | Inr display' \<Rightarrow>
          Inr (defined
                 [(''sans'', sans'), (''heading'', heading'), (''mono'', mono'),
                  (''display'', display')]))))))"

definition config_fontSize :: "obj \<Rightarrow> error + obj" where
  "config_fontSize variables =
     (case get_prop (map_of variables ''typography'') ''fontSize'' of
        Inl e \<Rightarrow> Inl e
      | Inr fontSize \<Rightarrow>
     (case object_entries fontSize of
        Inl e \<Rightarrow> Inl e
      | Inr sizes \<Rightarrow>
     (case map_font_sizes sizes of
        Inl e \<Rightarrow> Inl e
      | Inr mapped \<Rightarrow> Inr (defined (from_entries mapped)))))"

definition tailwind_config :: "obj \<Rightarrow> error + json" where
  "tailwind_config variables =
     (case config_prsm variables of
        Inl e \<Rightarrow> Inl e
      | Inr prsm \<Rightarrow>
     (case config_fontFamily variables of
        Inl e \<Rightarrow> Inl e
      | Inr fontFamily \<Rightarrow>
     (case config_fontSize variables of
        Inl e \<Rightarrow> Inl e
      | Inr fontSize \<Rightarrow>
          Inr (JObject [(''theme'', JObject [(''extend'', JObject (defined
                 [(''colors'', Some (JObject [(''prsm'', JObject prsm)])),
                  (''fontFamily'', Some (JObject fontFamily)),
                  (''fontSize'', Some (JObject fontSize)),
                  (''borderRadius'', map_of variables ''borderRadius''),
                  (''boxShadow'', map_of variables ''shadows'')]))])]))))"

text \<open>
  \<^verbatim>\<open>JSON.stringify(config, null, 2)\<close>. A string is quoted with the escapes of JSON; a
  character is a byte here, so no lone surrogate occurs. A number that is not finite (a
  literal beyond the range of a double, which \<^verbatim>\<open>JSON.parse\<close> reads as an infinity) prints
  as \<^verbatim>\<open>null\<close>.
\<close>

definition json_escape :: "char \<Rightarrow> string" where
  "json_escape c =
     (if c = CHR 0x22 then [CHR 0x5C, CHR 0x22]
      else if c = CHR 0x5C then [CHR 0x5C, CHR 0x5C]
      else if c = CHR 0x08 then [CHR 0x5C, CHR ''b'']
      else if c = CHR 0x09 then [CHR 0x5C, CHR ''t'']
      else if c = CHR 0x0A then [CHR 0x5C, CHR ''n'']
      else if c = CHR 0x0C then [CHR 0x5C, CHR ''f'']
      else if c = CHR 0x0D then [CHR 0x5C, CHR ''r'']
      else if (of_char c :: nat) < 32
      then [CHR 0x5C, CHR ''u'', CHR ''0'', CHR ''0'',
            ''0123456789abcdef'' ! ((of_char c :: nat) div 16),
            ''0123456789abcdef'' ! ((of_char c :: nat) mod 16)]
      else [c])"

definition json_quote :: "string \<Rightarrow> string" where
  "json_quote s = [CHR 0x22] @ concat (map json_escape s) @ [CHR 0x22]"

fun stringify :: "string \<Rightarrow> json \<Rightarrow> string" where
  "stringify ind JNull = ''null''"
| "stringify ind (JBool b) = (if b then ''true'' else ''false'')"
| "stringify ind (JNumber n) = (if n = ''Infinity'' \<or> n = ''-Infinity'' then ''null'' else n)"
| "stringify ind (JString s) = json_quote s"
| "stringify ind (JArray xs) =
     (if xs = [] then ''[]''
      else ''[\<newline>''
           @ join '',\<newline>'' (map (\<lambda>x. ind @ ''  '' @ stringify (ind @ ''  '') x) xs)
           @ ''\<newline>'' @ ind @ '']'')"
| "stringify ind (JObject fs) =
     (if fs = [] then ''{}''
      else ''{\<newline>''
           @ join '',\<newline>''
               (map (\<lambda>(k, v). ind @ ''  '' @ json_quote k @ '': '' @ stringify (ind @ ''  '') v) fs)
           @ ''\<newline>'' @ ind @ ''}'')"

definition tailwind_header :: "string \<Rightarrow> string" where
  "tailwind_header now = unlines
     [''/**'',
      '' * PRSMTECH Tailwind CSS Configuration'',
      '' *'',
      '' * Import this in your tailwind.config.js:'',
      '' *'',
      '' * const prsmTheme = require('./themes/prsmtech/dist/tailwind.config.js');'',
      '' *'',
      '' * module.exports = {'',
      '' *   theme: {'',
      '' *     extend: {'',
      '' *       ...prsmTheme.theme.extend'',
      '' *     }'',
      '' *   }'',
      '' * }'',
      '' *'',
      '' * @generated '' @ now,
      '' */'']"

definition generateTailwindConfig :: "string \<Rightarrow> obj \<Rightarrow> error + string" where
  "generateTailwindConfig now variables =
     (case tailwind_config variables of
        Inl e \<Rightarrow> Inl e
      | Inr config \<Rightarrow>
          Inr (tailwind_header now
               @ unlines ['''', ''module.exports = '' @ stringify [] config @ '';'']))"

subsection \<open>The Orchestrator: \<^verbatim>\<open>build\<close> (build.js, lines 737 to 791)\<close>

text \<open>
  What \<^verbatim>\<open>build\<close> takes from its environment: the outcome of creating the output directory
  when it is missing, the outcome of \<^verbatim>\<open>loadVariables()\<close>, the clock as each generator reads
  it, the output directory, and whether \<^verbatim>\<open>writeFileSync\<close> succeeds on a path.
\<close>

record env =
  mkdir_error :: "error option"
  loaded :: "error + obj"
  clock :: "string \<Rightarrow> string"
  outputDir :: string
  writable :: "string \<Rightarrow> bool"

record artifact =
  framework :: string
  success :: bool
  path :: "string option"
  failure :: "error option"

definition generators :: "(string \<times> (string \<Rightarrow> obj \<Rightarrow> error + string)) list" where
  "generators =
     [(''base'', generateBaseCSS),
      (''slidev'', generateSlidevCSS),
      (''reveal'', generateRevealCSS),
      (''webslides'', generateWebSlidesCSS),
      (''tailwind'', generateTailwindConfig)]"

definition outputPath :: "env \<Rightarrow> string \<Rightarrow> string" where
  "outputPath e fw =
     outputDir e @ ''/'' @ fw @ (if fw = ''tailwind'' then ''.config.js'' else ''.css'')"

text \<open>
  The body of the \<^verbatim>\<open>forEach\<close> over the generators: the \<^verbatim>\<open>try\<close> holds the call of the
  generator and the write, and the \<^verbatim>\<open>catch\<close> records the failure. The state is the files
  written so far and the list \<^verbatim>\<open>results\<close>.
\<close>

definition run_generator ::
  "env \<Rightarrow> obj \<Rightarrow> (string \<rightharpoonup> string) \<times> artifact list
     \<Rightarrow> string \<times> (string \<Rightarrow> obj \<Rightarrow> error + string) \<Rightarrow> (string \<rightharpoonup> string) \<times> artifact list" where
  "run_generator e variables st g =
     (case st of (files, results) \<Rightarrow>
      case g of (fw, generator) \<Rightarrow>
        (case generator (clock e fw) variables of
           Inl err \<Rightarrow>
             (files, results @ [\<lparr>framework = fw, success = False, path = None,
                                  failure = Some err\<rparr>])
         | Inr content \<Rightarrow>
             if writable e (outputPath e fw)
             then (files(outputPath e fw \<mapsto> content),
                   results @ [\<lparr>framework = fw, success = True, path = Some (outputPath e fw),
                               failure = None\<rparr>])
             else (files, results @ [\<lparr>framework = fw, success = False, path = None,
                                       failure = Some SystemError\<rparr>])))"

definition build_results :: "env \<Rightarrow> obj \<Rightarrow> (string \<rightharpoonup> string) \<Rightarrow> (string \<rightharpoonup> string) \<times> artifact list" where
  "build_results e variables files = foldl (run_generator e variables) (files, []) generators"

text \<open>
  \<^verbatim>\<open>build()\<close> returns \<^verbatim>\<open>results.every(r => r.success)\<close>; a failure to create the output
  directory or to load variables.json is not caught.
\<close>

definition build :: "env \<Rightarrow> (string \<rightharpoonup> string) \<Rightarrow> error + bool" where
  "build e files =
     (case mkdir_error e of
        Some err \<Rightarrow> Inl err
      | None \<Rightarrow>
          (case loaded e of
             Inl err \<Rightarrow> Inl err
           | Inr variables \<Rightarrow> Inr (list_all success (snd (build_results e variables files)))))"

subsection \<open>Notions used to state the properties\<close>

text \<open>A scalar token value: a string or a number.\<close>

definition is_scalar :: "json \<Rightarrow> bool" where
  "is_scalar v = (case v of JString s \<Rightarrow> True | JNumber n \<Rightarrow> True | _ \<Rightarrow> False)"

text \<open>The path \<open>q\<close> is \<open>p\<close> or extends it by a dash and more.\<close>

definition under :: "string \<Rightarrow> string \<Rightarrow> bool" where
  "under p q = (q = p \<or> (\<exists>s. q = p @ ''-'' @ s))"

text \<open>
  A value without an \<^verbatim>\<open>includes\<close> method: anything but a string or an array.
\<close>

definition lacks_includes :: "json \<Rightarrow> bool" where
  "lacks_includes x = (case x of JString s \<Rightarrow> False | JArray xs \<Rightarrow> False | _ \<Rightarrow> True)"

text \<open>
  The later keys \<open>ys\<close> of an object are apart from the key \<open>key\<close> when none of them is
  empty, extends \<open>key\<close> by a dash and more, or is extended so by \<open>key\<close>: their visits then
  write no path at or below the path of \<open>key\<close>.
\<close>

definition apart :: "string \<Rightarrow> obj \<Rightarrow> bool" where
  "apart key ys = (\<forall>k' \<in> fst ` set ys. k' \<noteq> [] \<and> \<not> under k' key \<and> \<not> under key k')"

text \<open>
  The path that the Flattener gives to the keys \<open>ks\<close>, followed from an object that it
  flattens under \<open>prefix\<close>: the keys joined by dashes, where an empty prefix takes no dash.
\<close>

definition path_from :: "string \<Rightarrow> string list \<Rightarrow> string" where
  "path_from prefix ks = foldl (\<lambda>p k. pre_of p @ k) prefix ks"

text \<open>
  The Flattener descends into the object \<open>fs\<close> that the key \<open>k\<close> holds: \<open>k\<close> is no metadata
  key, \<open>fs\<close> has no \<^verbatim>\<open>value\<close> key holding a string, and \<open>fs\<close> is not read as a group of font
  lists (a \<^verbatim>\<open>fontFamily\<close> object without a \<^verbatim>\<open>DEFAULT\<close> key).
\<close>

definition descended :: "string \<Rightarrow> obj \<Rightarrow> bool" where
  "descended k fs =
     (\<not> startsWith k ''$'' \<and> \<not> is_value_string fs \<and> (has_key ''DEFAULT'' fs \<or> k \<noteq> ''fontFamily''))"

text \<open>
  \<open>reached ob ks\<close> is the value that the keys \<open>ks\<close> lead to in the object \<open>ob\<close>, when the
  Flattener descends into every object on the way and, on every level, the later keys of the
  object are apart from the key that is followed; otherwise it is \<open>None\<close>.
\<close>

fun reached :: "obj \<Rightarrow> string list \<Rightarrow> json option" where
  "reached ob [] = None"
| "reached [] (k # ks) = None"
| "reached ((k', v) # rest) (k # ks) =
     (if k' \<noteq> k then reached rest (k # ks)
      else if \<not> apart k rest then None
      else if ks = [] then Some v
      else (case v of
              JObject fs \<Rightarrow> if descended k fs then reached fs ks else None
            | _ \<Rightarrow> None))"

text \<open>
  A value prints as a string unless it is an object with an own \<^verbatim>\<open>toString\<close> key or an
  array that holds, at any depth of nested arrays, such an object.
\<close>

fun printable :: "json \<Rightarrow> bool" where
  "printable (JObject fs) = (\<not> has_key ''toString'' fs)"
| "printable (JArray xs) = list_all printable xs"
| "printable v = True"

text \<open>
  An element of a font list that the Flattener cannot join: a value without an
  \<^verbatim>\<open>includes\<close> method, or an array that does not print. A group of font lists is bad when
  one of its entries is an array with such an element.
\<close>

definition bad_font :: "json \<Rightarrow> bool" where
  "bad_font f = (lacks_includes f \<or> \<not> printable f)"

definition bad_fonts :: "obj \<Rightarrow> bool" where
  "bad_fonts fs =
     list_ex (\<lambda>(k, v). case v of JArray xs \<Rightarrow> list_ex bad_font xs | _ \<Rightarrow> False) fs"

text \<open>
  \<open>holds_bad_fonts ob\<close>: somewhere in \<open>ob\<close>, below keys and objects that the Flattener descends
  into, a \<^verbatim>\<open>fontFamily\<close> key holds a bad group of font lists.
\<close>

fun holds_bad_fonts :: "obj \<Rightarrow> bool"
  and bad_fonts_under :: "string \<Rightarrow> json \<Rightarrow> bool"
where
  "holds_bad_fonts [] = False"
| "holds_bad_fonts ((k, v) # rest) = (bad_fonts_under k v \<or> holds_bad_fonts rest)"
| "bad_fonts_under k (JObject fs) =
     (if startsWith k ''$'' \<or> is_value_string fs then False
      else if has_key ''DEFAULT'' fs \<or> k \<noteq> ''fontFamily'' then holds_bad_fonts fs
      else bad_fonts fs)"
| "bad_fonts_under k v = False"

text \<open>
  The font list as the specification words it: the names joined by a comma and a space, where
  exactly the names that contain a space are wrapped in double quotes.
\<close>

definition quoted :: "string \<Rightarrow> string" where
  "quoted n = (if CHR '' '' \<in> set n then ''\"'' @ n @ ''\"'' else n)"

definition font_list :: "string list \<Rightarrow> string" where
  "font_list names = join '', '' (map quoted names)"

text \<open>A \<^verbatim>\<open>fontFamily\<close> object whose entries are sequences of font names.\<close>

definition font_group :: "(string \<times> string list) list \<Rightarrow> obj" where
  "font_group g = map (\<lambda>(k, names). (k, JArray (map JString names))) g"

text \<open>
  The six buckets of the specification and its classification order (first match wins). The
  code declares a seventh list, \<^verbatim>\<open>shadows\<close>, which it neither fills nor prints.
\<close>

datatype bucket = Colors | Typography | Spacing | BordersShadows | Transitions | Other

definition bucket_of :: "string \<Rightarrow> bucket" where
  "bucket_of key =
     (if startsWith key ''colors'' \<or> startsWith key ''slide'' \<or> startsWith key ''dark'' then Colors
      else if startsWith key ''typography'' \<or> startsWith key ''font'' then Typography
      else if startsWith key ''spacing'' then Spacing
      else if startsWith key ''border'' \<or> startsWith key ''shadow'' then BordersShadows
      else if startsWith key ''transition'' then Transitions
      else Other)"

definition bucket_lines :: "categories \<Rightarrow> bucket \<Rightarrow> string list" where
  "bucket_lines c b =
     (case b of Colors \<Rightarrow> colors c | Typography \<Rightarrow> typography c | Spacing \<Rightarrow> spacing c
      | BordersShadows \<Rightarrow> borders c | Transitions \<Rightarrow> transitions c | Other \<Rightarrow> other c)"

text \<open>
  A generator is stamped when its output is a fixed header prefix, the time of the run, and a
  remainder that depends on the token document only, and when whether it fails does not
  depend on the time.
\<close>

definition stamped :: "(string \<Rightarrow> obj \<Rightarrow> error + string) \<Rightarrow> bool" where
  "stamped G =
     (\<exists>pre. \<forall>variables.
        (\<exists>err. \<forall>now. G now variables = Inl err)
        \<or> (\<exists>rest. \<forall>now. G now variables = Inr (pre @ now @ rest)))"

section \<open>Properties\<close>

subsection \<open>Property assignment\<close>

declare flatten_key.simps [simp del]

lemma map_of_insert_index_at:
  "map_of ob k = None \<Longrightarrow> map_of (insert_index k v ob) x = (if x = k then Some v else map_of ob x)"
  by (induction ob) (auto split: if_splits)

lemma map_of_insert_index:
  "map_of ob k = None \<Longrightarrow> map_of (insert_index k v ob) = (map_of ob)(k \<mapsto> v)"
  by (rule ext) (simp add: map_of_insert_index_at)

lemma map_of_define_prop: "map_of (define_prop k v ob) = (map_of ob)(k \<mapsto> v)"
  by (auto simp: define_prop_def has_key_def update_conv' map_of_insert_index fun_eq_iff map_add_def
      split: option.splits)

lemma map_of_assign_prop:
  "map_of (assign_prop k v ob) = (if k = ''__proto__'' then map_of ob else (map_of ob)(k \<mapsto> v))"
  by (simp add: assign_prop_def map_of_define_prop)

lemma set_insert_index: "set (insert_index k v ob) = insert (k, v) (set ob)"
proof (induction ob)
  case Nil
  show ?case by simp
next
  case (Cons a ob)
  obtain k' v' where a: "a = (k', v')" by (cases a)
  show ?case
    unfolding a
    by (cases "is_array_index k' \<and> index_val k' < index_val k")
       (simp_all add: Cons.IH insert_commute)
qed

lemma keys_insert_index: "fst ` set (insert_index k v ob) = insert k (fst ` set ob)"
  by (simp add: set_insert_index)

lemma keys_define_prop: "fst ` set (define_prop k v ob) = insert k (fst ` set ob)"
proof (cases "has_key k ob")
  case True
  then show ?thesis by (simp add: define_prop_def AList.dom_update)
next
  case False
  then show ?thesis by (simp add: define_prop_def keys_insert_index)
qed

lemma distinct_insert_index:
  "distinct (map fst ob) \<Longrightarrow> k \<notin> fst ` set ob \<Longrightarrow> distinct (map fst (insert_index k v ob))"
  by (induction ob) (auto simp: keys_insert_index)

lemma distinct_define_prop:
  "distinct (map fst ob) \<Longrightarrow> distinct (map fst (define_prop k v ob))"
  by (auto simp: define_prop_def has_key_def distinct_update distinct_insert_index map_of_eq_None_iff)

lemma distinct_assign_prop:
  "distinct (map fst ob) \<Longrightarrow> distinct (map fst (assign_prop k v ob))"
  by (simp add: assign_prop_def distinct_define_prop)

lemma keys_assign_prop: "fst ` set (assign_prop k v ob) \<subseteq> insert k (fst ` set ob)"
  by (auto simp: assign_prop_def keys_define_prop)

lemma map_of_foldl_assign:
  "map_of (foldl (\<lambda>t (k, v). assign_prop k v t) t s) q =
     (if q \<in> fst ` set s \<and> q \<noteq> ''__proto__'' then map_of (rev s) q else map_of t q)"
proof (induction s arbitrary: t)
  case Nil then show ?case by simp
next
  case (Cons a s)
  obtain k v where a: "a = (k, v)" by (cases a)
  have step: "map_of (foldl (\<lambda>t (k, v). assign_prop k v t) t (a # s)) q =
      (if q \<in> fst ` set s \<and> q \<noteq> ''__proto__'' then map_of (rev s) q
       else map_of (assign_prop k v t) q)"
    unfolding a by (simp add: Cons.IH)
  show ?case
  proof (cases "q \<in> fst ` set s")
    case True
    then obtain y where y: "map_of (rev s) q = Some y"
      using map_of_eq_None_iff[of "rev s" q] by auto
    show ?thesis
      unfolding step using True y
      by (simp add: a map_of_assign_prop map_add_def)
  next
    case False
    then have n: "map_of (rev s) q = None"
      by (simp add: map_of_eq_None_iff)
    show ?thesis
      unfolding step using False n
      by (auto simp: a map_of_assign_prop map_add_def)
  qed
qed

lemma map_of_object_assign:
  "map_of (object_assign t s) q =
     (if q \<in> fst ` set s \<and> q \<noteq> ''__proto__'' then map_of (rev s) q else map_of t q)"
  unfolding object_assign_def by (rule map_of_foldl_assign)

lemma keys_object_assign: "fst ` set (object_assign t s) \<subseteq> fst ` set t \<union> fst ` set s"
  unfolding object_assign_def
proof (induction s arbitrary: t)
  case Nil then show ?case by simp
next
  case (Cons a s)
  obtain k v where a: "a = (k, v)" by (cases a)
  show ?case using Cons.IH[of "assign_prop k v t"] keys_assign_prop[of k v t] unfolding a
    by auto
qed

lemma distinct_object_assign:
  "distinct (map fst t) \<Longrightarrow> distinct (map fst (object_assign t s))"
  unfolding object_assign_def
  by (induction s arbitrary: t) (auto simp: distinct_assign_prop)



lemma flatten_keys_append:
  "flatten_keys prefix (xs @ ys) acc =
     (case flatten_keys prefix xs acc of Inl e \<Rightarrow> Inl e | Inr acc' \<Rightarrow> flatten_keys prefix ys acc')"
  by (induction xs arbitrary: acc) (auto split: sum.splits)

lemma map_of_rev_distinct: "distinct (map fst xs) \<Longrightarrow> map_of (rev xs) = map_of xs"
  by (subst map_of_inject_set) (simp_all add: rev_map[symmetric])

subsection \<open>The keys the Flattener writes\<close>

lemma under_trans: "under (p @ ''-'' @ k) q \<Longrightarrow> under p q"
  by (auto simp: under_def)

lemma under_refl: "under p p"
  by (simp add: under_def)

lemma pre_of_nonempty: "prefix \<noteq> [] \<Longrightarrow> pre_of prefix = prefix @ ''-''"
  by (simp add: pre_of_def)

lemma font_entries_shape:
  "font_entries p fs acc = Inr r \<Longrightarrow> q \<in> fst ` set r \<Longrightarrow> q \<in> fst ` set acc \<or> under p q"
proof (induction fs arbitrary: acc)
  case Nil
  then show ?case by simp
next
  case (Cons a fs)
  obtain fk fonts where a: "a = (fk, fonts)" by (cases a)
  from Cons.prems(1) obtain v where
    step: "font_entries p fs (assign_prop (p @ ''-'' @ fk) v acc) = Inr r"
    unfolding a by (cases fonts) (auto split: sum.splits)
  from Cons.IH[OF step Cons.prems(2)]
  show ?case using keys_assign_prop[of "p @ ''-'' @ fk" v acc]
    by (auto simp: under_def)
qed

lemma font_entries_preserve:
  "font_entries p fs acc = Inr r \<Longrightarrow> \<not> under p q \<Longrightarrow> map_of r q = map_of acc q"
proof (induction fs arbitrary: acc)
  case Nil
  then show ?case by simp
next
  case (Cons a fs)
  obtain fk fonts where a: "a = (fk, fonts)" by (cases a)
  from Cons.prems(1) obtain v where
    step: "font_entries p fs (assign_prop (p @ ''-'' @ fk) v acc) = Inr r"
    unfolding a by (cases fonts) (auto split: sum.splits)
  from Cons.prems(2) have "q \<noteq> p @ ''-'' @ fk" by (auto simp: under_def)
  with Cons.IH[OF step Cons.prems(2)]
  show ?case by (simp add: map_of_assign_prop)
qed

lemma font_entries_distinct:
  "font_entries p fs acc = Inr r \<Longrightarrow> distinct (map fst acc) \<Longrightarrow> distinct (map fst r)"
proof (induction fs arbitrary: acc)
  case Nil
  then show ?case by simp
next
  case (Cons a fs)
  obtain fk fonts where a: "a = (fk, fonts)" by (cases a)
  from Cons.prems(1) obtain v where
    step: "font_entries p fs (assign_prop (p @ ''-'' @ fk) v acc) = Inr r"
    unfolding a by (cases fonts) (auto split: sum.splits)
  show ?case by (rule Cons.IH[OF step]) (simp add: distinct_assign_prop Cons.prems(2))
qed

text \<open>What one visit of a key does, branch by branch.\<close>

lemma flatten_key_cases:
  assumes "flatten_key prefix key value acc = Inr r"
  obtains
    (skip) "r = acc"
  | (assign) v where "r = assign_prop (pre_of prefix @ key) v acc"
  | (default) fs sub v where "value = JObject fs" "\<not> startsWith key ''$''"
      "\<not> (has_key ''value'' fs \<and> is_value_string fs)" "has_key ''DEFAULT'' fs"
      "flatten_keys (pre_of prefix @ key) fs [] = Inr sub"
      "r = object_assign (assign_prop (pre_of prefix @ key) v acc) sub"
  | (fonts) fs where "value = JObject fs" "font_entries (pre_of prefix @ key) fs acc = Inr r"
  | (nested) fs sub where "value = JObject fs" "\<not> startsWith key ''$''"
      "\<not> (has_key ''value'' fs \<and> is_value_string fs)" "\<not> has_key ''DEFAULT'' fs"
      "key \<noteq> ''fontFamily''"
      "flatten_keys (pre_of prefix @ key) fs [] = Inr sub" "r = object_assign acc sub"
proof (cases "value")
  case (JObject fs)
  show ?thesis
  proof (cases "startsWith key ''$''")
    case True
    with assms JObject have "r = acc" by (simp add: flatten_key.simps)
    then show ?thesis by (rule skip)
  next
    case nd: False
    show ?thesis
    proof (cases "has_key ''value'' fs \<and> is_value_string fs")
      case True
      with assms JObject nd
      have "r = assign_prop (pre_of prefix @ key) (the (map_of fs ''value'')) acc"
        by (simp add: flatten_key.simps)
      then show ?thesis by (rule assign)
    next
      case nv: False
      show ?thesis
      proof (cases "has_key ''DEFAULT'' fs")
        case df: True
        with assms JObject nd nv obtain sub where
          "flatten_keys (pre_of prefix @ key) fs [] = Inr sub"
          "r = object_assign
                 (assign_prop (pre_of prefix @ key) (the (map_of fs ''DEFAULT'')) acc) sub"
          by (auto simp: flatten_key.simps split: sum.splits)
        with JObject nd nv df show ?thesis by (rule default)
      next
        case ndf: False
        show ?thesis
        proof (cases "key = ''fontFamily''")
          case True
          with assms JObject nd nv ndf
          have "font_entries (pre_of prefix @ key) fs acc = Inr r"
            by (auto simp: flatten_key.simps)
          with JObject show ?thesis by (rule fonts)
        next
          case nf: False
          with assms JObject nd nv ndf obtain sub where
            "flatten_keys (pre_of prefix @ key) fs [] = Inr sub" "r = object_assign acc sub"
            by (auto simp: flatten_key.simps split: sum.splits)
          with JObject nd nv ndf nf show ?thesis by (rule nested)
        qed
      qed
    qed
  qed
next
  case JNull
  with assms have "r = acc" by (simp add: flatten_key.simps)
  then show ?thesis by (rule skip)
next
  case (JBool b)
  with assms have "r = acc" by (simp add: flatten_key.simps)
  then show ?thesis by (rule skip)
next
  case (JArray xs)
  with assms have "r = acc" by (simp add: flatten_key.simps)
  then show ?thesis by (rule skip)
next
  case (JString s)
  with assms have "r = assign_prop (pre_of prefix @ key) value acc"
    by (simp add: flatten_key.simps)
  then show ?thesis by (rule assign)
next
  case (JNumber n)
  with assms have "r = assign_prop (pre_of prefix @ key) value acc"
    by (simp add: flatten_key.simps)
  then show ?thesis by (rule assign)
qed

lemma flatten_shape:
  "flatten_keys prefix ks acc = Inr r \<Longrightarrow> prefix \<noteq> [] \<Longrightarrow> q \<in> fst ` set r \<Longrightarrow>
     q \<in> fst ` set acc \<or> (\<exists>k \<in> fst ` set ks. under (prefix @ ''-'' @ k) q)"
  "flatten_key prefix key value acc = Inr r \<Longrightarrow> prefix \<noteq> [] \<Longrightarrow> q \<in> fst ` set r \<Longrightarrow>
     q \<in> fst ` set acc \<or> under (prefix @ ''-'' @ key) q"
proof (induction prefix ks acc and prefix key "value" acc arbitrary: r q and r q
    rule: flatten_keys_flatten_key.induct)
  case (1 prefix acc)
  then show ?case by simp
next
  case (2 prefix key "value" rest acc)
  from "2.prems"(1) obtain acc' where
    k: "flatten_key prefix key value acc = Inr acc'" and
    ks: "flatten_keys prefix rest acc' = Inr r"
    by (auto split: sum.splits)
  from "2.IH"(2)[OF k ks "2.prems"(2,3)] "2.IH"(1)[OF k "2.prems"(2)]
  show ?case by auto
next
  case (3 prefix key "value" acc)
  let ?p = "pre_of prefix @ key"
  have p: "?p = prefix @ ''-'' @ key" "?p \<noteq> []"
    using "3.prems"(2) by (simp_all add: pre_of_nonempty)
  from "3.prems"(1) show ?case
  proof (cases rule: flatten_key_cases)
    case skip
    then show ?thesis using "3.prems"(3) by simp
  next
    case (assign v)
    then show ?thesis using "3.prems"(3) keys_assign_prop[of ?p v acc] p
      by (auto simp: under_def)
  next
    case (default fs sub v)
    have sub: "under ?p x" if "x \<in> fst ` set sub" for x
    proof -
      from "3.IH"(1)[OF default(1-5) p(2) that]
      obtain k where "under (?p @ ''-'' @ k) x" by auto
      then show ?thesis by (rule under_trans)
    qed
    from "3.prems"(3) keys_object_assign[of "assign_prop ?p v acc" sub]
      keys_assign_prop[of ?p v acc]
    have "q \<in> fst ` set acc \<or> q = ?p \<or> q \<in> fst ` set sub"
      unfolding default(6) by auto
    then show ?thesis using sub[of q] p(1) by (auto simp: under_refl)
  next
    case (fonts fs)
    then show ?thesis using font_entries_shape[of ?p fs acc r q] "3.prems"(3) p by auto
  next
    case (nested fs sub)
    have sub: "under ?p x" if "x \<in> fst ` set sub" for x
    proof -
      from "3.IH"(2)[OF nested(1-6) p(2) that]
      obtain k where "under (?p @ ''-'' @ k) x" by auto
      then show ?thesis by (rule under_trans)
    qed
    from "3.prems"(3) keys_object_assign[of acc sub]
    have "q \<in> fst ` set acc \<or> q \<in> fst ` set sub"
      unfolding nested(7) by auto
    then show ?thesis using sub[of q] p(1) by auto
  qed
qed

lemma flatten_distinct:
  "flatten_keys prefix ks acc = Inr r \<Longrightarrow> distinct (map fst acc) \<Longrightarrow> distinct (map fst r)"
  "flatten_key prefix key value acc = Inr r \<Longrightarrow> distinct (map fst acc) \<Longrightarrow> distinct (map fst r)"
proof (induction prefix ks acc and prefix key "value" acc arbitrary: r and r
    rule: flatten_keys_flatten_key.induct)
  case (1 prefix acc)
  then show ?case by simp
next
  case (2 prefix key "value" rest acc)
  from "2.prems"(1) obtain acc' where
    k: "flatten_key prefix key value acc = Inr acc'" and
    ks: "flatten_keys prefix rest acc' = Inr r"
    by (auto split: sum.splits)
  from "2.IH"(2)[OF k ks] "2.IH"(1)[OF k "2.prems"(2)]
  show ?case by auto
next
  case (3 prefix key "value" acc)
  from "3.prems"(1) show ?case
  proof (cases rule: flatten_key_cases)
    case skip
    then show ?thesis using "3.prems"(2) by simp
  next
    case (assign v)
    then show ?thesis using "3.prems"(2) by (simp add: distinct_assign_prop)
  next
    case (default fs sub v)
    then show ?thesis using "3.prems"(2)
      by (simp add: distinct_object_assign distinct_assign_prop)
  next
    case (fonts fs)
    then show ?thesis using "3.prems"(2) by (auto dest: font_entries_distinct)
  next
    case (nested fs sub)
    then show ?thesis using "3.prems"(2) by (simp add: distinct_object_assign)
  qed
qed

lemma flatten_preserve:
  "flatten_keys prefix ks acc = Inr r \<Longrightarrow> prefix \<noteq> [] \<Longrightarrow>
     (\<forall>k \<in> fst ` set ks. \<not> under (prefix @ ''-'' @ k) q) \<Longrightarrow> map_of r q = map_of acc q"
  "flatten_key prefix key value acc = Inr r \<Longrightarrow> prefix \<noteq> [] \<Longrightarrow>
     \<not> under (prefix @ ''-'' @ key) q \<Longrightarrow> map_of r q = map_of acc q"
proof (induction prefix ks acc and prefix key "value" acc arbitrary: r and r
    rule: flatten_keys_flatten_key.induct)
  case (1 prefix acc)
  then show ?case by simp
next
  case (2 prefix key "value" rest acc)
  from "2.prems"(1) obtain acc' where
    k: "flatten_key prefix key value acc = Inr acc'" and
    ks: "flatten_keys prefix rest acc' = Inr r"
    by (auto split: sum.splits)
  have "map_of acc' q = map_of acc q"
    using "2.IH"(1)[OF k "2.prems"(2)] "2.prems"(3) by simp
  moreover have "map_of r q = map_of acc' q"
    using "2.IH"(2)[OF k ks "2.prems"(2)] "2.prems"(3) by simp
  ultimately show ?case by simp
next
  case (3 prefix key "value" acc)
  let ?p = "pre_of prefix @ key"
  have p: "?p = prefix @ ''-'' @ key" "?p \<noteq> []"
    using "3.prems"(2) by (simp_all add: pre_of_nonempty)
  have nq: "q \<noteq> ?p" using "3.prems"(3) p(1) by (auto simp: under_def)
  from "3.prems"(1) show ?case
  proof (cases rule: flatten_key_cases)
    case skip
    then show ?thesis by simp
  next
    case (assign v)
    then show ?thesis using nq by (simp add: map_of_assign_prop)
  next
    case (default fs sub v)
    have "q \<notin> fst ` set sub"
    proof
      assume "q \<in> fst ` set sub"
      from flatten_shape(1)[OF default(5) p(2) this]
      obtain k where "under (?p @ ''-'' @ k) q" by auto
      then have "under ?p q" by (rule under_trans)
      with "3.prems"(3) p(1) show False by simp
    qed
    then show ?thesis using nq
      by (simp add: default(6) map_of_object_assign map_of_assign_prop)
  next
    case (fonts fs)
    then show ?thesis using font_entries_preserve[of ?p fs acc r q] "3.prems"(3) p(1) by simp
  next
    case (nested fs sub)
    have "q \<notin> fst ` set sub"
    proof
      assume "q \<in> fst ` set sub"
      from flatten_shape(1)[OF nested(6) p(2) this]
      obtain k where "under (?p @ ''-'' @ k) q" by auto
      then have "under ?p q" by (rule under_trans)
      with "3.prems"(3) p(1) show False by simp
    qed
    then show ?thesis
      by (simp add: nested(7) map_of_object_assign)
  qed
qed

lemma dash_path_not_index: "\<not> is_array_index (p @ ''-'' @ k)"
proof
  assume "is_array_index (p @ ''-'' @ k)"
  then have "list_all is_digit (p @ ''-'' @ k)"
    unfolding is_array_index_def by blast
  then have "is_digit CHR ''-''" by simp
  then show False by (simp add: is_digit_def)
qed

lemma dash_path_not_proto: "p @ ''-'' @ k \<noteq> ''__proto__''"
proof
  assume e: "p @ ''-'' @ k = ''__proto__''"
  have "CHR ''-'' \<in> set (p @ ''-'' @ k)" by simp
  then have "CHR ''-'' \<in> set ''__proto__''" unfolding e .
  then show False by simp
qed

lemma flatten_key_scalar:
  "is_scalar v \<Longrightarrow> flatten_key prefix k v acc = Inr (assign_prop (pre_of prefix @ k) v acc)"
  by (cases v) (simp_all add: is_scalar_def flatten_key.simps)

lemma group_entry:
  assumes sub: "flatten_keys p fs [] = Inr sub" and p: "p \<noteq> []"
    and d: "distinct (map fst fs)" and kv: "(k, v) \<in> set fs"
    and sc: "is_scalar v" and nd: "CHR ''-'' \<notin> set k"
  shows "map_of sub (p @ ''-'' @ k) = Some v"
proof -
  from kv obtain xs ys where fs: "fs = xs @ (k, v) # ys"
    by (meson split_list)
  from sub obtain a1 where
    a1: "flatten_keys p xs [] = Inr a1" and
    rest: "flatten_keys p ys (assign_prop (p @ ''-'' @ k) v a1) = Inr sub"
    unfolding fs using p
    by (auto simp: flatten_keys_append flatten_key_scalar[OF sc] pre_of_nonempty split: sum.splits)
  have "\<not> under (p @ ''-'' @ k') (p @ ''-'' @ k)" if "k' \<in> fst ` set ys" for k'
  proof
    assume u: "under (p @ ''-'' @ k') (p @ ''-'' @ k)"
    from d that have "k' \<noteq> k" unfolding fs by auto
    with u obtain s where "k = k' @ ''-'' @ s" by (auto simp: under_def)
    then have "CHR ''-'' \<in> set k" by simp
    with nd show False by simp
  qed
  then have "map_of sub (p @ ''-'' @ k) = map_of (assign_prop (p @ ''-'' @ k) v a1) (p @ ''-'' @ k)"
    using flatten_preserve(1)[OF rest p] by blast
  also have "\<dots> = Some v"
    using dash_path_not_proto[of p k] by (simp add: map_of_assign_prop)
  finally show ?thesis .
qed

lemma default_group_sibling:
  assumes sub: "flatten_keys p fs [] = Inr sub" and p: "p \<noteq> []"
    and d: "distinct (map fst fs)" and kv: "(k, v) \<in> set fs"
    and sc: "is_scalar v" and nd: "CHR ''-'' \<notin> set k"
  shows "map_of (object_assign t sub) (p @ ''-'' @ k) = Some v"
proof -
  have e: "map_of sub (p @ ''-'' @ k) = Some v"
    by (rule group_entry[OF sub p d kv sc nd])
  then have i: "p @ ''-'' @ k \<in> fst ` set sub"
    by (metis domI dom_map_of_conv_image_fst)
  have ds: "distinct (map fst sub)"
    using flatten_distinct(1)[OF sub] by simp
  have "map_of (rev sub) (p @ ''-'' @ k) = map_of sub (p @ ''-'' @ k)"
    using ds by (simp add: map_of_rev_distinct)
  with e i show ?thesis
    using dash_path_not_proto[of p k] by (simp add: map_of_object_assign)
qed

lemma dash_paths_meet:
  assumes "a @ ''-'' @ s = b @ ''-'' @ t"
  shows "under a b \<or> under b a"
proof -
  from assms obtain us where
    "(a = b @ us \<and> us @ ''-'' @ s = ''-'' @ t) \<or> (a @ us = b \<and> ''-'' @ s = us @ ''-'' @ t)"
    unfolding append_eq_append_conv2 by blast
  then show ?thesis
  proof
    assume h: "a = b @ us \<and> us @ ''-'' @ s = ''-'' @ t"
    show ?thesis
    proof (cases us)
      case Nil
      with h show ?thesis by (simp add: under_def)
    next
      case (Cons c cs)
      with h have "c = CHR ''-''" by simp
      with h Cons have "a = b @ ''-'' @ cs" by simp
      then show ?thesis unfolding under_def by blast
    qed
  next
    assume h: "a @ us = b \<and> ''-'' @ s = us @ ''-'' @ t"
    show ?thesis
    proof (cases us)
      case Nil
      with h show ?thesis by (simp add: under_def)
    next
      case (Cons c cs)
      with h have "c = CHR ''-''" by simp
      with h Cons have "b = a @ ''-'' @ cs" by auto
      then show ?thesis unfolding under_def by blast
    qed
  qed
qed

lemma apart_under:
  assumes ap: "k' \<noteq> []" "\<not> under k' key" "\<not> under key k'"
    and u: "under (pre @ key) q"
  shows "\<not> under (pre @ k') q"
proof
  assume v: "under (pre @ k') q"
  from u consider "q = pre @ key" | s where "q = pre @ key @ ''-'' @ s"
    by (auto simp: under_def)
  then show False
  proof cases
    case 1
    with v have "key = k' \<or> (\<exists>t. key = k' @ ''-'' @ t)" by (auto simp: under_def)
    with ap(2) show False by (auto simp: under_def)
  next
    case (2 s)
    with v have "key @ ''-'' @ s = k' \<or> (\<exists>t. key @ ''-'' @ s = k' @ ''-'' @ t)"
      by (auto simp: under_def)
    then show False
    proof
      assume "key @ ''-'' @ s = k'"
      then have "under key k'" unfolding under_def by blast
      with ap(3) show False ..
    next
      assume "\<exists>t. key @ ''-'' @ s = k' @ ''-'' @ t"
      then obtain t where "key @ ''-'' @ s = k' @ ''-'' @ t" ..
      from dash_paths_meet[OF this] ap(2,3) show False by blast
    qed
  qed
qed

lemma pre_of_key_nonempty: "k \<noteq> [] \<Longrightarrow> pre_of prefix @ k \<noteq> []"
  by simp

lemma flatten_key_preserve_any:
  assumes r: "flatten_key prefix key value acc = Inr r"
    and p: "pre_of prefix @ key \<noteq> []"
    and q: "\<not> under (pre_of prefix @ key) q"
  shows "map_of r q = map_of acc q"
proof -
  let ?p = "pre_of prefix @ key"
  have nq: "q \<noteq> ?p" using q by (auto simp: under_def)
  have out: "q \<notin> fst ` set sub" if "flatten_keys ?p fs [] = Inr sub" for fs sub
  proof
    assume "q \<in> fst ` set sub"
    from flatten_shape(1)[OF that p this]
    obtain k where "under (?p @ ''-'' @ k) q" by auto
    then have "under ?p q" by (rule under_trans)
    with q show False ..
  qed
  from r show ?thesis
  proof (cases rule: flatten_key_cases)
    case skip
    then show ?thesis by simp
  next
    case (assign v)
    then show ?thesis using nq by (simp add: map_of_assign_prop)
  next
    case (default fs sub v)
    then show ?thesis using nq out[OF default(5)]
      by (simp add: map_of_object_assign map_of_assign_prop)
  next
    case (fonts fs)
    then show ?thesis using font_entries_preserve[of ?p fs acc r q] q by simp
  next
    case (nested fs sub)
    then show ?thesis using out[OF nested(6)]
      by (simp add: map_of_object_assign)
  qed
qed

lemma flatten_keys_preserve_any:
  "flatten_keys prefix ks acc = Inr r \<Longrightarrow>
   \<forall>k \<in> fst ` set ks. pre_of prefix @ k \<noteq> [] \<and> \<not> under (pre_of prefix @ k) q \<Longrightarrow>
   map_of r q = map_of acc q"
proof (induction ks arbitrary: acc)
  case Nil
  then show ?case by simp
next
  case (Cons e ks)
  obtain k v where e: "e = (k, v)" by (cases e)
  from Cons.prems(1) obtain acc' where
    k: "flatten_key prefix k v acc = Inr acc'" and
    ks: "flatten_keys prefix ks acc' = Inr r"
    unfolding e by (auto split: sum.splits)
  have "map_of acc' q = map_of acc q"
    using flatten_key_preserve_any[OF k] Cons.prems(2) unfolding e by simp
  moreover have "map_of r q = map_of acc' q"
    using Cons.IH[OF ks] Cons.prems(2) by simp
  ultimately show ?case by simp
qed

text \<open>
  The entries that the visit of one key writes survive the visits of the later keys, when
  these are apart from it.
\<close>

lemma visit_survives:
  assumes f: "flattenObject (xs @ (key, v) # ys) prefix = Inr flat" and ap: "apart key ys"
  obtains a1 a2 where "flatten_keys prefix xs [] = Inr a1"
    and "flatten_key prefix key v a1 = Inr a2"
    and "\<And>q. under (pre_of prefix @ key) q \<Longrightarrow> map_of flat q = map_of a2 q"
proof -
  from f obtain a1 a2 where
    a1: "flatten_keys prefix xs [] = Inr a1" and
    a2: "flatten_key prefix key v a1 = Inr a2" and
    r: "flatten_keys prefix ys a2 = Inr flat"
    by (auto simp: flattenObject_def flatten_keys_append split: sum.splits)
  have "map_of flat q = map_of a2 q" if u: "under (pre_of prefix @ key) q" for q
  proof (rule flatten_keys_preserve_any[OF r], rule ballI)
    fix k' assume k': "k' \<in> fst ` set ys"
    with ap have a: "k' \<noteq> []" "\<not> under k' key" "\<not> under key k'"
      by (auto simp: apart_def)
    show "pre_of prefix @ k' \<noteq> [] \<and> \<not> under (pre_of prefix @ k') q"
      using a(1) apart_under[OF a u] by simp
  qed
  with a1 a2 show ?thesis by (rule that)
qed

lemma promoted_entry:
  assumes sub: "flatten_keys p fs [] = Inr sub" and p: "p \<noteq> []" "p \<noteq> ''__proto__''"
  shows "map_of (object_assign (assign_prop p d t) sub) p = Some d"
proof -
  have "p \<notin> fst ` set sub"
  proof
    assume "p \<in> fst ` set sub"
    from flatten_shape(1)[OF sub p(1) this]
    obtain k where "under (p @ ''-'' @ k) p" by auto
    then show False by (auto simp: under_def)
  qed
  then show ?thesis using p(2) by (simp add: map_of_object_assign map_of_assign_prop)
qed

lemma default_visit:
  assumes "\<not> startsWith key ''$''" "\<not> is_value_string fs" "map_of fs ''DEFAULT'' = Some d"
    and "flatten_key prefix key (JObject fs) a1 = Inr a2"
  obtains sub where "flatten_keys (pre_of prefix @ key) fs [] = Inr sub"
    and "a2 = object_assign (assign_prop (pre_of prefix @ key) d a1) sub"
  using assms by (auto simp: flatten_key.simps has_key_def split: sum.splits)

lemma under_dash: "under p (p @ ''-'' @ k)"
  unfolding under_def by blast

lemmas flat_eval = flattenObject_def flatten_key.simps pre_of_def startsWith_def has_key_def
  is_value_string_def assign_prop_def define_prop_def object_assign_def is_array_index_def
  is_digit_def join_fonts_def

subsection \<open>Printing and the font lists\<close>

lemma toString_error:
  "toString v = Inl e \<Longrightarrow> e = TypeError"
  "join_elements xs = Inl e \<Longrightarrow> e = TypeError"
  by (induction v and xs arbitrary: e and e rule: toString_join_elements.induct)
     (auto split: sum.splits if_splits)

lemma toString_printable:
  "isl (toString v) = (\<not> printable v)"
  "isl (join_elements xs) = (\<not> list_all printable xs)"
  by (induction v and xs rule: toString_join_elements.induct) (auto split: sum.splits)

lemma join_elements_strings: "join_elements (map JString ss) = Inr ss"
  by (induction ss) simp_all

lemma map_fonts_strings:
  "map_fonts (map JString names) = Inr (map JString (map quoted names))"
  by (induction names) (simp_all add: quoted_def)

lemma join_fonts_strings: "join_fonts (map JString names) = Inr (JString (font_list names))"
  by (simp only: join_fonts_def map_fonts_strings sum.case join_elements_strings font_list_def)

lemma quote_font_error: "quote_font x = Inl e \<Longrightarrow> e = TypeError"
  by (cases x) (auto split: if_splits sum.splits dest: toString_error(2))

lemma map_fonts_error: "map_fonts xs = Inl e \<Longrightarrow> e = TypeError"
  by (induction xs) (auto split: sum.splits dest: quote_font_error)

lemma join_fonts_error: "join_fonts xs = Inl e \<Longrightarrow> e = TypeError"
  by (auto simp: join_fonts_def split: sum.splits dest: map_fonts_error toString_error(2))

lemma quote_font_isl:
  "isl (quote_font f) \<Longrightarrow> bad_font f"
  "lacks_includes f \<Longrightarrow> isl (quote_font f)"
  using toString_printable(1)[of f]
  by (cases f; auto simp: bad_font_def lacks_includes_def split: if_splits sum.splits)+

lemma quote_font_printable: "quote_font f = Inr q \<Longrightarrow> printable q = printable f"
  using toString_printable(1)[of f]
  by (cases f) (auto split: if_splits sum.splits)

lemma map_fonts_isl: "isl (map_fonts xs) \<Longrightarrow> list_ex bad_font xs"
proof (induction xs)
  case Nil
  then show ?case by simp
next
  case (Cons a xs)
  show ?case
  proof (cases "quote_font a")
    case (Inl e)
    then have "bad_font a" using quote_font_isl(1)[of a] by simp
    then show ?thesis by simp
  next
    case (Inr q)
    with Cons.prems have "isl (map_fonts xs)" by (auto split: sum.splits)
    then show ?thesis using Cons.IH by simp
  qed
qed

lemma map_fonts_lacks: "list_ex lacks_includes xs \<Longrightarrow> isl (map_fonts xs)"
proof (induction xs)
  case Nil
  then show ?case by simp
next
  case (Cons a xs)
  show ?case
  proof (cases "quote_font a")
    case (Inl e)
    then show ?thesis by simp
  next
    case (Inr q)
    then have "\<not> lacks_includes a" using quote_font_isl(2)[of a] by auto
    with Cons.prems have "list_ex lacks_includes xs" by simp
    then have "isl (map_fonts xs)" by (rule Cons.IH)
    then show ?thesis using Inr by (auto split: sum.splits)
  qed
qed

lemma map_fonts_printable: "map_fonts xs = Inr qs \<Longrightarrow> list_all printable qs = list_all printable xs"
  by (induction xs arbitrary: qs) (auto split: sum.splits dest: quote_font_printable)

lemma join_fonts_isl: "isl (join_fonts xs) = list_ex bad_font xs"
proof (cases "map_fonts xs")
  case (Inl e)
  then show ?thesis using map_fonts_isl[of xs] by (simp add: join_fonts_def)
next
  case (Inr qs)
  then have nl: "\<not> list_ex lacks_includes xs" using map_fonts_lacks[of xs] by auto
  have "isl (join_fonts xs) = (\<not> list_all printable xs)"
    using Inr toString_printable(2)[of qs] map_fonts_printable[OF Inr]
    by (auto simp: join_fonts_def split: sum.splits)
  also have "\<dots> = list_ex bad_font xs"
    using nl by (auto simp: bad_font_def list_ex_iff list_all_iff)
  finally show ?thesis .
qed

lemma font_entries_error: "font_entries p fs acc = Inl e \<Longrightarrow> e = TypeError"
proof (induction fs arbitrary: acc)
  case Nil
  then show ?case by simp
next
  case (Cons a fs)
  obtain fk fonts where a: "a = (fk, fonts)" by (cases a)
  from Cons.prems show ?case
    unfolding a
    by (cases fonts) (auto split: sum.splits dest: join_fonts_error Cons.IH)
qed

lemma font_entries_isl: "isl (font_entries p fs acc) = bad_fonts fs"
proof (induction fs arbitrary: acc)
  case Nil
  show ?case by (simp add: bad_fonts_def)
next
  case (Cons a fs)
  obtain fk fonts where a: "a = (fk, fonts)" by (cases a)
  have t: "bad_fonts (a # fs) = ((case fonts of JArray xs \<Rightarrow> list_ex bad_font xs | _ \<Rightarrow> False) \<or> bad_fonts fs)"
    unfolding a by (simp add: bad_fonts_def)
  show ?case
    unfolding t unfolding a
    by (cases fonts) (auto simp: Cons.IH join_fonts_isl[symmetric] split: sum.splits)
qed

lemma assign_fresh_dash:
  "p @ ''-'' @ k \<notin> fst ` set acc \<Longrightarrow> assign_prop (p @ ''-'' @ k) v acc = acc @ [(p @ ''-'' @ k, v)]"
  using dash_path_not_proto[of p k] dash_path_not_index[of p k]
  by (simp add: assign_prop_def define_prop_def has_key_def map_of_eq_None_iff)

lemma font_entries_group:
  "distinct (map fst g) \<Longrightarrow> \<forall>k \<in> fst ` set g. p @ ''-'' @ k \<notin> fst ` set acc \<Longrightarrow>
   font_entries p (font_group g) acc =
     Inr (acc @ map (\<lambda>(k, names). (p @ ''-'' @ k, JString (font_list names))) g)"
proof (induction g arbitrary: acc)
  case Nil
  show ?case by (simp add: font_group_def)
next
  case (Cons a g)
  obtain k names where a: "a = (k, names)" by (cases a)
  let ?acc = "acc @ [(p @ ''-'' @ k, JString (font_list names))]"
  have fresh: "p @ ''-'' @ k \<notin> fst ` set acc"
    using Cons.prems(2) unfolding a by simp
  have d: "distinct (map fst g)" using Cons.prems(1) by simp
  have "\<forall>k' \<in> fst ` set g. p @ ''-'' @ k' \<notin> fst ` set ?acc"
    using Cons.prems unfolding a by auto
  from Cons.IH[OF d this]
  have "font_entries p (font_group g) ?acc =
      Inr (?acc @ map (\<lambda>(k, names). (p @ ''-'' @ k, JString (font_list names))) g)" .
  then show ?case
    unfolding a using assign_fresh_dash[OF fresh, of "JString (font_list names)"]
    by (simp add: font_group_def join_fonts_strings)
qed

lemma font_group_no_default:
  "''DEFAULT'' \<notin> fst ` set g \<Longrightarrow> \<not> has_key ''DEFAULT'' (font_group g)"
  by (simp add: has_key_def font_group_def map_of_eq_None_iff image_image case_prod_unfold)

lemma font_group_no_value_string: "\<not> is_value_string (font_group g)"
proof -
  have "map_of (font_group g) ''value'' = Some v \<Longrightarrow> \<exists>xs. v = JArray xs" for v
    by (auto simp: font_group_def dest!: map_of_SomeD)
  then show ?thesis
    by (auto simp: is_value_string_def split: option.splits json.splits)
qed

lemma font_entries_assign:
  "font_entries p (font_group g) acc =
     Inr (object_assign acc (map (\<lambda>(k, names). (p @ ''-'' @ k, JString (font_list names))) g))"
proof (induction g arbitrary: acc)
  case Nil
  show ?case by (simp add: font_group_def object_assign_def)
next
  case (Cons a g)
  obtain k names where a: "a = (k, names)" by (cases a)
  have "font_entries p (font_group (a # g)) acc =
      font_entries p (font_group g) (assign_prop (p @ ''-'' @ k) (JString (font_list names)) acc)"
    unfolding a by (simp add: font_group_def join_fonts_strings)
  then show ?case unfolding a by (simp add: Cons.IH object_assign_def)
qed

lemma font_entry_assigned:
  assumes d: "distinct (map fst g)" and kn: "(k, names) \<in> set g"
  shows "map_of (object_assign acc (map (\<lambda>(k, names). (p @ ''-'' @ k, JString (font_list names))) g))
           (p @ ''-'' @ k) = Some (JString (font_list names))"
proof -
  let ?m = "map (\<lambda>(k, names). (p @ ''-'' @ k, JString (font_list names))) g"
  have inj: "inj_on (\<lambda>k. p @ ''-'' @ k) (fst ` set g)"
    by (rule inj_onI) simp
  have fst_m: "map fst ?m = map (\<lambda>k. p @ ''-'' @ k) (map fst g)"
    by (simp add: case_prod_unfold comp_def)
  have "inj_on (\<lambda>k. p @ ''-'' @ k) (set (map fst g))"
    using inj by simp
  with d have dm: "distinct (map fst ?m)"
    unfolding fst_m by (subst distinct_map) (rule conjI)
  have mem: "(p @ ''-'' @ k, JString (font_list names)) \<in> set ?m"
    using kn by force
  then have "map_of ?m (p @ ''-'' @ k) = Some (JString (font_list names))"
    using dm by simp
  moreover have "p @ ''-'' @ k \<in> fst ` set ?m"
    using mem by force
  ultimately show ?thesis
    using dm dash_path_not_proto[of p k]
    by (simp add: map_of_object_assign map_of_rev_distinct)
qed

lemma flatten_error:
  "flatten_keys prefix ks acc = Inl e \<Longrightarrow> e = TypeError"
  "flatten_key prefix key value acc = Inl e \<Longrightarrow> e = TypeError"
proof (induction prefix ks acc and prefix key "value" acc
    rule: flatten_keys_flatten_key.induct)
  case (1 prefix acc)
  then show ?case by simp
next
  case (2 prefix key "value" rest acc)
  then show ?case by (auto split: sum.splits)
next
  case (3 prefix key "value" acc)
  show ?case
  proof (cases "value")
    case (JObject fs)
    show ?thesis
    proof (cases "startsWith key ''$''")
      case True
      with "3.prems" JObject show ?thesis by (simp add: flatten_key.simps)
    next
      case nd: False
      show ?thesis
      proof (cases "has_key ''value'' fs \<and> is_value_string fs")
        case True
        with "3.prems" JObject nd show ?thesis by (simp add: flatten_key.simps)
      next
        case nv: False
        show ?thesis
        proof (cases "has_key ''DEFAULT'' fs")
          case df: True
          with "3.prems" JObject nd nv
          have "flatten_keys (pre_of prefix @ key) fs [] = Inl e"
            by (auto simp: flatten_key.simps split: sum.splits)
          then show ?thesis by (rule "3.IH"(1)[OF JObject nd nv df])
        next
          case ndf: False
          show ?thesis
          proof (cases "key = ''fontFamily''")
            case True
            with "3.prems" JObject nd nv ndf
            have "font_entries (pre_of prefix @ key) fs acc = Inl e"
              by (auto simp: flatten_key.simps)
            then show ?thesis by (rule font_entries_error)
          next
            case nf: False
            with "3.prems" JObject nd nv ndf
            have "flatten_keys (pre_of prefix @ key) fs [] = Inl e"
              by (auto simp: flatten_key.simps split: sum.splits)
            then show ?thesis by (rule "3.IH"(2)[OF JObject nd nv ndf nf])
          qed
        qed
      qed
    qed
  qed (use "3.prems" in \<open>simp_all add: flatten_key.simps\<close>)
qed


lemma flatten_isl:
  "isl (flatten_keys prefix ks acc) = holds_bad_fonts ks"
  "isl (flatten_key prefix key value acc) = bad_fonts_under key value"
proof (induction prefix ks acc and prefix key "value" acc
    rule: flatten_keys_flatten_key.induct)
  case (1 prefix acc)
  show ?case by simp
next
  case (2 prefix key "value" rest acc)
  show ?case
  proof (cases "flatten_key prefix key value acc")
    case (Inl e)
    then show ?thesis using "2.IH"(1) by simp
  next
    case (Inr acc')
    then show ?thesis using "2.IH"(1) "2.IH"(2)[OF Inr] by simp
  qed
next
  case (3 prefix key "value" acc)
  show ?case
  proof (cases "value")
    case (JObject fs)
    show ?thesis
    proof (cases "startsWith key ''$''")
      case True
      with JObject show ?thesis by (simp add: flatten_key.simps)
    next
      case nd: False
      show ?thesis
      proof (cases "has_key ''value'' fs \<and> is_value_string fs")
        case True
        with JObject nd show ?thesis by (simp add: flatten_key.simps)
      next
        case nv: False
        then have nv': "\<not> is_value_string fs"
          by (auto simp: is_value_string_def has_key_def split: option.splits)
        show ?thesis
        proof (cases "has_key ''DEFAULT'' fs")
          case df: True
          from "3.IH"(1)[OF JObject nd nv df] JObject nd nv nv' df
          show ?thesis by (auto simp: flatten_key.simps split: sum.splits)
        next
          case ndf: False
          show ?thesis
          proof (cases "key = ''fontFamily''")
            case True
            with JObject nd nv nv' ndf show ?thesis
              by (simp add: flatten_key.simps font_entries_isl)
          next
            case nf: False
            from "3.IH"(2)[OF JObject nd nv ndf nf] JObject nd nv nv' ndf nf
            show ?thesis by (auto simp: flatten_key.simps split: sum.splits)
          qed
        qed
      qed
    qed
  qed (simp_all add: flatten_key.simps)
qed

subsection \<open>Following keys through the document\<close>

lemma under_trans2: "under a b \<Longrightarrow> under b c \<Longrightarrow> under a c"
  by (auto simp: under_def)

lemma under_nonempty: "under p q \<Longrightarrow> p \<noteq> [] \<Longrightarrow> q \<noteq> []"
  by (auto simp: under_def)

lemma under_has_dash: "under p q \<Longrightarrow> CHR ''-'' \<in> set p \<Longrightarrow> CHR ''-'' \<in> set q"
  by (auto simp: under_def)

lemma path_from_Cons: "path_from prefix (k # ks) = path_from (pre_of prefix @ k) ks"
  by (simp add: path_from_def)

lemma path_from_single: "path_from prefix [k] = pre_of prefix @ k"
  by (simp add: path_from_def)

lemma path_from_under: "prefix \<noteq> [] \<Longrightarrow> under prefix (path_from prefix ks)"
proof (induction ks arbitrary: prefix)
  case Nil
  show ?case by (simp add: path_from_def under_refl)
next
  case (Cons k ks)
  have e: "pre_of prefix @ k = prefix @ ''-'' @ k"
    using Cons.prems by (simp add: pre_of_nonempty)
  have "under (prefix @ ''-'' @ k) (path_from (prefix @ ''-'' @ k) ks)"
    by (rule Cons.IH) simp
  then have "under prefix (path_from (prefix @ ''-'' @ k) ks)"
    by (rule under_trans)
  then show ?case by (simp only: path_from_Cons e)
qed

lemma path_from_has_dash:
  assumes "prefix \<noteq> []" and "ks \<noteq> []"
  shows "CHR ''-'' \<in> set (path_from prefix ks)"
proof -
  from assms(2) obtain k ks' where ks: "ks = k # ks'" by (cases ks) auto
  have e: "pre_of prefix @ k = prefix @ ''-'' @ k"
    using assms(1) by (simp add: pre_of_nonempty)
  have "under (prefix @ ''-'' @ k) (path_from (prefix @ ''-'' @ k) ks')"
    by (rule path_from_under) simp
  moreover have "CHR ''-'' \<in> set (prefix @ ''-'' @ k)" by simp
  ultimately have "CHR ''-'' \<in> set (path_from (prefix @ ''-'' @ k) ks')"
    by (rule under_has_dash)
  then show ?thesis by (simp only: ks path_from_Cons e)
qed

lemma has_dash_not_proto: "CHR ''-'' \<in> set q \<Longrightarrow> q \<noteq> ''__proto__''"
  by auto

lemma reached_split:
  "reached ob (k # ks) = Some v \<Longrightarrow>
   \<exists>xs w ys. ob = xs @ (k, w) # ys \<and> apart k ys
     \<and> (if ks = [] then w = v
        else \<exists>fs. w = JObject fs \<and> descended k fs \<and> reached fs ks = Some v)"
proof (induction ob)
  case Nil
  then show ?case by simp
next
  case (Cons a ob)
  obtain k' w where a: "a = (k', w)" by (cases a)
  show ?case
  proof (cases "k' = k")
    case False
    with Cons.prems have "reached ob (k # ks) = Some v" unfolding a by simp
    from Cons.IH[OF this] obtain xs w' ys where
      "ob = xs @ (k, w') # ys" "apart k ys"
      "if ks = [] then w' = v
       else \<exists>fs. w' = JObject fs \<and> descended k fs \<and> reached fs ks = Some v"
      by blast
    then have "a # ob = (a # xs) @ (k, w') # ys \<and> apart k ys
      \<and> (if ks = [] then w' = v
         else \<exists>fs. w' = JObject fs \<and> descended k fs \<and> reached fs ks = Some v)"
      by simp
    then show ?thesis by blast
  next
    case True
    from Cons.prems have ap: "apart k ob"
      unfolding a using True by (auto split: if_splits)
    from Cons.prems have "if ks = [] then w = v
       else \<exists>fs. w = JObject fs \<and> descended k fs \<and> reached fs ks = Some v"
      unfolding a using True ap by (cases w) (auto split: if_splits)
    with ap have "a # ob = [] @ (k, w) # ob \<and> apart k ob
      \<and> (if ks = [] then w = v
         else \<exists>fs. w = JObject fs \<and> descended k fs \<and> reached fs ks = Some v)"
      unfolding a using True by simp
    then show ?thesis by blast
  qed
qed

lemma descended_visit:
  assumes "descended k fs" and "flatten_key prefix k (JObject fs) a1 = Inr a2"
  obtains sub t where "flatten_keys (pre_of prefix @ k) fs [] = Inr sub"
    and "a2 = object_assign t sub"
  using assms
  by (auto simp: descended_def flatten_key.simps split: sum.splits if_splits)

text \<open>
  The visit that the keys \<open>ks\<close> lead to, and the entries that it writes at or below its path:
  they are in the flattened map of the object from which the keys are followed.
\<close>

lemma reached_visit:
  "reached ob ks = Some v \<Longrightarrow> flatten_keys prefix ob [] = Inr flat \<Longrightarrow>
   pre_of prefix @ hd ks \<noteq> [] \<Longrightarrow>
   \<exists>P a1 a2. pre_of P @ last ks = path_from prefix ks
     \<and> flatten_key P (last ks) v a1 = Inr a2
     \<and> (\<forall>q x. under (path_from prefix ks) q \<longrightarrow> q \<noteq> ''__proto__''
            \<longrightarrow> map_of a2 q = Some x \<longrightarrow> map_of flat q = Some x)"
proof (induction ks arbitrary: ob prefix flat)
  case Nil
  then show ?case by simp
next
  case (Cons k ks)
  let ?p1 = "pre_of prefix @ k"
  have p1: "?p1 \<noteq> []" using Cons.prems(3) by simp
  from reached_split[OF Cons.prems(1)] obtain xs w ys where
    ob: "ob = xs @ (k, w) # ys" and ap: "apart k ys" and
    w: "if ks = [] then w = v
        else \<exists>fs. w = JObject fs \<and> descended k fs \<and> reached fs ks = Some v"
    by blast
  have f: "flattenObject (xs @ (k, w) # ys) prefix = Inr flat"
    using Cons.prems(2) unfolding ob by (simp add: flattenObject_def)
  from visit_survives[OF f ap] obtain a1 a2 where
    a2: "flatten_key prefix k w a1 = Inr a2" and
    keep: "\<And>q. under ?p1 q \<Longrightarrow> map_of flat q = map_of a2 q"
    by blast
  show ?case
  proof (cases "ks = []")
    case True
    with w have wv: "w = v" by simp
    have "pre_of prefix @ last (k # ks) = path_from prefix (k # ks)"
      using True by (simp add: path_from_single)
    moreover have "flatten_key prefix (last (k # ks)) v a1 = Inr a2"
      using a2 wv True by simp
    moreover have "\<forall>q x. under (path_from prefix (k # ks)) q \<longrightarrow> q \<noteq> ''__proto__''
            \<longrightarrow> map_of a2 q = Some x \<longrightarrow> map_of flat q = Some x"
      using keep True by (simp add: path_from_single)
    ultimately show ?thesis by blast
  next
    case False
    with w obtain fs where
      wf: "w = JObject fs" and d: "descended k fs" and r: "reached fs ks = Some v"
      by auto
    from descended_visit[OF d a2[unfolded wf]] obtain sub t where
      sub: "flatten_keys ?p1 fs [] = Inr sub" and eq: "a2 = object_assign t sub"
      by blast
    have "pre_of ?p1 @ hd ks \<noteq> []" using p1 by (simp add: pre_of_def)
    from Cons.IH[OF r sub this] obtain P b1 b2 where
      P: "pre_of P @ last ks = path_from ?p1 ks" and
      b2: "flatten_key P (last ks) v b1 = Inr b2" and
      tr: "\<And>q x. under (path_from ?p1 ks) q \<Longrightarrow> q \<noteq> ''__proto__''
            \<Longrightarrow> map_of b2 q = Some x \<Longrightarrow> map_of sub q = Some x"
      by blast
    have ds: "distinct (map fst sub)"
      using flatten_distinct(1)[OF sub] by simp
    have up: "under ?p1 (path_from ?p1 ks)"
      by (rule path_from_under[OF p1])
    have "map_of flat q = Some x"
      if u: "under (path_from ?p1 ks) q" and np: "q \<noteq> ''__proto__''"
        and m: "map_of b2 q = Some x" for q x
    proof -
      have s: "map_of sub q = Some x" by (rule tr[OF u np m])
      then have i: "q \<in> fst ` set sub"
        by (metis domI dom_map_of_conv_image_fst)
      have "map_of a2 q = map_of (rev sub) q"
        unfolding eq using i np by (simp add: map_of_object_assign)
      also have "\<dots> = Some x" using ds s by (simp add: map_of_rev_distinct)
      finally have "map_of a2 q = Some x" .
      moreover have "under ?p1 q" by (rule under_trans2[OF up u])
      ultimately show ?thesis using keep by simp
    qed
    then have "\<forall>q x. under (path_from prefix (k # ks)) q \<longrightarrow> q \<noteq> ''__proto__''
            \<longrightarrow> map_of b2 q = Some x \<longrightarrow> map_of flat q = Some x"
      by (simp add: path_from_Cons)
    moreover have "pre_of P @ last (k # ks) = path_from prefix (k # ks)"
      using P False by (simp add: path_from_Cons)
    moreover have "flatten_key P (last (k # ks)) v b1 = Inr b2"
      using b2 False by simp
    ultimately show ?thesis by blast
  qed
qed

lemma reached_nonempty: "reached ob ks = Some v \<Longrightarrow> ks \<noteq> []"
  by (cases ks) auto

lemma path_from_nonempty:
  assumes "ks \<noteq> []" and "pre_of prefix @ hd ks \<noteq> []"
  shows "path_from prefix ks \<noteq> []"
proof -
  from assms(1) obtain k ks' where ks: "ks = k # ks'" by (cases ks) auto
  have "under (pre_of prefix @ k) (path_from (pre_of prefix @ k) ks')"
    by (rule path_from_under) (use assms(2) ks in simp)
  then have "path_from (pre_of prefix @ k) ks' \<noteq> []"
    by (rule under_nonempty) (use assms(2) ks in simp)
  then show ?thesis by (simp add: ks path_from_Cons)
qed

text \<open>The entries of a group with a \<^verbatim>\<open>DEFAULT\<close> key that the keys \<open>ks\<close> lead to.\<close>

lemma reached_group:
  assumes r: "reached ob ks = Some (JObject fs)"
    and nd: "\<not> startsWith (last ks) ''$''" and nv: "\<not> is_value_string fs"
    and df: "map_of fs ''DEFAULT'' = Some d"
    and p1: "pre_of prefix @ hd ks \<noteq> []"
    and f: "flattenObject ob prefix = Inr flat"
  shows "path_from prefix ks \<noteq> ''__proto__'' \<Longrightarrow> map_of flat (path_from prefix ks) = Some d"
    and "distinct (map fst fs) \<Longrightarrow> (k, v) \<in> set fs \<Longrightarrow> is_scalar v \<Longrightarrow> CHR ''-'' \<notin> set k \<Longrightarrow>
         map_of flat (path_from prefix ks @ ''-'' @ k) = Some v"
proof -
  let ?p = "path_from prefix ks"
  have pn: "?p \<noteq> []"
    by (rule path_from_nonempty[OF reached_nonempty[OF r] p1])
  from reached_visit[OF r f[unfolded flattenObject_def] p1] obtain P a1 a2 where
    P: "pre_of P @ last ks = ?p" and
    a2: "flatten_key P (last ks) (JObject fs) a1 = Inr a2" and
    tr: "\<And>q x. under ?p q \<Longrightarrow> q \<noteq> ''__proto__'' \<Longrightarrow> map_of a2 q = Some x
           \<Longrightarrow> map_of flat q = Some x"
    by blast
  from default_visit[OF nd nv df a2] obtain sub where
    sub: "flatten_keys ?p fs [] = Inr sub" and
    eq: "a2 = object_assign (assign_prop ?p d a1) sub"
    unfolding P by blast
  show "map_of flat ?p = Some d" if np: "?p \<noteq> ''__proto__''"
  proof (rule tr[OF under_refl np])
    show "map_of a2 ?p = Some d"
      unfolding eq by (rule promoted_entry[OF sub pn np])
  qed
  show "map_of flat (?p @ ''-'' @ k) = Some v"
    if "distinct (map fst fs)" "(k, v) \<in> set fs" "is_scalar v" "CHR ''-'' \<notin> set k"
  proof (rule tr[OF under_dash dash_path_not_proto])
    show "map_of a2 (?p @ ''-'' @ k) = Some v"
      unfolding eq by (rule default_group_sibling[OF sub pn that])
  qed
qed

subsection \<open>The generators\<close>

lemma base_header_split:
  "base_header now =
     (unlines [''/**'', '' * PRSMTECH Design Tokens - Base CSS Variables'',
        '' * Generated from variables.json'', '' *''] @ '' * @generated '')
     @ now @ (''\<newline>'' @ unlines ['' */'', '''', '':root {''])"
  by (simp add: base_header_def unlines_def)

lemma slidev_header_split:
  "slidev_header now =
     (unlines [''/**'', '' * PRSMTECH Slidev Theme'', '' *''] @ '' * @generated '')
     @ now @ (''\<newline>'' @ unlines ['' */''])"
  by (simp add: slidev_header_def unlines_def)

lemma reveal_header_split:
  "reveal_header now =
     (unlines [''/**'', '' * PRSMTECH Reveal.js Theme'', '' *''] @ '' * @generated '')
     @ now @ (''\<newline>'' @ unlines ['' */''])"
  by (simp add: reveal_header_def unlines_def)

lemma webslides_header_split:
  "webslides_header now =
     (unlines [''/**'', '' * PRSMTECH WebSlides Theme'', '' *''] @ '' * @generated '')
     @ now @ (''\<newline>'' @ unlines ['' */''])"
  by (simp add: webslides_header_def unlines_def)

lemma tailwind_header_split:
  "tailwind_header now =
     (unlines [''/**'', '' * PRSMTECH Tailwind CSS Configuration'', '' *'',
        '' * Import this in your tailwind.config.js:'', '' *'',
        '' * const prsmTheme = require('./themes/prsmtech/dist/tailwind.config.js');'',
        '' *'', '' * module.exports = {'', '' *   theme: {'', '' *     extend: {'',
        '' *       ...prsmTheme.theme.extend'', '' *     }'', '' *   }'', '' * }'', '' *'']
      @ '' * @generated '')
     @ now @ (''\<newline>'' @ unlines ['' */''])"
  by (simp add: tailwind_header_def unlines_def)

lemma stampedI:
  assumes "\<And>variables. (\<exists>err. \<forall>now. G now variables = Inl err)
            \<or> (\<exists>rest. \<forall>now. G now variables = Inr (pre @ now @ rest))"
  shows "stamped G"
  unfolding stamped_def using assms by blast

lemma stamped_base: "stamped generateBaseCSS"
proof (rule stampedI)
  fix variables
  show "(\<exists>err. \<forall>now. generateBaseCSS now variables = Inl err)
      \<or> (\<exists>rest. \<forall>now. generateBaseCSS now variables =
            Inr ((unlines [''/**'', '' * PRSMTECH Design Tokens - Base CSS Variables'',
        '' * Generated from variables.json'', '' *''] @ '' * @generated '') @ now @ rest))"
  proof (cases "flattenObject variables []")
    case (Inl err)
    then show ?thesis by (simp add: generateBaseCSS_def)
  next
    case flat: (Inr flat)
    show ?thesis
    proof (cases "categorize flat")
      case (Inl err)
      with flat show ?thesis by (simp add: generateBaseCSS_def)
    next
      case (Inr c)
      with flat have "\<forall>now. generateBaseCSS now variables =
          Inr ((unlines [''/**'', '' * PRSMTECH Design Tokens - Base CSS Variables'',
          '' * Generated from variables.json'', '' *''] @ '' * @generated '') @ now @
            ((''\<newline>'' @ unlines ['' */'', '''', '':root {''])
              @ base_sections c @ base_dark_mode))"
        by (simp only: generateBaseCSS_def sum.case base_header_split append_assoc) simp
      then show ?thesis by blast
    qed
  qed
qed

text \<open>
  A framework generator converts the values that it interpolates and then prints the header
  and the body: it fails, or returns the header at the time of the run followed by a body
  that the document determines.
\<close>

lemma slidev_form:
  "\<exists>r. \<forall>now. generateSlidevCSS now variables
      = (case r of Inl e \<Rightarrow> Inl e | Inr body \<Rightarrow> Inr (slidev_header now @ body))"
proof (cases "toString (slidev_dimension variables ''width'' (JNumber ''980''))")
  case (Inl e)
  then have "\<forall>now. generateSlidevCSS now variables
    = (case Inl e of Inl e \<Rightarrow> Inl e | Inr body \<Rightarrow> Inr (slidev_header now @ body))"
    by (simp add: generateSlidevCSS_def)
  then show ?thesis by (rule exI)
next
  case w: (Inr width)
  show ?thesis
  proof (cases "toString (slidev_dimension variables ''height'' (JNumber ''552''))")
    case (Inl e)
    with w have "\<forall>now. generateSlidevCSS now variables
      = (case Inl e of Inl e \<Rightarrow> Inl e | Inr body \<Rightarrow> Inr (slidev_header now @ body))"
      by (simp add: generateSlidevCSS_def)
    then show ?thesis by (rule exI)
  next
    case h: (Inr height)
    show ?thesis
    proof (cases "toString (slide_padding variables ''slidev'' (JString ''40px''))")
      case (Inl e)
      with w h have "\<forall>now. generateSlidevCSS now variables
        = (case Inl e of Inl e \<Rightarrow> Inl e | Inr body \<Rightarrow> Inr (slidev_header now @ body))"
        by (simp add: generateSlidevCSS_def)
      then show ?thesis by (rule exI)
    next
      case p: (Inr padding)
      show ?thesis
      proof (cases "toString (blockquote_borderWidth variables)")
        case (Inl e)
        with w h p have "\<forall>now. generateSlidevCSS now variables
          = (case Inl e of Inl e \<Rightarrow> Inl e | Inr body \<Rightarrow> Inr (slidev_header now @ body))"
          by (simp add: generateSlidevCSS_def)
        then show ?thesis by (rule exI)
      next
        case (Inr borderWidth)
        with w h p have "\<forall>now. generateSlidevCSS now variables
          = (case Inr (slidev_body width height padding borderWidth) of
               Inl e \<Rightarrow> Inl e | Inr body \<Rightarrow> Inr (slidev_header now @ body))"
          by (simp add: generateSlidevCSS_def)
        then show ?thesis by (rule exI)
      qed
    qed
  qed
qed

lemma reveal_form:
  "\<exists>r. \<forall>now. generateRevealCSS now variables
      = (case r of Inl e \<Rightarrow> Inl e | Inr body \<Rightarrow> Inr (reveal_header now @ body))"
proof (cases "toString (slide_padding variables ''reveal'' (JString ''40px 80px''))")
  case (Inl e)
  then have "\<forall>now. generateRevealCSS now variables
    = (case Inl e of Inl e \<Rightarrow> Inl e | Inr body \<Rightarrow> Inr (reveal_header now @ body))"
    by (simp add: generateRevealCSS_def)
  then show ?thesis by (rule exI)
next
  case p: (Inr padding)
  show ?thesis
  proof (cases "toString (blockquote_borderWidth variables)")
    case (Inl e)
    with p have "\<forall>now. generateRevealCSS now variables
      = (case Inl e of Inl e \<Rightarrow> Inl e | Inr body \<Rightarrow> Inr (reveal_header now @ body))"
      by (simp add: generateRevealCSS_def)
    then show ?thesis by (rule exI)
  next
    case (Inr borderWidth)
    with p have "\<forall>now. generateRevealCSS now variables
      = (case Inr (reveal_body padding borderWidth) of
           Inl e \<Rightarrow> Inl e | Inr body \<Rightarrow> Inr (reveal_header now @ body))"
      by (simp add: generateRevealCSS_def)
    then show ?thesis by (rule exI)
  qed
qed

lemma webslides_form:
  "\<exists>r. \<forall>now. generateWebSlidesCSS now variables
      = (case r of Inl e \<Rightarrow> Inl e | Inr body \<Rightarrow> Inr (webslides_header now @ body))"
proof (cases "toString (slide_padding variables ''webslides'' (JString ''80px''))")
  case (Inl e)
  then have "\<forall>now. generateWebSlidesCSS now variables
    = (case Inl e of Inl e \<Rightarrow> Inl e | Inr body \<Rightarrow> Inr (webslides_header now @ body))"
    by (simp add: generateWebSlidesCSS_def)
  then show ?thesis by (rule exI)
next
  case p: (Inr padding)
  show ?thesis
  proof (cases "toString (blockquote_borderWidth variables)")
    case (Inl e)
    with p have "\<forall>now. generateWebSlidesCSS now variables
      = (case Inl e of Inl e \<Rightarrow> Inl e | Inr body \<Rightarrow> Inr (webslides_header now @ body))"
      by (simp add: generateWebSlidesCSS_def)
    then show ?thesis by (rule exI)
  next
    case (Inr borderWidth)
    with p have "\<forall>now. generateWebSlidesCSS now variables
      = (case Inr (webslides_body padding borderWidth) of
           Inl e \<Rightarrow> Inl e | Inr body \<Rightarrow> Inr (webslides_header now @ body))"
      by (simp add: generateWebSlidesCSS_def)
    then show ?thesis by (rule exI)
  qed
qed

lemma stamped_slidev: "stamped generateSlidevCSS"
proof (rule stampedI)
  fix variables
  let ?pre = "unlines [''/**'', '' * PRSMTECH Slidev Theme'', '' *''] @ '' * @generated ''"
  obtain r where r: "\<And>now. generateSlidevCSS now variables
      = (case r of Inl e \<Rightarrow> Inl e | Inr body \<Rightarrow> Inr (slidev_header now @ body))"
    using slidev_form[where variables = variables] by blast
  show "(\<exists>err. \<forall>now. generateSlidevCSS now variables = Inl err)
      \<or> (\<exists>rest. \<forall>now. generateSlidevCSS now variables = Inr (?pre @ now @ rest))"
  proof (cases r)
    case (Inl e)
    then show ?thesis using r by simp
  next
    case (Inr body)
    have "\<forall>now. generateSlidevCSS now variables =
        Inr (?pre @ now @ ((''\<newline>'' @ unlines ['' */'']) @ body))"
      unfolding r Inr by (simp only: sum.case slidev_header_split append_assoc) simp
    then show ?thesis by blast
  qed
qed

lemma stamped_reveal: "stamped generateRevealCSS"
proof (rule stampedI)
  fix variables
  let ?pre = "unlines [''/**'', '' * PRSMTECH Reveal.js Theme'', '' *''] @ '' * @generated ''"
  obtain r where r: "\<And>now. generateRevealCSS now variables
      = (case r of Inl e \<Rightarrow> Inl e | Inr body \<Rightarrow> Inr (reveal_header now @ body))"
    using reveal_form[where variables = variables] by blast
  show "(\<exists>err. \<forall>now. generateRevealCSS now variables = Inl err)
      \<or> (\<exists>rest. \<forall>now. generateRevealCSS now variables = Inr (?pre @ now @ rest))"
  proof (cases r)
    case (Inl e)
    then show ?thesis using r by simp
  next
    case (Inr body)
    have "\<forall>now. generateRevealCSS now variables =
        Inr (?pre @ now @ ((''\<newline>'' @ unlines ['' */'']) @ body))"
      unfolding r Inr by (simp only: sum.case reveal_header_split append_assoc) simp
    then show ?thesis by blast
  qed
qed

lemma stamped_webslides: "stamped generateWebSlidesCSS"
proof (rule stampedI)
  fix variables
  let ?pre = "unlines [''/**'', '' * PRSMTECH WebSlides Theme'', '' *''] @ '' * @generated ''"
  obtain r where r: "\<And>now. generateWebSlidesCSS now variables
      = (case r of Inl e \<Rightarrow> Inl e | Inr body \<Rightarrow> Inr (webslides_header now @ body))"
    using webslides_form[where variables = variables] by blast
  show "(\<exists>err. \<forall>now. generateWebSlidesCSS now variables = Inl err)
      \<or> (\<exists>rest. \<forall>now. generateWebSlidesCSS now variables = Inr (?pre @ now @ rest))"
  proof (cases r)
    case (Inl e)
    then show ?thesis using r by simp
  next
    case (Inr body)
    have "\<forall>now. generateWebSlidesCSS now variables =
        Inr (?pre @ now @ ((''\<newline>'' @ unlines ['' */'']) @ body))"
      unfolding r Inr by (simp only: sum.case webslides_header_split append_assoc) simp
    then show ?thesis by blast
  qed
qed

lemma stamped_tailwind: "stamped generateTailwindConfig"
proof (rule stampedI)
  fix variables
  show "(\<exists>err. \<forall>now. generateTailwindConfig now variables = Inl err)
      \<or> (\<exists>rest. \<forall>now. generateTailwindConfig now variables =
            Inr ((unlines [''/**'', '' * PRSMTECH Tailwind CSS Configuration'', '' *'',
        '' * Import this in your tailwind.config.js:'', '' *'',
        '' * const prsmTheme = require('./themes/prsmtech/dist/tailwind.config.js');'',
        '' *'', '' * module.exports = {'', '' *   theme: {'', '' *     extend: {'',
        '' *       ...prsmTheme.theme.extend'', '' *     }'', '' *   }'', '' * }'', '' *'']
      @ '' * @generated '') @ now @ rest))"
  proof (cases "tailwind_config variables")
    case (Inl err)
    then show ?thesis by (simp add: generateTailwindConfig_def)
  next
    case (Inr config)
    then have "\<forall>now. generateTailwindConfig now variables =
        Inr ((unlines [''/**'', '' * PRSMTECH Tailwind CSS Configuration'', '' *'',
        '' * Import this in your tailwind.config.js:'', '' *'',
        '' * const prsmTheme = require('./themes/prsmtech/dist/tailwind.config.js');'',
        '' *'', '' * module.exports = {'', '' *   theme: {'', '' *     extend: {'',
        '' *       ...prsmTheme.theme.extend'', '' *     }'', '' *   }'', '' * }'', '' *'']
      @ '' * @generated '') @ now @
          ((''\<newline>'' @ unlines ['' */''])
            @ unlines ['''', ''module.exports = '' @ stringify [] config @ '';'']))"
      by (simp only: generateTailwindConfig_def sum.case tailwind_header_split append_assoc) simp
    then show ?thesis by blast
  qed
qed

subsection \<open>The Categorizer\<close>

lemma cssVar_printable:
  "printable v \<Longrightarrow> \<exists>line. cssVar k v = Inr line"
  "\<not> printable v \<Longrightarrow> cssVar k v = Inl TypeError"
  using toString_printable(1)[of v] toString_error(1)[of v]
  by (cases "toString v"; simp add: cssVar_def)+

lemma push_category_line:
  assumes "cssVar k v = Inr line"
  obtains c' where "push_category c (k, v) = Inr c'"
    and "\<And>b. bucket_lines c' b = bucket_lines c b @ (if bucket_of k = b then [line] else [])"
    and "shadows c' = shadows c"
proof -
  obtain c' where c': "push_category c (k, v) = Inr c'"
    using assms by (simp add: push_category_def)
  have "bucket_lines c' b = bucket_lines c b @ (if bucket_of k = b then [line] else [])" for b
    using c' assms by (cases b) (auto simp: push_category_def bucket_lines_def bucket_of_def)
  moreover have "shadows c' = shadows c"
    using c' assms by (auto simp: push_category_def)
  ultimately show ?thesis using c' that by blast
qed

lemma for_each_entry_printable:
  "list_all (\<lambda>(k, v). printable v) flat \<Longrightarrow>
   \<exists>c'. for_each_entry flat c = Inr c'
     \<and> (\<forall>b. map Inr (bucket_lines c' b)
             = map Inr (bucket_lines c b)
               @ map (\<lambda>(k, v). cssVar k v) (filter (\<lambda>(k, v). bucket_of k = b) flat))
     \<and> shadows c' = shadows c"
proof (induction flat arbitrary: c)
  case Nil
  show ?case by simp
next
  case (Cons e flat)
  obtain k v where e: "e = (k, v)" by (cases e)
  from Cons.prems have pv: "printable v" and rest: "list_all (\<lambda>(k, v). printable v) flat"
    unfolding e by simp_all
  from cssVar_printable(1)[OF pv] obtain line where line: "cssVar k v = Inr line" by blast
  from push_category_line[OF line, of c] obtain c1 where
    c1: "push_category c (k, v) = Inr c1" and
    b1: "\<And>b. bucket_lines c1 b = bucket_lines c b @ (if bucket_of k = b then [line] else [])" and
    s1: "shadows c1 = shadows c"
    by blast
  from Cons.IH[OF rest, of c1] obtain c' where
    c': "for_each_entry flat c1 = Inr c'" and
    b': "\<And>b. map Inr (bucket_lines c' b)
             = map Inr (bucket_lines c1 b)
               @ map (\<lambda>(k, v). cssVar k v) (filter (\<lambda>(k, v). bucket_of k = b) flat)" and
    s': "shadows c' = shadows c1"
    by blast
  have "for_each_entry (e # flat) c = Inr c'"
    unfolding e using c1 c' by simp
  moreover have "map Inr (bucket_lines c' b)
             = map Inr (bucket_lines c b)
               @ map (\<lambda>(k, v). cssVar k v) (filter (\<lambda>(k, v). bucket_of k = b) (e # flat))" for b
    unfolding e by (simp add: b' b1 line)
  moreover have "shadows c' = shadows c" using s' s1 by simp
  ultimately show ?case by blast
qed

lemma for_each_entry_unprintable:
  "\<not> list_all (\<lambda>(k, v). printable v) flat \<Longrightarrow> for_each_entry flat c = Inl TypeError"
proof (induction flat arbitrary: c)
  case Nil
  then show ?case by simp
next
  case (Cons e flat)
  obtain k v where e: "e = (k, v)" by (cases e)
  show ?case
  proof (cases "printable v")
    case False
    then show ?thesis
      unfolding e using cssVar_printable(2)[of v k] by (simp add: push_category_def)
  next
    case True
    with Cons.prems have rest: "\<not> list_all (\<lambda>(k, v). printable v) flat"
      unfolding e by simp
    from cssVar_printable(1)[OF True] obtain line where line: "cssVar k v = Inr line" by blast
    from push_category_line[OF line, of c] obtain c1 where
      c1: "push_category c (k, v) = Inr c1" by blast
    show ?thesis unfolding e using c1 Cons.IH[OF rest, of c1] by simp
  qed
qed

lemma bucket_count:
  "(\<Sum>b \<leftarrow> [Colors, Typography, Spacing, BordersShadows, Transitions, Other].
      length (filter (\<lambda>(k, v). bucket_of k = b) flat)) = length flat"
proof (induction flat)
  case Nil
  show ?case by simp
next
  case (Cons e flat)
  obtain k v where e: "e = (k, v)" by (cases e)
  show ?case using Cons.IH unfolding e by (cases "bucket_of k") simp_all
qed

subsection \<open>The Orchestrator\<close>

text \<open>
  The list \<^verbatim>\<open>results\<close> after the \<^verbatim>\<open>forEach\<close>: one artifact per generator, in order, each
  determined by its own generator and its own write.
\<close>

lemma run_generator_snd:
  "snd (run_generator e variables st (fw, G)) =
     snd st @ [(\<lambda>(fw, G).
            case G (clock e fw) variables of
              Inl err \<Rightarrow> \<lparr>framework = fw, success = False, path = None, failure = Some err\<rparr>
            | Inr content \<Rightarrow>
                if writable e (outputPath e fw)
                then \<lparr>framework = fw, success = True, path = Some (outputPath e fw),
                       failure = None\<rparr>
                else \<lparr>framework = fw, success = False, path = None,
                       failure = Some SystemError\<rparr>) (fw, G)]"
  by (cases st) (auto simp: run_generator_def split: sum.splits)

lemma run_generators_results:
  "snd (foldl (run_generator e variables) st gs) =
     snd st @ map (\<lambda>(fw, G).
            case G (clock e fw) variables of
              Inl err \<Rightarrow> \<lparr>framework = fw, success = False, path = None, failure = Some err\<rparr>
            | Inr content \<Rightarrow>
                if writable e (outputPath e fw)
                then \<lparr>framework = fw, success = True, path = Some (outputPath e fw),
                       failure = None\<rparr>
                else \<lparr>framework = fw, success = False, path = None,
                       failure = Some SystemError\<rparr>) gs"
proof (induction gs arbitrary: st)
  case Nil
  show ?case by simp
next
  case (Cons g gs)
  obtain fw G where g: "g = (fw, G)" by (cases g)
  show ?case
    unfolding g by (simp add: Cons.IH run_generator_snd)
qed

lemma run_generators_fields:
  "map framework (snd (foldl (run_generator e variables) (files, []) gs)) = map fst gs"
  "map success (snd (foldl (run_generator e variables) (files, []) gs)) =
     map (\<lambda>(fw, G). \<not> isl (G (clock e fw) variables) \<and> writable e (outputPath e fw)) gs"
  "map failure (snd (foldl (run_generator e variables) (files, []) gs)) =
     map (\<lambda>(fw, G). case G (clock e fw) variables of
                       Inl err \<Rightarrow> Some err
                     | Inr content \<Rightarrow>
                         if writable e (outputPath e fw) then None else Some SystemError) gs"
  by (auto simp: run_generators_results split: sum.splits if_splits)

lemma count_failed:
  "map success rs = map S gs \<Longrightarrow>
   length (filter (\<lambda>r. \<not> success r) rs) = length (filter (\<lambda>g. \<not> S g) gs)"
proof (induction rs arbitrary: gs)
  case Nil
  then show ?case by simp
next
  case (Cons r rs)
  then obtain g gs' where gs: "gs = g # gs'" by (cases gs) auto
  with Cons.prems have "success r = S g" "map success rs = map S gs'" by simp_all
  then show ?case using Cons.IH[of gs'] unfolding gs by simp
qed

lemma count_succeeded:
  "length (filter success rs) = length rs - length (filter (\<lambda>r. \<not> success r) rs)"
  using sum_length_filter_compl[of success rs] by simp

text \<open>
  On the empty token document every stylesheet generator returns, and the Tailwind generator
  raises a \<^verbatim>\<open>TypeError\<close> (it reads \<^verbatim>\<open>variables.colors.primary\<close>).
\<close>

lemma empty_document:
  "\<not> isl (generateBaseCSS now [])"
  "\<not> isl (generateSlidevCSS now [])"
  "\<not> isl (generateRevealCSS now [])"
  "\<not> isl (generateWebSlidesCSS now [])"
  "generateTailwindConfig now [] = Inl TypeError"
  by (simp_all add: generateBaseCSS_def flattenObject_def categorize_def generateSlidevCSS_def
      generateRevealCSS_def generateWebSlidesCSS_def slidev_dimension_def slide_padding_def
      blockquote_borderWidth_def or_else_def opt_prop_def generateTailwindConfig_def
      tailwind_config_def config_prsm_def get_prop_def)

lemma map_Inr_lines: "map Inr xs = ls \<Longrightarrow> ls = map Inr ys \<Longrightarrow> xs = ys"
  by auto

text \<open>
  A token document with the objects that the Tailwind generator reads, on which every
  generator returns; and the same document with a Slidev padding that cannot be printed, on
  which the Slidev generator alone raises an exception.
\<close>

lemma minimal_document:
  "\<not> isl (generateBaseCSS now
      [(''colors'', JObject []),
       (''typography'', JObject [(''fontFamily'', JObject []), (''fontSize'', JObject [])])])"
  "\<not> isl (generateSlidevCSS now
      [(''colors'', JObject []),
       (''typography'', JObject [(''fontFamily'', JObject []), (''fontSize'', JObject [])])])"
  "\<not> isl (generateRevealCSS now
      [(''colors'', JObject []),
       (''typography'', JObject [(''fontFamily'', JObject []), (''fontSize'', JObject [])])])"
  "\<not> isl (generateWebSlidesCSS now
      [(''colors'', JObject []),
       (''typography'', JObject [(''fontFamily'', JObject []), (''fontSize'', JObject [])])])"
  "\<not> isl (generateTailwindConfig now
      [(''colors'', JObject []),
       (''typography'', JObject [(''fontFamily'', JObject []), (''fontSize'', JObject [])])])"
  by (simp_all add: generateBaseCSS_def flat_eval categorize_def generateSlidevCSS_def
      generateRevealCSS_def generateWebSlidesCSS_def slidev_dimension_def slide_padding_def
      blockquote_borderWidth_def or_else_def opt_prop_def generateTailwindConfig_def
      tailwind_config_def config_prsm_def config_fontFamily_def config_fontSize_def get_prop_def
      object_entries_def spread_def defined_def from_entries_def)

lemma slidev_padding_document:
  "\<not> isl (generateBaseCSS now
      [(''colors'', JObject []),
       (''typography'', JObject [(''fontFamily'', JObject []), (''fontSize'', JObject [])]),
       (''slide'', JObject [(''padding'', JObject
          [(''slidev'', JObject [(''toString'', JString ''40px'')])])])])"
  "generateSlidevCSS now
      [(''colors'', JObject []),
       (''typography'', JObject [(''fontFamily'', JObject []), (''fontSize'', JObject [])]),
       (''slide'', JObject [(''padding'', JObject
          [(''slidev'', JObject [(''toString'', JString ''40px'')])])])] = Inl TypeError"
  "\<not> isl (generateRevealCSS now
      [(''colors'', JObject []),
       (''typography'', JObject [(''fontFamily'', JObject []), (''fontSize'', JObject [])]),
       (''slide'', JObject [(''padding'', JObject
          [(''slidev'', JObject [(''toString'', JString ''40px'')])])])])"
  "\<not> isl (generateWebSlidesCSS now
      [(''colors'', JObject []),
       (''typography'', JObject [(''fontFamily'', JObject []), (''fontSize'', JObject [])]),
       (''slide'', JObject [(''padding'', JObject
          [(''slidev'', JObject [(''toString'', JString ''40px'')])])])])"
  "\<not> isl (generateTailwindConfig now
      [(''colors'', JObject []),
       (''typography'', JObject [(''fontFamily'', JObject []), (''fontSize'', JObject [])]),
       (''slide'', JObject [(''padding'', JObject
          [(''slidev'', JObject [(''toString'', JString ''40px'')])])])])"
  by (simp_all add: generateBaseCSS_def flat_eval categorize_def push_category_def cssVar_def
      generateSlidevCSS_def
      generateRevealCSS_def generateWebSlidesCSS_def slidev_dimension_def slide_padding_def
      blockquote_borderWidth_def or_else_def opt_prop_def generateTailwindConfig_def
      tailwind_config_def config_prsm_def config_fontFamily_def config_fontSize_def get_prop_def
      object_entries_def spread_def defined_def from_entries_def)

section \<open>The claims\<close>

text \<open>
  Claim C1, as amended. Every generator prints the time of its run into the header of its
  output, so two compilations of one token document give artifacts that are identical except
  for that timestamp: each of the five outputs is a fixed prefix, the time, and a remainder
  that depends on the document only, and a generator that fails does so at every time.
\<close>

theorem artifacts_identical_up_to_timestamp:
  "stamped generateBaseCSS \<and> stamped generateSlidevCSS \<and> stamped generateRevealCSS
   \<and> stamped generateWebSlidesCSS \<and> stamped generateTailwindConfig"
  by (intro conjI stamped_base stamped_slidev stamped_reveal stamped_webslides stamped_tailwind)

text \<open>
  The claim itself asks for byte-identical artifacts; two runs one second apart differ, on
  the empty document already.
\<close>

theorem timestamp_counterexample:
  "generateBaseCSS ''2025-12-30T01:21:55.091Z'' [] \<noteq> generateBaseCSS ''2025-12-30T01:21:56.091Z'' []
   \<and> generateSlidevCSS ''2025-12-30T01:21:55.091Z'' [] \<noteq> generateSlidevCSS ''2025-12-30T01:21:56.091Z'' []"
  by (simp add: generateBaseCSS_def flattenObject_def categorize_def base_header_def
      generateSlidevCSS_def slidev_dimension_def slide_padding_def blockquote_borderWidth_def
      or_else_def opt_prop_def slidev_header_def unlines_def)

text \<open>
  Claim C2, as amended. The Flattener has no check for arrays and no error of its own. The
  visit of a key that holds an array (whatever its elements) writes nothing and raises
  nothing: flattening an object, under any prefix, gives the same result as flattening it
  without that key. An array is nevertheless copied unchecked into the flattened map when it
  is the \<^verbatim>\<open>DEFAULT\<close> value of a nested object that the keys \<open>ks\<close> lead to (the last key is
  no metadata key, the object has no \<^verbatim>\<open>value\<close> key holding a string, the path starts with
  a non-empty key or prefix and is not \<^verbatim>\<open>__proto__\<close>, flattening raises no error): it is
  then the entry at the path of that object. The only exception that the Flattener raises is
  a \<^verbatim>\<open>TypeError\<close>, and it raises it exactly when the document holds, below keys and objects
  that the Flattener descends into, a \<^verbatim>\<open>fontFamily\<close> object without a \<^verbatim>\<open>DEFAULT\<close> key and
  without a \<^verbatim>\<open>value\<close> key holding a string, one of whose entries is an array with an element
  that is neither a string nor an array that prints; \<^verbatim>\<open>generateBaseCSS\<close> then fails with
  that \<^verbatim>\<open>TypeError\<close>.
\<close>

theorem array_dropped_promoted_or_type_error:
  "flattenObject (xs @ (key, JArray a) # ys) prefix = flattenObject (xs @ ys) prefix
   \<and> (reached doc ks = Some (JObject fs) \<and> \<not> startsWith (last ks) ''$''
        \<and> \<not> is_value_string fs \<and> map_of fs ''DEFAULT'' = Some (JArray a)
        \<and> pre_of prefix @ hd ks \<noteq> [] \<and> path_from prefix ks \<noteq> ''__proto__''
        \<and> flattenObject doc prefix = Inr flat
      \<longrightarrow> map_of flat (path_from prefix ks) = Some (JArray a))
   \<and> (holds_bad_fonts doc
      \<longrightarrow> flattenObject doc prefix = Inl TypeError \<and> generateBaseCSS now doc = Inl TypeError)
   \<and> (\<not> holds_bad_fonts doc \<longrightarrow> (\<exists>flat. flattenObject doc prefix = Inr flat))"
proof (intro conjI impI)
  show "flattenObject (xs @ (key, JArray a) # ys) prefix = flattenObject (xs @ ys) prefix"
    by (simp add: flattenObject_def flatten_keys_append flatten_key.simps split: sum.splits)
next
  assume h: "reached doc ks = Some (JObject fs) \<and> \<not> startsWith (last ks) ''$''
        \<and> \<not> is_value_string fs \<and> map_of fs ''DEFAULT'' = Some (JArray a)
        \<and> pre_of prefix @ hd ks \<noteq> [] \<and> path_from prefix ks \<noteq> ''__proto__''
        \<and> flattenObject doc prefix = Inr flat"
  then have "reached doc ks = Some (JObject fs)" "\<not> startsWith (last ks) ''$''"
    "\<not> is_value_string fs" "map_of fs ''DEFAULT'' = Some (JArray a)"
    "pre_of prefix @ hd ks \<noteq> []" "flattenObject doc prefix = Inr flat"
    "path_from prefix ks \<noteq> ''__proto__''"
    by simp_all
  then show "map_of flat (path_from prefix ks) = Some (JArray a)"
    by (rule reached_group(1))
next
  assume b: "holds_bad_fonts doc"
  have raise: "flattenObject doc p = Inl TypeError" for p
  proof -
    from b have "isl (flatten_keys p doc [])" by (simp add: flatten_isl(1))
    then obtain e where e: "flatten_keys p doc [] = Inl e"
      by (cases "flatten_keys p doc []") simp_all
    from flatten_error(1)[OF e] e show ?thesis by (simp add: flattenObject_def)
  qed
  show "flattenObject doc prefix = Inl TypeError" by (rule raise)
  show "generateBaseCSS now doc = Inl TypeError" by (simp add: generateBaseCSS_def raise)
next
  assume "\<not> holds_bad_fonts doc"
  then have "\<not> isl (flatten_keys prefix doc [])" by (simp add: flatten_isl(1))
  then show "\<exists>flat. flattenObject doc prefix = Inr flat"
    by (cases "flatten_keys prefix doc []") (simp_all add: flattenObject_def)
qed

theorem array_dropped_promoted_or_type_error_witness:
  "flattenObject
      ([] @ (''shadows'', JArray [JNumber ''1'', JNumber ''2'']) # [(''gap'', JString ''8px'')]) []
     = Inr [(''gap'', JString ''8px'')]
   \<and> \<not> startsWith (last [''borders'', ''radius'']) ''$''
   \<and> \<not> is_value_string [(''DEFAULT'', JArray [JNumber ''1'', JNumber ''2'']), (''sm'', JString ''2px'')]
   \<and> pre_of [] @ hd [''borders'', ''radius''] \<noteq> []
   \<and> path_from [] [''borders'', ''radius''] = ''borders-radius''
   \<and> flattenObject
        [(''borders'', JObject [(''radius'', JObject
           [(''DEFAULT'', JArray [JNumber ''1'', JNumber ''2'']), (''sm'', JString ''2px'')])])] []
       = Inr [(''borders-radius'', JArray [JNumber ''1'', JNumber ''2'']),
              (''borders-radius-sm'', JString ''2px'')]
   \<and> map_of [(''borders-radius'', JArray [JNumber ''1'', JNumber ''2'']),
              (''borders-radius-sm'', JString ''2px'')] ''borders-radius''
       = Some (JArray [JNumber ''1'', JNumber ''2''])
   \<and> flattenObject
        [(''typography'', JObject [(''fontFamily'', JObject
           [(''sans'', JArray [JString ''Inter'', JNumber ''1''])])])] []
       = Inl TypeError
   \<and> generateBaseCSS ''2025-12-30T01:21:55.091Z''
        [(''typography'', JObject [(''fontFamily'', JObject
           [(''sans'', JArray [JString ''Inter'', JNumber ''1''])])])]
       = Inl TypeError
   \<and> (\<exists>flat. flattenObject
        [(''typography'', JObject [(''fontFamily'', JObject
           [(''sans'', JArray [JString ''Inter'', JString ''system-ui''])])])] []
       = Inr flat)"
proof -
  let ?G = "[(''DEFAULT'', JArray [JNumber ''1'', JNumber ''2'']), (''sm'', JString ''2px'')]"
  let ?ks = "[''borders'', ''radius'']"
  let ?doc = "[(''borders'', JObject [(''radius'', JObject ?G)])]"
  let ?F = "[(''borders-radius'', JArray [JNumber ''1'', JNumber ''2'']),
              (''borders-radius-sm'', JString ''2px'')]"
  let ?bad = "[(''typography'', JObject [(''fontFamily'', JObject
           [(''sans'', JArray [JString ''Inter'', JNumber ''1''])])])]"
  let ?good = "[(''typography'', JObject [(''fontFamily'', JObject
           [(''sans'', JArray [JString ''Inter'', JString ''system-ui''])])])]"
  have g: "flattenObject ([] @ [(''gap'', JString ''8px'')]) [] = Inr [(''gap'', JString ''8px'')]"
    by (simp add: flat_eval)
  have a: "flattenObject
      ([] @ (''shadows'', JArray [JNumber ''1'', JNumber ''2'']) # [(''gap'', JString ''8px'')]) []
     = Inr [(''gap'', JString ''8px'')]"
    using array_dropped_promoted_or_type_error[of "[]" "''shadows''"
        "[JNumber ''1'', JNumber ''2'']" "[(''gap'', JString ''8px'')]" "[]"]
    unfolding g by blast
  have r: "reached ?doc ?ks = Some (JObject ?G)"
    by (simp add: apart_def descended_def startsWith_def is_value_string_def has_key_def)
  have h1: "\<not> startsWith (last ?ks) ''$''" by (simp add: startsWith_def)
  have h2: "\<not> is_value_string ?G" by (simp add: is_value_string_def)
  have h3: "map_of ?G ''DEFAULT'' = Some (JArray [JNumber ''1'', JNumber ''2''])" by simp
  have h4: "pre_of [] @ hd ?ks \<noteq> []" by (simp add: pre_of_def)
  have p: "path_from [] ?ks = ''borders-radius''" by (simp add: path_from_def pre_of_def)
  have h5: "path_from [] ?ks \<noteq> ''__proto__''" unfolding p by simp
  have f: "flattenObject ?doc [] = Inr ?F" by (simp add: flat_eval)
  have b: "map_of ?F ''borders-radius'' = Some (JArray [JNumber ''1'', JNumber ''2''])"
    using array_dropped_promoted_or_type_error[of "[]" "''x''" "[JNumber ''1'', JNumber ''2'']"
        "[]" "[]" ?doc ?ks ?G ?F] r h1 h2 h3 h4 h5 f
    unfolding p by blast
  have hb: "holds_bad_fonts ?bad"
    by (simp add: startsWith_def is_value_string_def has_key_def bad_fonts_def bad_font_def
        lacks_includes_def)
  have c: "flattenObject ?bad [] = Inl TypeError
      \<and> generateBaseCSS ''2025-12-30T01:21:55.091Z'' ?bad = Inl TypeError"
    using array_dropped_promoted_or_type_error[of "[]" "''x''" "[]" "[]" "[]" ?bad]
      hb by blast
  have hg: "\<not> holds_bad_fonts ?good"
    by (simp add: startsWith_def is_value_string_def has_key_def bad_fonts_def bad_font_def
        lacks_includes_def)
  have d: "\<exists>flat. flattenObject ?good [] = Inr flat"
    using array_dropped_promoted_or_type_error[of "[]" "''x''" "[]" "[]" "[]" ?good]
      hg by blast
  from c have c1: "flattenObject ?bad [] = Inl TypeError"
    and c2: "generateBaseCSS ''2025-12-30T01:21:55.091Z'' ?bad = Inl TypeError"
    by simp_all
  from a h1 h2 h4 p f b c1 c2 d show ?thesis by (intro conjI)
qed

text \<open>
  The claim itself asks for an explicit error on an array of numbers. The Flattener returns
  the empty map for such an array under a key and raises nothing; under \<^verbatim>\<open>DEFAULT\<close> it
  copies the array, which the base stylesheet then prints joined by commas.
\<close>

theorem array_no_error_counterexample:
  "flattenObject [(''shadows'', JArray [JNumber ''1'', JNumber ''2''])] [] = Inr []
   \<and> flattenObject [(''radius'', JObject [(''DEFAULT'', JArray [JNumber ''1'', JNumber ''2''])])] []
       = Inr [(''radius'', JArray [JNumber ''1'', JNumber ''2''])]
   \<and> cssVar ''radius'' (JArray [JNumber ''1'', JNumber ''2'']) = Inr ''  --prsm-radius: 1,2;''"
  by (simp add: flat_eval cssVar_def)

text \<open>
  Claim C3. The \<^verbatim>\<open>$\<close> test sits inside the branch for nested objects, so a metadata key
  that holds a string or a number takes the scalar branch and is emitted.
\<close>

theorem metadata_scalar_emitted:
  "flattenObject [(''$version'', JString ''1.0.0'')] [] = Inr [(''$version'', JString ''1.0.0'')]"
  by (simp add: flat_eval)

text \<open>
  Claim C4. On a font list the read path recurses into the array and emits one entry per
  index, where the build path emits one joined entry.
\<close>

theorem read_path_differs:
  "getCSSVariables
     (Some [(''typography'', JObject [(''fontFamily'', JObject
        [(''sans'', JArray [JString ''Inter'', JString ''system-ui''])])])])
     = [(''--prsm-typography-fontFamily-sans-0'', JString ''Inter''),
        (''--prsm-typography-fontFamily-sans-1'', JString ''system-ui'')]
   \<and> flattenObject
       [(''typography'', JObject [(''fontFamily'', JObject
          [(''sans'', JArray [JString ''Inter'', JString ''system-ui''])])])] []
     = Inr [(''typography-fontFamily-sans'', JString ''Inter, system-ui'')]"
  by (simp add: flat_eval getCSSVariables_def)

text \<open>
  Claim C5, as amended. For every key that is no metadata key and whose nested object has a
  \<^verbatim>\<open>value\<close> key holding a string (whatever its other keys), the Flattener collapses the
  object to that string and does not descend into it: wherever the key stands in its parent,
  flattening gives the same result as with the string itself in place of the object, and
  flattening the object alone gives the one entry at the parent path.
\<close>

theorem value_wrapper_collapsed:
  assumes "\<not> startsWith key ''$''" and "map_of fs ''value'' = Some (JString s)"
  shows "flattenObject (xs @ (key, JObject fs) # ys) prefix
           = flattenObject (xs @ (key, JString s) # ys) prefix
         \<and> flattenObject [(key, JObject fs)] prefix
           = Inr (assign_prop (pre_of prefix @ key) (JString s) [])"
  using assms
  by (simp add: flattenObject_def flatten_keys_append flatten_key.simps has_key_def
      is_value_string_def split: sum.splits)

theorem value_wrapper_collapsed_witness:
  "\<not> startsWith ''base'' ''$''
   \<and> map_of [(''value'', JString ''1rem''), (''lineHeight'', JString ''1.5'')] ''value''
       = Some (JString ''1rem'')
   \<and> flattenObject
        ([(''xs'', JString ''0.75rem'')]
         @ (''base'', JObject [(''value'', JString ''1rem''), (''lineHeight'', JString ''1.5'')])
         # [(''lg'', JString ''1.125rem'')])
        ''fontSize''
      = Inr [(''fontSize-xs'', JString ''0.75rem''), (''fontSize-base'', JString ''1rem''),
             (''fontSize-lg'', JString ''1.125rem'')]
   \<and> flattenObject
        [(''base'', JObject [(''value'', JString ''1rem''), (''lineHeight'', JString ''1.5'')])]
        ''fontSize''
      = Inr [(''fontSize-base'', JString ''1rem'')]"
proof -
  have h1: "\<not> startsWith ''base'' ''$''" by (simp add: startsWith_def)
  have h2: "map_of [(''value'', JString ''1rem''), (''lineHeight'', JString ''1.5'')] ''value''
       = Some (JString ''1rem'')" by simp
  have s: "flattenObject
        ([(''xs'', JString ''0.75rem'')] @ (''base'', JString ''1rem'')
         # [(''lg'', JString ''1.125rem'')]) ''fontSize''
      = Inr [(''fontSize-xs'', JString ''0.75rem''), (''fontSize-base'', JString ''1rem''),
             (''fontSize-lg'', JString ''1.125rem'')]"
    by (simp add: flat_eval)
  have a: "assign_prop (pre_of ''fontSize'' @ ''base'') (JString ''1rem'') []
      = [(''fontSize-base'', JString ''1rem'')]"
    by (simp add: flat_eval)
  from value_wrapper_collapsed[OF h1 h2, of "[(''xs'', JString ''0.75rem'')]"
      "[(''lg'', JString ''1.125rem'')]" "''fontSize''"]
  show ?thesis using h1 h2 unfolding s a by blast
qed

text \<open>
  The claim itself covers a \<^verbatim>\<open>value\<close> that holds a number; such an object is not collapsed
  but flattened like any other nested object.
\<close>

theorem value_wrapper_number_counterexample:
  "flattenObject [(''size'', JObject [(''value'', JNumber ''16'')])] []
     = Inr [(''size-value'', JNumber ''16'')]"
  by (simp add: flat_eval)

text \<open>
  Claim C6, as amended. Let the keys \<open>ks\<close> lead from the token document (or from any object
  flattened under a prefix) to a nested object with a \<^verbatim>\<open>DEFAULT\<close> key and no \<^verbatim>\<open>value\<close> key
  holding a string: the Flattener descends into every object on the way, and on every level
  no later key of the same object collides with the key that is followed (none is empty,
  extends it by a dash and more, or is extended so by it). Let the last key be no metadata
  key, the path \<open>p\<close> of the keys start with a non-empty key (or prefix) and not be
  \<^verbatim>\<open>__proto__\<close>, and the keys of the object be distinct. Then, when flattening raises no
  error, the flattened map of the document has at \<open>p\<close> the \<^verbatim>\<open>DEFAULT\<close> value and, for
  every sibling key \<open>k\<close> without a dash that holds a string or a number, at \<open>p-k\<close> the
  sibling's value.
\<close>

theorem defaultable_group_entries:
  assumes "reached doc ks = Some (JObject fs)"
    and "\<not> startsWith (last ks) ''$''" and "\<not> is_value_string fs"
    and "map_of fs ''DEFAULT'' = Some d" and "distinct (map fst fs)"
    and "pre_of prefix @ hd ks \<noteq> []" and "path_from prefix ks \<noteq> ''__proto__''"
    and "flattenObject doc prefix = Inr flat"
  shows "map_of flat (path_from prefix ks) = Some d
         \<and> (\<forall>(k, v) \<in> set fs. is_scalar v \<and> CHR ''-'' \<notin> set k
               \<longrightarrow> map_of flat (path_from prefix ks @ ''-'' @ k) = Some v)"
proof -
  have "map_of flat (path_from prefix ks) = Some d"
    by (rule reached_group(1)[OF assms(1-4,6,8,7)])
  moreover have "map_of flat (path_from prefix ks @ ''-'' @ k) = Some v"
    if "(k, v) \<in> set fs" "is_scalar v" "CHR ''-'' \<notin> set k" for k v
    by (rule reached_group(2)[OF assms(1-4,6,8,5) that])
  ultimately show ?thesis by auto
qed

theorem defaultable_group_entries_witness:
  "\<not> startsWith (last [''colors'', ''primary'']) ''$''
   \<and> \<not> is_value_string [(''500'', JString ''#0057e6''), (''DEFAULT'', JString ''#0057e6'')]
   \<and> map_of [(''500'', JString ''#0057e6''), (''DEFAULT'', JString ''#0057e6'')] ''DEFAULT''
       = Some (JString ''#0057e6'')
   \<and> distinct (map fst [(''500'', JString ''#0057e6''), (''DEFAULT'', JString ''#0057e6'')])
   \<and> pre_of [] @ hd [''colors'', ''primary''] \<noteq> []
   \<and> path_from [] [''colors'', ''primary''] = ''colors-primary''
   \<and> flattenObject
        [(''colors'', JObject [(''primary'', JObject
           [(''500'', JString ''#0057e6''), (''DEFAULT'', JString ''#0057e6'')])])] []
       = Inr [(''colors-primary'', JString ''#0057e6''),
              (''colors-primary-500'', JString ''#0057e6''),
              (''colors-primary-DEFAULT'', JString ''#0057e6'')]
   \<and> map_of [(''colors-primary'', JString ''#0057e6''),
              (''colors-primary-500'', JString ''#0057e6''),
              (''colors-primary-DEFAULT'', JString ''#0057e6'')] ''colors-primary''
       = Some (JString ''#0057e6'')
   \<and> map_of [(''colors-primary'', JString ''#0057e6''),
              (''colors-primary-500'', JString ''#0057e6''),
              (''colors-primary-DEFAULT'', JString ''#0057e6'')] ''colors-primary-500''
       = Some (JString ''#0057e6'')
   \<and> flattenObject
        [(''colors'', JObject
            [(''primary'', JObject [(''500'', JString ''#0057e6''), (''DEFAULT'', JString ''#0057e6'')]),
             (''secondary'', JObject [(''500'', JString ''#5c00e6''), (''DEFAULT'', JString ''#5c00e6'')])]),
         (''spacing'', JObject [(''md'', JString ''8px'')])] []
       = Inr [(''colors-primary'', JString ''#0057e6''),
              (''colors-primary-500'', JString ''#0057e6''),
              (''colors-primary-DEFAULT'', JString ''#0057e6''),
              (''colors-secondary'', JString ''#5c00e6''),
              (''colors-secondary-500'', JString ''#5c00e6''),
              (''colors-secondary-DEFAULT'', JString ''#5c00e6''),
              (''spacing-md'', JString ''8px'')]
   \<and> map_of [(''colors-primary'', JString ''#0057e6''),
              (''colors-primary-500'', JString ''#0057e6''),
              (''colors-primary-DEFAULT'', JString ''#0057e6''),
              (''colors-secondary'', JString ''#5c00e6''),
              (''colors-secondary-500'', JString ''#5c00e6''),
              (''colors-secondary-DEFAULT'', JString ''#5c00e6''),
              (''spacing-md'', JString ''8px'')] ''colors-primary''
       = Some (JString ''#0057e6'')"
proof -
  let ?G = "[(''500'', JString ''#0057e6''), (''DEFAULT'', JString ''#0057e6'')]"
  let ?ks = "[''colors'', ''primary'']"
  let ?doc = "[(''colors'', JObject [(''primary'', JObject ?G)])]"
  let ?F = "[(''colors-primary'', JString ''#0057e6''),
              (''colors-primary-500'', JString ''#0057e6''),
              (''colors-primary-DEFAULT'', JString ''#0057e6'')]"
  let ?doc2 = "[(''colors'', JObject
            [(''primary'', JObject ?G),
             (''secondary'', JObject [(''500'', JString ''#5c00e6''), (''DEFAULT'', JString ''#5c00e6'')])]),
         (''spacing'', JObject [(''md'', JString ''8px'')])]"
  let ?F2 = "[(''colors-primary'', JString ''#0057e6''),
              (''colors-primary-500'', JString ''#0057e6''),
              (''colors-primary-DEFAULT'', JString ''#0057e6''),
              (''colors-secondary'', JString ''#5c00e6''),
              (''colors-secondary-500'', JString ''#5c00e6''),
              (''colors-secondary-DEFAULT'', JString ''#5c00e6''),
              (''spacing-md'', JString ''8px'')]"
  have r: "reached ?doc ?ks = Some (JObject ?G)"
    by (simp add: apart_def descended_def startsWith_def is_value_string_def has_key_def)
  have r2: "reached ?doc2 ?ks = Some (JObject ?G)"
    by (simp add: apart_def under_def descended_def startsWith_def is_value_string_def has_key_def)
  have h1: "\<not> startsWith (last ?ks) ''$''" by (simp add: startsWith_def)
  have h2: "\<not> is_value_string ?G" by (simp add: is_value_string_def)
  have h3: "map_of ?G ''DEFAULT'' = Some (JString ''#0057e6'')" by simp
  have h4: "distinct (map fst ?G)" by simp
  have h5: "pre_of [] @ hd ?ks \<noteq> []" by (simp add: pre_of_def)
  have p: "path_from [] ?ks = ''colors-primary''" by (simp add: path_from_def pre_of_def)
  have h6: "path_from [] ?ks \<noteq> ''__proto__''" unfolding p by simp
  have f: "flattenObject ?doc [] = Inr ?F" by (simp add: flat_eval)
  have f2: "flattenObject ?doc2 [] = Inr ?F2" by (simp add: flat_eval)
  from defaultable_group_entries[OF r h1 h2 h3 h4 h5 h6 f]
  have c1: "map_of ?F (path_from [] ?ks) = Some (JString ''#0057e6'')"
    and c2: "\<forall>(k, v) \<in> set ?G. is_scalar v \<and> CHR ''-'' \<notin> set k
        \<longrightarrow> map_of ?F (path_from [] ?ks @ ''-'' @ k) = Some v"
    by blast+
  from c2 have c3: "map_of ?F ''colors-primary-500'' = Some (JString ''#0057e6'')"
    unfolding p by (simp add: is_scalar_def)
  from defaultable_group_entries[OF r2 h1 h2 h3 h4 h5 h6 f2]
  have c4: "map_of ?F2 (path_from [] ?ks) = Some (JString ''#0057e6'')"
    by blast
  from h1 h2 h3 h4 h5 p f c1[unfolded p] c3 f2 c4[unfolded p] show ?thesis
    by (intro conjI)
qed

text \<open>
  The claim itself speaks of every nested object with a \<^verbatim>\<open>DEFAULT\<close> key; one that also has
  a \<^verbatim>\<open>value\<close> holding a string is collapsed to that string, and neither the
  \<^verbatim>\<open>DEFAULT\<close> value nor any sibling is emitted.
\<close>

theorem defaultable_group_wrapper_counterexample:
  "flattenObject [(''size'', JObject [(''value'', JString ''16px''), (''DEFAULT'', JString ''1rem'')])] []
     = Inr [(''size'', JString ''16px'')]"
  by (simp add: flat_eval)

text \<open>
  Claim C7, as amended. For every \<^verbatim>\<open>fontFamily\<close> object without a \<^verbatim>\<open>DEFAULT\<close> key
  whose entries are sequences of font names, the Flattener emits exactly one entry per
  entry key, in order, whose value is the sequence joined by a comma and a space, with
  exactly the names that contain a space wrapped in double quotes; and these entries are in
  the flattened map of every parent whose later keys are apart from \<^verbatim>\<open>fontFamily\<close>.
\<close>

theorem font_family_joined:
  assumes "''DEFAULT'' \<notin> fst ` set g" and "distinct (map fst g)"
  shows "flattenObject [(''fontFamily'', JObject (font_group g))] prefix
           = Inr (map (\<lambda>(k, names).
                   (pre_of prefix @ ''fontFamily-'' @ k, JString (font_list names))) g)
         \<and> (\<forall>flat. apart ''fontFamily'' ys
                \<and> flattenObject (xs @ (''fontFamily'', JObject (font_group g)) # ys) prefix
                    = Inr flat
              \<longrightarrow> (\<forall>(k, names) \<in> set g.
                     map_of flat (pre_of prefix @ ''fontFamily-'' @ k)
                       = Some (JString (font_list names))))"
proof (intro conjI allI impI)
  have "font_entries (pre_of prefix @ ''fontFamily'') (font_group g) [] =
      Inr ([] @ map (\<lambda>(k, names). ((pre_of prefix @ ''fontFamily'') @ ''-'' @ k,
         JString (font_list names))) g)"
    by (rule font_entries_group[OF assms(2)]) simp
  then show "flattenObject [(''fontFamily'', JObject (font_group g))] prefix
           = Inr (map (\<lambda>(k, names).
                   (pre_of prefix @ ''fontFamily-'' @ k, JString (font_list names))) g)"
    using font_group_no_default[OF assms(1)] font_group_no_value_string[of g]
    by (simp add: flattenObject_def flatten_key.simps startsWith_def)
next
  fix flat
  assume h: "apart ''fontFamily'' ys
     \<and> flattenObject (xs @ (''fontFamily'', JObject (font_group g)) # ys) prefix = Inr flat"
  let ?p = "pre_of prefix @ ''fontFamily''"
  from h have ap: "apart ''fontFamily'' ys"
    and f: "flattenObject (xs @ (''fontFamily'', JObject (font_group g)) # ys) prefix = Inr flat"
    by simp_all
  from visit_survives[OF f ap] obtain a1 a2 where
    a2: "flatten_key prefix ''fontFamily'' (JObject (font_group g)) a1 = Inr a2" and
    keep: "\<And>q. under ?p q \<Longrightarrow> map_of flat q = map_of a2 q"
    by blast
  have eq: "a2 = object_assign a1
      (map (\<lambda>(k, names). (?p @ ''-'' @ k, JString (font_list names))) g)"
    using a2 font_group_no_default[OF assms(1)] font_group_no_value_string[of g]
    by (simp add: flatten_key.simps startsWith_def font_entries_assign)
  have "map_of flat (?p @ ''-'' @ k) = Some (JString (font_list names))"
    if "(k, names) \<in> set g" for k names
    using keep[OF under_dash] font_entry_assigned[OF assms(2) that, of a1 ?p]
    by (simp add: eq)
  then show "\<forall>(k, names) \<in> set g.
       map_of flat (pre_of prefix @ ''fontFamily-'' @ k) = Some (JString (font_list names))"
    by auto
qed

theorem font_family_joined_witness:
  "''DEFAULT'' \<notin> fst ` set [(''sans'', [''Inter'', ''Segoe UI'', ''system-ui''])]
   \<and> distinct (map fst [(''sans'', [''Inter'', ''Segoe UI'', ''system-ui''])])
   \<and> flattenObject
       [(''fontFamily'', JObject [(''sans'',
           JArray [JString ''Inter'', JString ''Segoe UI'', JString ''system-ui''])])]
       ''typography''
     = Inr [(''typography-fontFamily-sans'', JString ''Inter, \"Segoe UI\", system-ui'')]
   \<and> flattenObject
       ([] @ (''fontFamily'', JObject [(''sans'',
           JArray [JString ''Inter'', JString ''Segoe UI'', JString ''system-ui''])])
        # [(''fontSize'', JObject [(''base'', JString ''1rem'')])])
       ''typography''
     = Inr [(''typography-fontFamily-sans'', JString ''Inter, \"Segoe UI\", system-ui''),
            (''typography-fontSize-base'', JString ''1rem'')]
   \<and> map_of [(''typography-fontFamily-sans'', JString ''Inter, \"Segoe UI\", system-ui''),
            (''typography-fontSize-base'', JString ''1rem'')]
         ''typography-fontFamily-sans''
       = Some (JString ''Inter, \"Segoe UI\", system-ui'')
   \<and> flattenObject
       [(''typography'', JObject [(''fontFamily'', JObject [(''sans'',
           JArray [JString ''Inter'', JString ''system-ui''])])])] []
     = Inr [(''typography-fontFamily-sans'', JString ''Inter, system-ui'')]"
proof -
  let ?g = "[(''sans'', [''Inter'', ''Segoe UI'', ''system-ui''])]"
  let ?ys = "[(''fontSize'', JObject [(''base'', JString ''1rem'')])]"
  let ?F = "[(''typography-fontFamily-sans'', JString ''Inter, \"Segoe UI\", system-ui''),
            (''typography-fontSize-base'', JString ''1rem'')]"
  have h1: "''DEFAULT'' \<notin> fst ` set ?g" by simp
  have h2: "distinct (map fst ?g)" by simp
  have ap: "apart ''fontFamily'' ?ys" by (simp add: apart_def under_def)
  have g: "font_group ?g = [(''sans'',
           JArray [JString ''Inter'', JString ''Segoe UI'', JString ''system-ui''])]"
    by (simp add: font_group_def)
  have l: "font_list [''Inter'', ''Segoe UI'', ''system-ui''] = ''Inter, \"Segoe UI\", system-ui''"
    by (simp add: font_list_def quoted_def)
  have f: "flattenObject ([] @ (''fontFamily'', JObject (font_group ?g)) # ?ys) ''typography''
     = Inr ?F"
    unfolding g by (simp add: flat_eval)
  have ex: "flattenObject
       [(''typography'', JObject [(''fontFamily'', JObject [(''sans'',
           JArray [JString ''Inter'', JString ''system-ui''])])])] []
     = Inr [(''typography-fontFamily-sans'', JString ''Inter, system-ui'')]"
    by (simp add: flat_eval)
  from font_family_joined[OF h1 h2, of "''typography''" ?ys "[]"]
  have c1: "flattenObject [(''fontFamily'', JObject (font_group ?g))] ''typography''
           = Inr (map (\<lambda>(k, names).
                   (pre_of ''typography'' @ ''fontFamily-'' @ k, JString (font_list names))) ?g)"
    and c2: "\<forall>(k, names) \<in> set ?g.
               map_of ?F (pre_of ''typography'' @ ''fontFamily-'' @ k)
                 = Some (JString (font_list names))"
    using ap f by blast+
  from c1 have "flattenObject
       [(''fontFamily'', JObject [(''sans'',
           JArray [JString ''Inter'', JString ''Segoe UI'', JString ''system-ui''])])]
       ''typography''
     = Inr [(''typography-fontFamily-sans'', JString ''Inter, \"Segoe UI\", system-ui'')]"
    unfolding g by (simp add: l pre_of_def)
  moreover from c2 have "map_of ?F ''typography-fontFamily-sans''
       = Some (JString ''Inter, \"Segoe UI\", system-ui'')"
    by (simp add: l pre_of_def)
  moreover from f have "flattenObject
       ([] @ (''fontFamily'', JObject [(''sans'',
           JArray [JString ''Inter'', JString ''Segoe UI'', JString ''system-ui''])])
        # ?ys) ''typography'' = Inr ?F"
    unfolding g .
  ultimately show ?thesis using h1 h2 ex by blast
qed

text \<open>
  The claim itself speaks of every sequence under \<^verbatim>\<open>fontFamily\<close>; when the object has a
  \<^verbatim>\<open>DEFAULT\<close> entry the \<^verbatim>\<open>DEFAULT\<close> branch is taken first, the array is promoted as
  it is and the sequences are skipped.
\<close>

theorem font_family_default_counterexample:
  "flattenObject
     [(''fontFamily'', JObject
        [(''DEFAULT'', JArray [JString ''Inter'']),
         (''sans'', JArray [JString ''Inter'', JString ''system-ui''])])] []
   = Inr [(''fontFamily'', JArray [JString ''Inter''])]"
  by (simp add: flat_eval)

text \<open>
  Claim C8, as amended. When every value of the flattened map prints as a string (none is,
  or holds at any depth of nested arrays, an object with an own \<^verbatim>\<open>toString\<close> key), the
  Categorizer puts the line of every entry into exactly one of the six buckets, the one that
  the first matching prefix rule names: each bucket holds, in order, the lines of the entries
  classified to it and nothing else, the buckets together hold as many lines as the map has
  entries, and the seventh list stays empty. On every other flattened map the Categorizer
  raises a \<^verbatim>\<open>TypeError\<close> instead of returning buckets.
\<close>

theorem categorize_exactly_one_bucket:
  "(list_all (\<lambda>(k, v). printable v) flat \<longrightarrow>
      (\<exists>c. categorize flat = Inr c
         \<and> (\<forall>b. map Inr (bucket_lines c b)
                 = map (\<lambda>(k, v). cssVar k v) (filter (\<lambda>(k, v). bucket_of k = b) flat))
         \<and> (\<Sum>b \<leftarrow> [Colors, Typography, Spacing, BordersShadows, Transitions, Other].
               length (bucket_lines c b)) = length flat
         \<and> shadows c = []))
   \<and> (\<not> list_all (\<lambda>(k, v). printable v) flat \<longrightarrow> categorize flat = Inl TypeError)"
proof (intro conjI impI)
  assume "list_all (\<lambda>(k, v). printable v) flat"
  from for_each_entry_printable[OF this, of no_categories] obtain c where
    c: "for_each_entry flat no_categories = Inr c" and
    b: "\<And>b. map Inr (bucket_lines c b)
             = map Inr (bucket_lines no_categories b)
               @ map (\<lambda>(k, v). cssVar k v) (filter (\<lambda>(k, v). bucket_of k = b) flat)" and
    s: "shadows c = shadows no_categories"
    by blast
  have e: "bucket_lines no_categories b = []" for b
    by (cases b) (simp_all add: bucket_lines_def no_categories_def)
  have eq: "map Inr (bucket_lines c b)
      = map (\<lambda>(k, v). cssVar k v) (filter (\<lambda>(k, v). bucket_of k = b) flat)" for b
    using b[of b] by (simp add: e)
  have len: "length (bucket_lines c b) = length (filter (\<lambda>(k, v). bucket_of k = b) flat)" for b
    using arg_cong[OF eq[of b], of length] by simp
  have "(\<Sum>b \<leftarrow> [Colors, Typography, Spacing, BordersShadows, Transitions, Other].
         length (bucket_lines c b)) = length flat"
    using bucket_count[of flat] by (simp add: len)
  moreover have "shadows c = []" using s by (simp add: no_categories_def)
  ultimately show "\<exists>c. categorize flat = Inr c
         \<and> (\<forall>b. map Inr (bucket_lines c b)
                 = map (\<lambda>(k, v). cssVar k v) (filter (\<lambda>(k, v). bucket_of k = b) flat))
         \<and> (\<Sum>b \<leftarrow> [Colors, Typography, Spacing, BordersShadows, Transitions, Other].
               length (bucket_lines c b)) = length flat
         \<and> shadows c = []"
    using c eq unfolding categorize_def by blast
next
  assume "\<not> list_all (\<lambda>(k, v). printable v) flat"
  then show "categorize flat = Inl TypeError"
    unfolding categorize_def by (rule for_each_entry_unprintable)
qed

theorem categorize_exactly_one_bucket_witness:
  "list_all (\<lambda>(k, v). printable v)
     [(''colors-primary'', JString ''#0057e6''), (''radius'', JNumber ''4''),
      (''slide-padding'', JArray [JString ''40px'', JNull, JString ''80px'']),
      (''shadow-sm'', JObject [])]
   \<and> (\<exists>c. categorize
            [(''colors-primary'', JString ''#0057e6''), (''radius'', JNumber ''4''),
             (''slide-padding'', JArray [JString ''40px'', JNull, JString ''80px'']),
             (''shadow-sm'', JObject [])] = Inr c
         \<and> bucket_lines c Colors
             = [''  --prsm-colors-primary: #0057e6;'', ''  --prsm-slide-padding: 40px,,80px;'']
         \<and> bucket_lines c Typography = []
         \<and> bucket_lines c Spacing = []
         \<and> bucket_lines c BordersShadows = [''  --prsm-shadow-sm: [object Object];'']
         \<and> bucket_lines c Transitions = []
         \<and> bucket_lines c Other = [''  --prsm-radius: 4;'']
         \<and> shadows c = [])
   \<and> \<not> list_all (\<lambda>(k, v). printable v)
         [(''colors-primary'', JString ''#0057e6''),
          (''radius'', JObject [(''toString'', JString ''4px'')])]
   \<and> categorize [(''colors-primary'', JString ''#0057e6''),
                  (''radius'', JObject [(''toString'', JString ''4px'')])] = Inl TypeError"
proof -
  let ?F = "[(''colors-primary'', JString ''#0057e6''), (''radius'', JNumber ''4''),
      (''slide-padding'', JArray [JString ''40px'', JNull, JString ''80px'']),
      (''shadow-sm'', JObject [])]"
  let ?B = "[(''colors-primary'', JString ''#0057e6''),
          (''radius'', JObject [(''toString'', JString ''4px'')])]"
  have h1: "list_all (\<lambda>(k, v). printable v) ?F" by (simp add: has_key_def)
  have h2: "\<not> list_all (\<lambda>(k, v). printable v) ?B" by (simp add: has_key_def)
  from categorize_exactly_one_bucket[of ?F] h1 obtain c where
    c: "categorize ?F = Inr c" and
    b: "\<And>b. map Inr (bucket_lines c b)
             = map (\<lambda>(k, v). cssVar k v) (filter (\<lambda>(k, v). bucket_of k = b) ?F)" and
    s: "shadows c = []"
    by blast
  have b1: "bucket_lines c Colors
      = [''  --prsm-colors-primary: #0057e6;'', ''  --prsm-slide-padding: 40px,,80px;'']"
    by (rule map_Inr_lines[OF b[of Colors]])
       (simp add: bucket_of_def startsWith_def cssVar_def has_key_def)
  have b2: "bucket_lines c Typography = []"
    by (rule map_Inr_lines[OF b[of Typography]])
       (simp add: bucket_of_def startsWith_def cssVar_def has_key_def)
  have b3: "bucket_lines c Spacing = []"
    by (rule map_Inr_lines[OF b[of Spacing]])
       (simp add: bucket_of_def startsWith_def cssVar_def has_key_def)
  have b4: "bucket_lines c BordersShadows = [''  --prsm-shadow-sm: [object Object];'']"
    by (rule map_Inr_lines[OF b[of BordersShadows]])
       (simp add: bucket_of_def startsWith_def cssVar_def has_key_def)
  have b5: "bucket_lines c Transitions = []"
    by (rule map_Inr_lines[OF b[of Transitions]])
       (simp add: bucket_of_def startsWith_def cssVar_def has_key_def)
  have b6: "bucket_lines c Other = [''  --prsm-radius: 4;'']"
    by (rule map_Inr_lines[OF b[of Other]])
       (simp add: bucket_of_def startsWith_def cssVar_def has_key_def)
  have ex: "\<exists>c. categorize ?F = Inr c
         \<and> bucket_lines c Colors
             = [''  --prsm-colors-primary: #0057e6;'', ''  --prsm-slide-padding: 40px,,80px;'']
         \<and> bucket_lines c Typography = []
         \<and> bucket_lines c Spacing = []
         \<and> bucket_lines c BordersShadows = [''  --prsm-shadow-sm: [object Object];'']
         \<and> bucket_lines c Transitions = []
         \<and> bucket_lines c Other = [''  --prsm-radius: 4;'']
         \<and> shadows c = []"
    using c b1 b2 b3 b4 b5 b6 s by (intro exI conjI)
  have t: "categorize ?B = Inl TypeError"
    using categorize_exactly_one_bucket[of ?B] h2 by blast
  from h1 ex h2 t show ?thesis by (intro conjI)
qed

text \<open>
  The claim itself speaks of every flattened map. A \<^verbatim>\<open>DEFAULT\<close> that holds an object is
  promoted as it is; when that object has a \<^verbatim>\<open>toString\<close> key the line of its entry cannot
  be built, the Categorizer raises a \<^verbatim>\<open>TypeError\<close> and the base generator fails.
\<close>

theorem categorize_type_error_counterexample:
  "flattenObject [(''radius'', JObject [(''DEFAULT'', JObject [(''toString'', JString ''4px'')])])] []
     = Inr [(''radius'', JObject [(''toString'', JString ''4px'')]),
            (''radius-DEFAULT-toString'', JString ''4px'')]
   \<and> categorize [(''radius'', JObject [(''toString'', JString ''4px'')]),
                  (''radius-DEFAULT-toString'', JString ''4px'')] = Inl TypeError
   \<and> generateBaseCSS ''2025-12-30T01:21:55.091Z''
        [(''radius'', JObject [(''DEFAULT'', JObject [(''toString'', JString ''4px'')])])]
       = Inl TypeError"
  by (simp add: flat_eval generateBaseCSS_def categorize_def push_category_def cssVar_def)

text \<open>
  Claim C9, as amended. When the output directory exists or can be created and the token
  document is loaded, the Orchestrator records five artifacts, one per generator and in
  their order. An artifact is marked succeeded exactly when its own generator returns and
  its own output file can be written, whatever the other generators do; a failed artifact
  carries the exception of its generator or the system error of its write. \<^verbatim>\<open>build\<close>
  returns the conjunction of the five success flags (and nothing else). Hence, when exactly
  one generator raises an exception and every output file can be written, exactly one
  artifact is marked failed and four are marked succeeded.
\<close>

theorem isolation:
  assumes "mkdir_error e = None" and "loaded e = Inr variables"
  shows "\<exists>r0 r1 r2 r3 r4.
           snd (build_results e variables files) = [r0, r1, r2, r3, r4]
           \<and> map framework [r0, r1, r2, r3, r4]
               = [''base'', ''slidev'', ''reveal'', ''webslides'', ''tailwind'']
           \<and> map success [r0, r1, r2, r3, r4]
               = map (\<lambda>(fw, G). \<not> isl (G (clock e fw) variables) \<and> writable e (outputPath e fw))
                   generators
           \<and> map failure [r0, r1, r2, r3, r4]
               = map (\<lambda>(fw, G). case G (clock e fw) variables of
                                   Inl err \<Rightarrow> Some err
                                 | Inr content \<Rightarrow>
                                     if writable e (outputPath e fw) then None
                                     else Some SystemError)
                   generators
           \<and> build e files
               = Inr (success r0 \<and> success r1 \<and> success r2 \<and> success r3 \<and> success r4)
           \<and> (length (filter (\<lambda>(fw, G). isl (G (clock e fw) variables)) generators) = 1
                 \<and> list_all (\<lambda>(fw, G). writable e (outputPath e fw)) generators
               \<longrightarrow> length (filter (\<lambda>r. \<not> success r) [r0, r1, r2, r3, r4]) = 1
                   \<and> length (filter success [r0, r1, r2, r3, r4]) = 4)"
proof -
  let ?rs = "snd (build_results e variables files)"
  let ?S = "\<lambda>(fw, G). \<not> isl (G (clock e fw) variables) \<and> writable e (outputPath e fw)"
  have fw: "map framework ?rs = [''base'', ''slidev'', ''reveal'', ''webslides'', ''tailwind'']"
    by (simp add: build_results_def run_generators_fields(1)) (simp add: generators_def)
  have su: "map success ?rs = map ?S generators"
    unfolding build_results_def by (rule run_generators_fields(2))
  have fa: "map failure ?rs
      = map (\<lambda>(fw, G). case G (clock e fw) variables of
                          Inl err \<Rightarrow> Some err
                        | Inr content \<Rightarrow>
                            if writable e (outputPath e fw) then None else Some SystemError)
          generators"
    unfolding build_results_def by (rule run_generators_fields(3))
  have "length (map framework ?rs) = 5" unfolding fw by simp
  then have len: "length ?rs = 5" by simp
  from len obtain r0 r1 r2 r3 r4 where rs: "?rs = [r0, r1, r2, r3, r4]"
    by (auto simp: length_Suc_conv eval_nat_numeral)
  have b: "build e files = Inr (success r0 \<and> success r1 \<and> success r2 \<and> success r3 \<and> success r4)"
    using assms by (simp add: build_def rs)
  have c: "length (filter (\<lambda>r. \<not> success r) [r0, r1, r2, r3, r4]) = 1
         \<and> length (filter success [r0, r1, r2, r3, r4]) = 4"
    if one: "length (filter (\<lambda>(fw, G). isl (G (clock e fw) variables)) generators) = 1"
      and wr: "list_all (\<lambda>(fw, G). writable e (outputPath e fw)) generators"
  proof -
    have "filter (\<lambda>g. \<not> ?S g) generators
        = filter (\<lambda>(fw, G). isl (G (clock e fw) variables)) generators"
      using wr by (intro filter_cong refl) (auto simp: list_all_iff)
    with count_failed[OF su] one
    have f: "length (filter (\<lambda>r. \<not> success r) ?rs) = 1" by simp
    with count_succeeded[of ?rs] len
    have "length (filter success ?rs) = 4" by simp
    with f show ?thesis unfolding rs by simp
  qed
  show ?thesis
  proof (intro exI conjI)
    show "?rs = [r0, r1, r2, r3, r4]" by (rule rs)
    show "map framework [r0, r1, r2, r3, r4]
        = [''base'', ''slidev'', ''reveal'', ''webslides'', ''tailwind'']"
      using fw unfolding rs .
    show "map success [r0, r1, r2, r3, r4] = map ?S generators"
      using su unfolding rs .
    show "map failure [r0, r1, r2, r3, r4]
        = map (\<lambda>(fw, G). case G (clock e fw) variables of
                            Inl err \<Rightarrow> Some err
                          | Inr content \<Rightarrow>
                              if writable e (outputPath e fw) then None else Some SystemError)
            generators"
      using fa unfolding rs .
    show "build e files
        = Inr (success r0 \<and> success r1 \<and> success r2 \<and> success r3 \<and> success r4)"
      by (rule b)
    show "length (filter (\<lambda>(fw, G). isl (G (clock e fw) variables)) generators) = 1
            \<and> list_all (\<lambda>(fw, G). writable e (outputPath e fw)) generators
          \<longrightarrow> length (filter (\<lambda>r. \<not> success r) [r0, r1, r2, r3, r4]) = 1
              \<and> length (filter success [r0, r1, r2, r3, r4]) = 4"
      using c by simp
  qed
qed

theorem isolation_witness:
  "mkdir_error \<lparr>mkdir_error = None, loaded = Inr [], clock = (\<lambda>fw. ''2025-12-30T01:21:55.091Z''),
       outputDir = ''dist'', writable = (\<lambda>p. True)\<rparr> = None
   \<and> loaded \<lparr>mkdir_error = None, loaded = Inr [], clock = (\<lambda>fw. ''2025-12-30T01:21:55.091Z''),
       outputDir = ''dist'', writable = (\<lambda>p. True)\<rparr> = Inr []
   \<and> length (filter (\<lambda>(fw, G). isl (G (clock \<lparr>mkdir_error = None, loaded = Inr [], clock = (\<lambda>fw. ''2025-12-30T01:21:55.091Z''),
       outputDir = ''dist'', writable = (\<lambda>p. True)\<rparr> fw) [])) generators) = 1
   \<and> list_all (\<lambda>(fw, G). writable \<lparr>mkdir_error = None, loaded = Inr [], clock = (\<lambda>fw. ''2025-12-30T01:21:55.091Z''),
       outputDir = ''dist'', writable = (\<lambda>p. True)\<rparr> (outputPath \<lparr>mkdir_error = None, loaded = Inr [], clock = (\<lambda>fw. ''2025-12-30T01:21:55.091Z''),
       outputDir = ''dist'', writable = (\<lambda>p. True)\<rparr> fw)) generators
   \<and> (\<exists>r0 r1 r2 r3 r4.
         snd (build_results \<lparr>mkdir_error = None, loaded = Inr [], clock = (\<lambda>fw. ''2025-12-30T01:21:55.091Z''),
       outputDir = ''dist'', writable = (\<lambda>p. True)\<rparr> [] Map.empty) = [r0, r1, r2, r3, r4]
         \<and> map framework [r0, r1, r2, r3, r4]
             = [''base'', ''slidev'', ''reveal'', ''webslides'', ''tailwind'']
         \<and> map success [r0, r1, r2, r3, r4] = [True, True, True, True, False]
         \<and> map failure [r0, r1, r2, r3, r4] = [None, None, None, None, Some TypeError]
         \<and> build \<lparr>mkdir_error = None, loaded = Inr [], clock = (\<lambda>fw. ''2025-12-30T01:21:55.091Z''),
       outputDir = ''dist'', writable = (\<lambda>p. True)\<rparr> Map.empty = Inr False
         \<and> length (filter (\<lambda>r. \<not> success r) [r0, r1, r2, r3, r4]) = 1
         \<and> length (filter success [r0, r1, r2, r3, r4]) = 4)
   \<and> map success (snd (build_results \<lparr>mkdir_error = None, loaded = Inr [(''colors'', JObject []),
       (''typography'', JObject [(''fontFamily'', JObject []), (''fontSize'', JObject [])]),
       (''slide'', JObject [(''padding'', JObject
          [(''slidev'', JObject [(''toString'', JString ''40px'')])])])], clock = (\<lambda>fw. ''2025-12-30T01:21:55.091Z''),
       outputDir = ''dist'', writable = (\<lambda>p. True)\<rparr>
         [(''colors'', JObject []),
       (''typography'', JObject [(''fontFamily'', JObject []), (''fontSize'', JObject [])]),
       (''slide'', JObject [(''padding'', JObject
          [(''slidev'', JObject [(''toString'', JString ''40px'')])])])] Map.empty))
       = [True, False, True, True, True]
   \<and> map failure (snd (build_results \<lparr>mkdir_error = None, loaded = Inr [(''colors'', JObject []),
       (''typography'', JObject [(''fontFamily'', JObject []), (''fontSize'', JObject [])]),
       (''slide'', JObject [(''padding'', JObject
          [(''slidev'', JObject [(''toString'', JString ''40px'')])])])], clock = (\<lambda>fw. ''2025-12-30T01:21:55.091Z''),
       outputDir = ''dist'', writable = (\<lambda>p. True)\<rparr>
         [(''colors'', JObject []),
       (''typography'', JObject [(''fontFamily'', JObject []), (''fontSize'', JObject [])]),
       (''slide'', JObject [(''padding'', JObject
          [(''slidev'', JObject [(''toString'', JString ''40px'')])])])] Map.empty))
       = [None, Some TypeError, None, None, None]
   \<and> build \<lparr>mkdir_error = None, loaded = Inr [(''colors'', JObject []),
       (''typography'', JObject [(''fontFamily'', JObject []), (''fontSize'', JObject [])]),
       (''slide'', JObject [(''padding'', JObject
          [(''slidev'', JObject [(''toString'', JString ''40px'')])])])], clock = (\<lambda>fw. ''2025-12-30T01:21:55.091Z''),
       outputDir = ''dist'', writable = (\<lambda>p. True)\<rparr> Map.empty = Inr False
   \<and> map success (snd (build_results \<lparr>mkdir_error = None, loaded = Inr [(''colors'', JObject []),
       (''typography'', JObject [(''fontFamily'', JObject []), (''fontSize'', JObject [])])], clock = (\<lambda>fw. ''2025-12-30T01:21:55.091Z''),
       outputDir = ''dist'', writable = (\<lambda>p. True)\<rparr>
         [(''colors'', JObject []),
       (''typography'', JObject [(''fontFamily'', JObject []), (''fontSize'', JObject [])])] Map.empty))
       = [True, True, True, True, True]
   \<and> build \<lparr>mkdir_error = None, loaded = Inr [(''colors'', JObject []),
       (''typography'', JObject [(''fontFamily'', JObject []), (''fontSize'', JObject [])])], clock = (\<lambda>fw. ''2025-12-30T01:21:55.091Z''),
       outputDir = ''dist'', writable = (\<lambda>p. True)\<rparr> Map.empty = Inr True"
proof -
  let ?e = "\<lparr>mkdir_error = None, loaded = Inr [], clock = (\<lambda>fw. ''2025-12-30T01:21:55.091Z''),
       outputDir = ''dist'', writable = (\<lambda>p. True)\<rparr>"
  have h1: "mkdir_error ?e = None" by simp
  have h2: "loaded ?e = Inr []" by simp
  have h3: "length (filter (\<lambda>(fw, G). isl (G (clock ?e fw) [])) generators) = 1"
    by (simp add: generators_def empty_document)
  have h4: "list_all (\<lambda>(fw, G). writable ?e (outputPath ?e fw)) generators"
    by (simp add: generators_def)
  from isolation[OF h1 h2, of Map.empty] obtain r0 r1 r2 r3 r4 where
    rs: "snd (build_results ?e [] Map.empty) = [r0, r1, r2, r3, r4]" and
    fw: "map framework [r0, r1, r2, r3, r4]
             = [''base'', ''slidev'', ''reveal'', ''webslides'', ''tailwind'']" and
    su: "map success [r0, r1, r2, r3, r4]
           = map (\<lambda>(fw, G). \<not> isl (G (clock ?e fw) []) \<and> writable ?e (outputPath ?e fw))
               generators" and
    fa: "map failure [r0, r1, r2, r3, r4]
           = map (\<lambda>(fw, G). case G (clock ?e fw) [] of
                               Inl err \<Rightarrow> Some err
                             | Inr content \<Rightarrow>
                                 if writable ?e (outputPath ?e fw) then None
                                 else Some SystemError)
               generators" and
    b: "build ?e Map.empty
          = Inr (success r0 \<and> success r1 \<and> success r2 \<and> success r3 \<and> success r4)" and
    c: "length (filter (\<lambda>(fw, G). isl (G (clock ?e fw) [])) generators) = 1
          \<and> list_all (\<lambda>(fw, G). writable ?e (outputPath ?e fw)) generators
        \<longrightarrow> length (filter (\<lambda>r. \<not> success r) [r0, r1, r2, r3, r4]) = 1
            \<and> length (filter success [r0, r1, r2, r3, r4]) = 4"
    by (elim exE conjE)
  have su': "map success [r0, r1, r2, r3, r4] = [True, True, True, True, False]"
    unfolding su by (simp add: generators_def empty_document)
  have fa': "map failure [r0, r1, r2, r3, r4] = [None, None, None, None, Some TypeError]"
    unfolding fa by (simp add: generators_def empty_document sum.case_eq_if)
  from su' have b': "build ?e Map.empty = Inr False" unfolding b by simp
  from c h3 h4 have c': "length (filter (\<lambda>r. \<not> success r) [r0, r1, r2, r3, r4]) = 1
            \<and> length (filter success [r0, r1, r2, r3, r4]) = 4"
    by blast
  have first: "\<exists>r0 r1 r2 r3 r4.
         snd (build_results ?e [] Map.empty) = [r0, r1, r2, r3, r4]
         \<and> map framework [r0, r1, r2, r3, r4]
             = [''base'', ''slidev'', ''reveal'', ''webslides'', ''tailwind'']
         \<and> map success [r0, r1, r2, r3, r4] = [True, True, True, True, False]
         \<and> map failure [r0, r1, r2, r3, r4] = [None, None, None, None, Some TypeError]
         \<and> build ?e Map.empty = Inr False
         \<and> length (filter (\<lambda>r. \<not> success r) [r0, r1, r2, r3, r4]) = 1
         \<and> length (filter success [r0, r1, r2, r3, r4]) = 4"
  proof (intro exI conjI)
    show "snd (build_results ?e [] Map.empty) = [r0, r1, r2, r3, r4]" by (rule rs)
    show "map framework [r0, r1, r2, r3, r4]
             = [''base'', ''slidev'', ''reveal'', ''webslides'', ''tailwind'']" by (rule fw)
    show "map success [r0, r1, r2, r3, r4] = [True, True, True, True, False]" by (rule su')
    show "map failure [r0, r1, r2, r3, r4] = [None, None, None, None, Some TypeError]"
      by (rule fa')
    show "build ?e Map.empty = Inr False" by (rule b')
    show "length (filter (\<lambda>r. \<not> success r) [r0, r1, r2, r3, r4]) = 1" using c' by simp
    show "length (filter success [r0, r1, r2, r3, r4]) = 4" using c' by simp
  qed
  let ?d2 = "[(''colors'', JObject []),
       (''typography'', JObject [(''fontFamily'', JObject []), (''fontSize'', JObject [])]),
       (''slide'', JObject [(''padding'', JObject
          [(''slidev'', JObject [(''toString'', JString ''40px'')])])])]"
  let ?e2 = "\<lparr>mkdir_error = None, loaded = Inr [(''colors'', JObject []),
       (''typography'', JObject [(''fontFamily'', JObject []), (''fontSize'', JObject [])]),
       (''slide'', JObject [(''padding'', JObject
          [(''slidev'', JObject [(''toString'', JString ''40px'')])])])], clock = (\<lambda>fw. ''2025-12-30T01:21:55.091Z''),
       outputDir = ''dist'', writable = (\<lambda>p. True)\<rparr>"
  have g1: "mkdir_error ?e2 = None" by simp
  have g2: "loaded ?e2 = Inr ?d2" by simp
  from isolation[OF g1 g2, of Map.empty] obtain s0 s1 s2 s3 s4 where
    rs2: "snd (build_results ?e2 ?d2 Map.empty) = [s0, s1, s2, s3, s4]" and
    su2: "map success [s0, s1, s2, s3, s4]
           = map (\<lambda>(fw, G). \<not> isl (G (clock ?e2 fw) ?d2) \<and> writable ?e2 (outputPath ?e2 fw))
               generators" and
    fa2: "map failure [s0, s1, s2, s3, s4]
           = map (\<lambda>(fw, G). case G (clock ?e2 fw) ?d2 of
                               Inl err \<Rightarrow> Some err
                             | Inr content \<Rightarrow>
                                 if writable ?e2 (outputPath ?e2 fw) then None
                                 else Some SystemError)
               generators" and
    b2: "build ?e2 Map.empty
          = Inr (success s0 \<and> success s1 \<and> success s2 \<and> success s3 \<and> success s4)"
    by (elim exE conjE)
  have su2': "map success [s0, s1, s2, s3, s4] = [True, False, True, True, True]"
    unfolding su2 by (simp add: generators_def slidev_padding_document)
  have fa2': "map failure [s0, s1, s2, s3, s4] = [None, Some TypeError, None, None, None]"
    unfolding fa2 by (simp add: generators_def slidev_padding_document sum.case_eq_if)
  from su2' have b2': "build ?e2 Map.empty = Inr False" unfolding b2 by simp
  let ?d3 = "[(''colors'', JObject []),
       (''typography'', JObject [(''fontFamily'', JObject []), (''fontSize'', JObject [])])]"
  let ?e3 = "\<lparr>mkdir_error = None, loaded = Inr [(''colors'', JObject []),
       (''typography'', JObject [(''fontFamily'', JObject []), (''fontSize'', JObject [])])], clock = (\<lambda>fw. ''2025-12-30T01:21:55.091Z''),
       outputDir = ''dist'', writable = (\<lambda>p. True)\<rparr>"
  have k1: "mkdir_error ?e3 = None" by simp
  have k2: "loaded ?e3 = Inr ?d3" by simp
  from isolation[OF k1 k2, of Map.empty] obtain t0 t1 t2 t3 t4 where
    rs3: "snd (build_results ?e3 ?d3 Map.empty) = [t0, t1, t2, t3, t4]" and
    su3: "map success [t0, t1, t2, t3, t4]
           = map (\<lambda>(fw, G). \<not> isl (G (clock ?e3 fw) ?d3) \<and> writable ?e3 (outputPath ?e3 fw))
               generators" and
    b3: "build ?e3 Map.empty
          = Inr (success t0 \<and> success t1 \<and> success t2 \<and> success t3 \<and> success t4)"
    by (elim exE conjE)
  have su3': "map success [t0, t1, t2, t3, t4] = [True, True, True, True, True]"
    unfolding su3 by (simp add: generators_def minimal_document)
  from su3' have b3': "build ?e3 Map.empty = Inr True" unfolding b3 by simp
  from h1 h2 h3 h4 first su2'[folded rs2] fa2'[folded rs2] b2' su3'[folded rs3] b3'
  show ?thesis by (intro conjI)
qed

text \<open>
  The claim itself counts one failed artifact whenever exactly one generator throws. The
  \<^verbatim>\<open>try\<close> block also holds the write: on the empty document only the Tailwind generator
  throws, and when base.css cannot be written two artifacts are marked failed.
\<close>

theorem isolation_write_counterexample:
  "length (filter (\<lambda>(fw, G). isl (G (clock \<lparr>mkdir_error = None, loaded = Inr [], clock = (\<lambda>fw. ''2025-12-30T01:21:55.091Z''),
       outputDir = ''dist'', writable = (\<lambda>p. p \<noteq> ''dist/base.css'')\<rparr> fw) [])) generators) = 1
   \<and> map success (snd (build_results \<lparr>mkdir_error = None, loaded = Inr [], clock = (\<lambda>fw. ''2025-12-30T01:21:55.091Z''),
       outputDir = ''dist'', writable = (\<lambda>p. p \<noteq> ''dist/base.css'')\<rparr> [] Map.empty)) = [False, True, True, True, False]
   \<and> map failure (snd (build_results \<lparr>mkdir_error = None, loaded = Inr [], clock = (\<lambda>fw. ''2025-12-30T01:21:55.091Z''),
       outputDir = ''dist'', writable = (\<lambda>p. p \<noteq> ''dist/base.css'')\<rparr> [] Map.empty))
       = [Some SystemError, None, None, None, Some TypeError]
   \<and> length (filter (\<lambda>r. \<not> success r) (snd (build_results \<lparr>mkdir_error = None, loaded = Inr [], clock = (\<lambda>fw. ''2025-12-30T01:21:55.091Z''),
       outputDir = ''dist'', writable = (\<lambda>p. p \<noteq> ''dist/base.css'')\<rparr> [] Map.empty))) = 2"
proof -
  let ?e = "\<lparr>mkdir_error = None, loaded = Inr [], clock = (\<lambda>fw. ''2025-12-30T01:21:55.091Z''),
       outputDir = ''dist'', writable = (\<lambda>p. p \<noteq> ''dist/base.css'')\<rparr>"
  have su: "map success (snd (build_results ?e [] Map.empty)) = [False, True, True, True, False]"
    by (simp add: build_results_def run_generators_fields(2))
       (simp add: generators_def empty_document outputPath_def)
  have fa: "map failure (snd (build_results ?e [] Map.empty))
       = [Some SystemError, None, None, None, Some TypeError]"
    by (simp add: build_results_def run_generators_fields(3))
       (simp add: generators_def empty_document outputPath_def sum.case_eq_if)
  have "length (filter (\<lambda>r. \<not> success r) (snd (build_results ?e [] Map.empty)))
      = length (filter (\<lambda>b. \<not> b) (map success (snd (build_results ?e [] Map.empty))))"
    by (simp add: filter_map comp_def)
  also have "\<dots> = 2" unfolding su by simp
  finally have n: "length (filter (\<lambda>r. \<not> success r) (snd (build_results ?e [] Map.empty))) = 2" .
  have "length (filter (\<lambda>(fw, G). isl (G (clock ?e fw) [])) generators) = 1"
    by (simp add: generators_def empty_document)
  with su fa n show ?thesis by (intro conjI)
qed

text \<open>
  Claim C10, as amended. Let the keys \<open>ks\<close> lead from the token document (or from any object
  flattened under a prefix) to a nested object with a \<^verbatim>\<open>DEFAULT\<close> key holding a string or
  a number and no \<^verbatim>\<open>value\<close> key holding a string: the Flattener descends into every object
  on the way, and on every level no later key of the same object collides with the key that
  is followed. Let the last key be no metadata key, the path \<open>p\<close> of the keys start with a
  non-empty key (or prefix) and not be \<^verbatim>\<open>__proto__\<close>, and the keys of the object be
  distinct. Then, when flattening raises no error, the flattened map of the document has,
  besides the promoted entry at \<open>p\<close>, an entry at \<open>p-DEFAULT\<close> with the same value.
\<close>

theorem default_key_revisited:
  assumes "reached doc ks = Some (JObject fs)"
    and "\<not> startsWith (last ks) ''$''" and "\<not> is_value_string fs"
    and "map_of fs ''DEFAULT'' = Some d" and "is_scalar d" and "distinct (map fst fs)"
    and "pre_of prefix @ hd ks \<noteq> []" and "path_from prefix ks \<noteq> ''__proto__''"
    and "flattenObject doc prefix = Inr flat"
  shows "map_of flat (path_from prefix ks) = Some d
         \<and> map_of flat (path_from prefix ks @ ''-DEFAULT'') = Some d"
proof -
  from assms(4) have kv: "(''DEFAULT'', d) \<in> set fs"
    by (rule map_of_SomeD)
  have "map_of flat (path_from prefix ks) = Some d"
    by (rule reached_group(1)[OF assms(1-4,7,9,8)])
  moreover have "map_of flat (path_from prefix ks @ ''-'' @ ''DEFAULT'') = Some d"
    by (rule reached_group(2)[OF assms(1-4,7,9,6) kv assms(5)]) simp
  ultimately show ?thesis by simp
qed

theorem default_key_revisited_witness:
  "\<not> startsWith (last [''borders'', ''radius'']) ''$''
   \<and> \<not> is_value_string [(''sm'', JString ''2px''), (''DEFAULT'', JString ''4px'')]
   \<and> map_of [(''sm'', JString ''2px''), (''DEFAULT'', JString ''4px'')] ''DEFAULT''
       = Some (JString ''4px'')
   \<and> is_scalar (JString ''4px'')
   \<and> distinct (map fst [(''sm'', JString ''2px''), (''DEFAULT'', JString ''4px'')])
   \<and> pre_of [] @ hd [''borders'', ''radius''] \<noteq> []
   \<and> path_from [] [''borders'', ''radius''] = ''borders-radius''
   \<and> flattenObject
        [(''gap'', JString ''8px''),
         (''borders'', JObject
            [(''radius'', JObject [(''sm'', JString ''2px''), (''DEFAULT'', JString ''4px'')]),
             (''width'', JString ''1px'')]),
         (''shadow'', JString ''none'')] []
       = Inr [(''gap'', JString ''8px''), (''borders-radius'', JString ''4px''),
              (''borders-radius-sm'', JString ''2px''),
              (''borders-radius-DEFAULT'', JString ''4px''),
              (''borders-width'', JString ''1px''), (''shadow'', JString ''none'')]
   \<and> map_of [(''gap'', JString ''8px''), (''borders-radius'', JString ''4px''),
              (''borders-radius-sm'', JString ''2px''),
              (''borders-radius-DEFAULT'', JString ''4px''),
              (''borders-width'', JString ''1px''), (''shadow'', JString ''none'')]
         ''borders-radius'' = Some (JString ''4px'')
   \<and> map_of [(''gap'', JString ''8px''), (''borders-radius'', JString ''4px''),
              (''borders-radius-sm'', JString ''2px''),
              (''borders-radius-DEFAULT'', JString ''4px''),
              (''borders-width'', JString ''1px''), (''shadow'', JString ''none'')]
         ''borders-radius-DEFAULT'' = Some (JString ''4px'')"
proof -
  let ?G = "[(''sm'', JString ''2px''), (''DEFAULT'', JString ''4px'')]"
  let ?ks = "[''borders'', ''radius'']"
  let ?doc = "[(''gap'', JString ''8px''),
         (''borders'', JObject [(''radius'', JObject ?G), (''width'', JString ''1px'')]),
         (''shadow'', JString ''none'')]"
  let ?F = "[(''gap'', JString ''8px''), (''borders-radius'', JString ''4px''),
              (''borders-radius-sm'', JString ''2px''),
              (''borders-radius-DEFAULT'', JString ''4px''),
              (''borders-width'', JString ''1px''), (''shadow'', JString ''none'')]"
  have r: "reached ?doc ?ks = Some (JObject ?G)"
    by (simp add: apart_def under_def descended_def startsWith_def is_value_string_def has_key_def)
  have h1: "\<not> startsWith (last ?ks) ''$''" by (simp add: startsWith_def)
  have h2: "\<not> is_value_string ?G" by (simp add: is_value_string_def)
  have h3: "map_of ?G ''DEFAULT'' = Some (JString ''4px'')" by simp
  have h4: "is_scalar (JString ''4px'')" by (simp add: is_scalar_def)
  have h5: "distinct (map fst ?G)" by simp
  have h6: "pre_of [] @ hd ?ks \<noteq> []" by (simp add: pre_of_def)
  have p: "path_from [] ?ks = ''borders-radius''" by (simp add: path_from_def pre_of_def)
  have h7: "path_from [] ?ks \<noteq> ''__proto__''" unfolding p by simp
  have f: "flattenObject ?doc [] = Inr ?F" by (simp add: flat_eval)
  from default_key_revisited[OF r h1 h2 h3 h4 h5 h6 h7 f]
  have c: "map_of ?F ''borders-radius'' = Some (JString ''4px'')"
    "map_of ?F ''borders-radius-DEFAULT'' = Some (JString ''4px'')"
    unfolding p by simp_all
  from h1 h2 h3 h4 h5 h6 p f c show ?thesis by (intro conjI)
qed

text \<open>
  The claim itself speaks of every nested object with a \<^verbatim>\<open>DEFAULT\<close> key; one that also has
  a \<^verbatim>\<open>value\<close> holding a string is collapsed, and no entry at \<open>p-DEFAULT\<close> exists.
\<close>

theorem default_key_wrapper_counterexample:
  "flattenObject [(''radius'', JObject [(''DEFAULT'', JString ''4px''), (''value'', JString ''2px'')])] []
     = Inr [(''radius'', JString ''2px'')]"
  by (simp add: flat_eval)

end
